(* ===== verification/Prelude.thy ===== *)
theory Prelude
  imports Main "HOL-Library.Word" "HOL-Library.AList"
begin

text \<open>
  The prelude of the development: the machine types of the Rust sources as words, bytes and
  strings, the \<open>Result\<close> combinators the sources use (\<open>?\<close>, \<open>map_err\<close>, \<open>ok_or_else\<close>,
  \<open>collect\<close>), the number formats (\<open>{}\<close> on integers, \<open>{:02x}\<close> on bytes) and \<open>str::trim\<close>,
  with the lemmas every component shares.

  A Rust \<open>String\<close> is the list of the bytes of its UTF-8 text: one \<^typ>\<open>char\<close> per byte, so
  that \<open>String::len\<close> is \<^const>\<open>length\<close>.
\<close>

section \<open>Machine types\<close>

type_synonym u8 = "8 word"
type_synonym u16 = "16 word"
type_synonym u32 = "32 word"
type_synonym u64 = "64 word"
type_synonym i64 = "64 word"
type_synonym bytes = "u8 list"

named_theorems res_simps "rewrite rules of the Result combinators"
named_theorems host_simps "rewrite rules of the Ruby value accessors"

definition byte_of_char :: "char \<Rightarrow> u8" where
  "byte_of_char c = word_of_nat (of_char c)"

definition char_of_byte :: "u8 \<Rightarrow> char" where
  "char_of_byte w = char_of (unat w)"

definition utf8 :: "string \<Rightarrow> bytes" where
  "utf8 s = map byte_of_char s"

definition text_of :: "bytes \<Rightarrow> string" where
  "text_of bs = map char_of_byte bs"

section \<open>Result combinators\<close>

text \<open>\<open>e?\<close> followed by the rest of the function: the first error returns early.\<close>

definition and_then :: "'e + 'a \<Rightarrow> ('a \<Rightarrow> 'e + 'b) \<Rightarrow> 'e + 'b" where
  "and_then r f = (case r of Inl e \<Rightarrow> Inl e | Inr x \<Rightarrow> f x)"

definition map_ok :: "('a \<Rightarrow> 'b) \<Rightarrow> 'e + 'a \<Rightarrow> 'e + 'b" where
  "map_ok f r = (case r of Inl e \<Rightarrow> Inl e | Inr x \<Rightarrow> Inr (f x))"

definition map_err :: "('e \<Rightarrow> 'd) \<Rightarrow> 'e + 'a \<Rightarrow> 'd + 'a" where
  "map_err f r = (case r of Inl e \<Rightarrow> Inl (f e) | Inr x \<Rightarrow> Inr x)"

definition ok_or :: "'e \<Rightarrow> 'a option \<Rightarrow> 'e + 'a" where
  "ok_or e m = (case m of None \<Rightarrow> Inl e | Some x \<Rightarrow> Inr x)"

text \<open>\<open>iter().map(f).collect::<Result<Vec<_>, _>>()\<close>, and a \<open>for\<close> loop that pushes one
  result per item and leaves with \<open>?\<close>: in order, stopping at the first error.\<close>

fun collect :: "('a \<Rightarrow> 'e + 'b) \<Rightarrow> 'a list \<Rightarrow> 'e + 'b list" where
  "collect f [] = Inr []"
| "collect f (x # xs) = and_then (f x) (\<lambda>y. and_then (collect f xs) (\<lambda>ys. Inr (y # ys)))"

lemma and_then_simps [simp, res_simps]:
  "and_then (Inl e) f = Inl e"
  "and_then (Inr x) f = f x"
  by (simp_all add: and_then_def)

lemma map_ok_simps [simp, res_simps]:
  "map_ok g (Inl e) = Inl e"
  "map_ok g (Inr x) = Inr (g x)"
  by (simp_all add: map_ok_def)

lemma map_err_simps [simp, res_simps]:
  "map_err g (Inl e) = Inl (g e)"
  "map_err g (Inr x) = Inr x"
  by (simp_all add: map_err_def)

lemma ok_or_simps [simp, res_simps]:
  "ok_or e None = Inl e"
  "ok_or e (Some x) = Inr x"
  by (simp_all add: ok_or_def)

lemma and_then_eq_Inr: "and_then r f = Inr y \<longleftrightarrow> (\<exists>x. r = Inr x \<and> f x = Inr y)"
  by (cases r) auto

lemma and_then_eq_Inl: "and_then r f = Inl e \<longleftrightarrow> r = Inl e \<or> (\<exists>x. r = Inr x \<and> f x = Inl e)"
  by (cases r) auto

lemma map_err_eq_Inr: "map_err g r = Inr y \<longleftrightarrow> r = Inr y"
  by (cases r) auto

lemma map_err_eq_Inl: "map_err g r = Inl d \<longleftrightarrow> (\<exists>e. r = Inl e \<and> d = g e)"
  by (cases r) auto

lemma map_ok_eq_Inr: "map_ok g r = Inr y \<longleftrightarrow> (\<exists>x. r = Inr x \<and> y = g x)"
  by (cases r) auto

lemma map_ok_eq_Inl: "map_ok g r = Inl d \<longleftrightarrow> r = Inl d"
  by (cases r) auto

lemma ok_or_eq_Inr: "ok_or e m = Inr y \<longleftrightarrow> m = Some y"
  by (cases m) auto

lemma ok_or_eq_Inl: "ok_or e m = Inl d \<longleftrightarrow> m = None \<and> d = e"
  by (cases m) auto

lemmas res_iffs = and_then_eq_Inr and_then_eq_Inl map_err_eq_Inr map_err_eq_Inl
  map_ok_eq_Inr map_ok_eq_Inl ok_or_eq_Inr ok_or_eq_Inl

lemma collect_Inr_iff: "collect f xs = Inr ys \<longleftrightarrow> list_all2 (\<lambda>x y. f x = Inr y) xs ys"
proof (induction xs arbitrary: ys)
  case Nil
  then show ?case by auto
next
  case (Cons x xs)
  then show ?case by (cases ys) (auto simp: and_then_eq_Inr)
qed

lemma collect_length: "collect f xs = Inr ys \<Longrightarrow> length ys = length xs"
  by (simp add: collect_Inr_iff list_all2_lengthD)

lemma collect_map: "collect f (map g xs) = collect (\<lambda>x. f (g x)) xs"
  by (induction xs) simp_all

lemma collect_all_Inr: "(\<And>x. x \<in> set xs \<Longrightarrow> f x = Inr (g x)) \<Longrightarrow> collect f xs = Inr (map g xs)"
  by (induction xs) simp_all

lemma collect_cong: "(\<And>x. x \<in> set xs \<Longrightarrow> f x = g x) \<Longrightarrow> collect f xs = collect g xs"
  by (induction xs) simp_all

lemma collect_member: "collect f xs = Inr ys \<Longrightarrow> y \<in> set ys \<Longrightarrow> \<exists>x \<in> set xs. f x = Inr y"
  by (auto simp: collect_Inr_iff list_all2_conv_all_nth in_set_conv_nth) (metis nth_mem)

lemma collect_map_ok:
  "collect (\<lambda>x. map_ok f (map_err g (k x))) xs = map_ok (map f) (map_err g (collect k xs))"
proof (induction xs)
  case Nil
  then show ?case by simp
next
  case (Cons x xs)
  then show ?case by (cases "k x"; cases "collect k xs") simp_all
qed

text \<open>A failing loop failed at one item, and every item before it had succeeded.\<close>

lemma collect_append:
  "collect f (xs @ ys) = and_then (collect f xs) (\<lambda>us. map_ok (\<lambda>vs. us @ vs) (collect f ys))"
proof (induction xs)
  case Nil
  then show ?case by (cases "collect f ys") simp_all
next
  case (Cons x xs)
  then show ?case
    by (cases "f x"; cases "collect f xs"; cases "collect f ys") simp_all
qed

lemma collect_first_error:
  "collect f xs = Inl e \<Longrightarrow>
     \<exists>pre x post ys. xs = pre @ x # post \<and> collect f pre = Inr ys \<and> f x = Inl e"
proof (induction xs)
  case Nil
  then show ?case by simp
next
  case (Cons a xs)
  show ?case
  proof (cases "f a")
    case (Inl d)
    with Cons.prems have "a # xs = [] @ a # xs" "collect f [] = Inr []" "f a = Inl e"
      by simp_all
    then show ?thesis by blast
  next
    case (Inr b)
    with Cons.prems have "collect f xs = Inl e" by (simp add: and_then_eq_Inl)
    then obtain pre x post ys where
      "xs = pre @ x # post" "collect f pre = Inr ys" "f x = Inl e"
      using Cons.IH by blast
    with Inr have "a # xs = (a # pre) @ x # post" "collect f (a # pre) = Inr (b # ys)" "f x = Inl e"
      by simp_all
    then show ?thesis by blast
  qed
qed

section \<open>Bytes and characters\<close>

lemma char_of_byte_of_char [simp]: "char_of_byte (byte_of_char c) = c"
proof -
  have "of_char c < (256::nat)" by simp
  then have "unat (byte_of_char c) = of_char c"
    by (simp add: byte_of_char_def unat_of_nat)
  then show ?thesis by (simp add: char_of_byte_def)
qed

lemma byte_of_char_of_byte [simp]: "byte_of_char (char_of_byte w) = w"
proof -
  have "unat w < 256" using unsigned_less [of w, where 'a = nat] by simp
  then show ?thesis by (simp add: byte_of_char_def char_of_byte_def)
qed

lemma text_of_utf8 [simp]: "text_of (utf8 s) = s"
  by (simp add: text_of_def utf8_def comp_def)

lemma utf8_text_of [simp]: "utf8 (text_of b) = b"
  by (simp add: text_of_def utf8_def comp_def)

lemma length_utf8 [simp]: "length (utf8 s) = length s"
  by (simp add: utf8_def)

lemma utf8_eq_iff [simp]: "utf8 s = utf8 t \<longleftrightarrow> s = t"
  by (metis text_of_utf8)

section \<open>Number formats\<close>

definition digit_char :: "nat \<Rightarrow> char" where
  "digit_char d = char_of (48 + d)"

fun show_nat :: "nat \<Rightarrow> string" where
  "show_nat n = (if n < 10 then [digit_char n] else show_nat (n div 10) @ [digit_char (n mod 10)])"

declare show_nat.simps [simp del]

definition show_int :: "int \<Rightarrow> string" where
  "show_int i = (if i < 0 then CHR ''-'' # show_nat (nat (- i)) else show_nat (nat i))"

definition show_bool :: "bool \<Rightarrow> string" where
  "show_bool b = (if b then ''true'' else ''false'')"

text \<open>A lower-case hexadecimal digit and the \<open>{:02x}\<close> format of one byte.\<close>

definition hex_digit :: "nat \<Rightarrow> char" where
  "hex_digit d = (if d < 10 then char_of (48 + d) else char_of (87 + d))"

definition hex_value :: "char \<Rightarrow> nat option" where
  "hex_value c = (let k = of_char c :: nat in
     if 48 \<le> k \<and> k \<le> 57 then Some (k - 48)
     else if 97 \<le> k \<and> k \<le> 102 then Some (k - 87)
     else if 65 \<le> k \<and> k \<le> 70 then Some (k - 55)
     else None)"

definition hex_byte :: "u8 \<Rightarrow> string" where
  "hex_byte b = [hex_digit (unat b div 16), hex_digit (unat b mod 16)]"

lemma hex_value_hex_digit: "d < 16 \<Longrightarrow> hex_value (hex_digit d) = Some d"
  by (auto simp: hex_value_def hex_digit_def Let_def)

lemma length_hex_byte [simp]: "length (hex_byte b) = 2"
  by (simp add: hex_byte_def)

section \<open>\<open>str::trim\<close>\<close>

text \<open>The code points with the Unicode property White_Space, as their UTF-8 bytes.\<close>

definition whitespace :: "string list" where
  "whitespace =
     [[CHR 0x09], [CHR 0x0A], [CHR 0x0B], [CHR 0x0C], [CHR 0x0D], [CHR 0x20],
      [CHR 0xC2, CHR 0x85], [CHR 0xC2, CHR 0xA0], [CHR 0xE1, CHR 0x9A, CHR 0x80]]
     @ map (\<lambda>k. [CHR 0xE2, CHR 0x80, char_of (128 + k)]) [0 ..< 11]
     @ [[CHR 0xE2, CHR 0x80, CHR 0xA8], [CHR 0xE2, CHR 0x80, CHR 0xA9],
        [CHR 0xE2, CHR 0x80, CHR 0xAF], [CHR 0xE2, CHR 0x81, CHR 0x9F],
        [CHR 0xE3, CHR 0x80, CHR 0x80]]"

definition starts_with :: "string \<Rightarrow> string \<Rightarrow> bool" where
  "starts_with s w \<longleftrightarrow> take (length w) s = w"

function strip_front :: "string list \<Rightarrow> string \<Rightarrow> string" where
  "strip_front ws s =
     (case find (\<lambda>w. w \<noteq> [] \<and> starts_with s w) ws of
        None \<Rightarrow> s
      | Some w \<Rightarrow> strip_front ws (drop (length w) s))"
  by pat_completeness auto
termination
proof (relation "measure (\<lambda>(ws, s). length s)", goal_cases)
  case 1
  show ?case by simp
next
  case (2 ws s w)
  then have "w \<noteq> []" "starts_with s w" by (auto simp: find_Some_iff)
  then have "0 < length w" "0 < length s" by (auto simp: starts_with_def)
  then show ?case by simp
qed

declare strip_front.simps [simp del]

definition trim :: "string \<Rightarrow> string" where
  "trim s = rev (strip_front (map rev whitespace) (rev (strip_front whitespace s)))"

text \<open>A text that starts with no white space is untouched at the front; so a text of
  hexadecimal digits is its own trim.\<close>

definition hex_char :: "char \<Rightarrow> bool" where
  "hex_char c \<longleftrightarrow> hex_value c \<noteq> None"

lemma whitespace_not_hex:
  assumes "w \<in> set whitespace"
  shows "w \<noteq> [] \<and> (\<forall>c \<in> set w. \<not> hex_char c)"
proof -
  have "list_all (\<lambda>w. w \<noteq> [] \<and> list_all (\<lambda>c. \<not> hex_char c) w) whitespace"
    by code_simp
  with assms show ?thesis by (auto simp: list_all_iff)
qed

lemma strip_front_hex:
  assumes ws: "\<And>w. w \<in> set ws \<Longrightarrow> w \<noteq> [] \<and> (\<forall>c \<in> set w. \<not> hex_char c)"
    and s: "\<forall>c \<in> set s. hex_char c"
  shows "strip_front ws s = s"
proof -
  have "\<not> (w \<noteq> [] \<and> starts_with s w)" if "w \<in> set ws" for w
  proof
    assume "w \<noteq> [] \<and> starts_with s w"
    then have "take (length w) s = w" and "w \<noteq> []" by (auto simp: starts_with_def)
    then have "hd w \<in> set s" by (metis in_set_takeD list.set_sel(1))
    moreover have "hd w \<in> set w" using \<open>w \<noteq> []\<close> by simp
    ultimately show False using ws [OF that] s by auto
  qed
  then have "find (\<lambda>w. w \<noteq> [] \<and> starts_with s w) ws = None"
    by (auto simp: find_None_iff)
  then show ?thesis by (simp add: strip_front.simps)
qed

lemma trim_hex: "\<forall>c \<in> set s. hex_char c \<Longrightarrow> trim s = s"
proof -
  assume s: "\<forall>c \<in> set s. hex_char c"
  have front: "strip_front whitespace s = s"
    using whitespace_not_hex s by (intro strip_front_hex) auto
  have rear: "strip_front (map rev whitespace) (rev s) = rev s"
    using whitespace_not_hex s by (intro strip_front_hex) auto
  show ?thesis by (simp add: trim_def front rear)
qed

end
