(* ===== verification/Ruby_Host.thy ===== *)
theory Ruby_Host
  imports Prelude
begin

text \<open>
  The host side of the extension: Ruby values, Ruby exceptions, Ruby hashes, and the runtime
  the native code calls into.

  A Ruby value is a \<open>rvalue\<close>; an object of any other class (a Proc, a wrapped native object) is
  \<open>RObj\<close> with its identity. A Ruby Hash is the association list of its entries in insertion
  order: \<open>aset\<close> overwrites in place or appends, \<open>get\<close> and \<open>fetch\<close> look a key up.

  What belongs to magnus, to the Ruby VM or to another crate is not under the repository's
  sources: it is a field of the record \<open>rt\<close>, a parameter of every definition that uses it. The
  conversions (\<open>TryConvert\<close>) are such fields; \<open>core_conversions\<close> states what magnus documents of
  them for the core classes, and \<open>core_rt\<close> is one runtime that has it, on which the witnesses of
  the development evaluate.
\<close>

section \<open>Values and exceptions\<close>

datatype rvalue =
    RNil
  | RBool bool
  | RInt int
  | RStr bytes
  | RSym string
  | RArr "rvalue list"
  | RHash "(rvalue \<times> rvalue) list"
  | RObj nat

type_synonym rhash = "(rvalue \<times> rvalue) list"

datatype exc_class =
    RuntimeError | ArgumentError | TypeError | KeyError | IOError | StandardError
  | Fatal
  | ProcessAbort
  | ConfiumClass string
  | NestedClass "string list"

datatype exn = Exn (exn_class: exc_class) (exn_msg: string) (exn_details: rhash)

type_synonym 'a res = "exn + 'a"

abbreviation rstr :: "string \<Rightarrow> rvalue" where
  "rstr s \<equiv> RStr (utf8 s)"

abbreviation is_nil :: "rvalue \<Rightarrow> bool" where
  "is_nil v \<equiv> v = RNil"

section \<open>Ruby hashes\<close>

definition hash_aset :: "rvalue \<Rightarrow> rvalue \<Rightarrow> rhash \<Rightarrow> rhash" where
  "hash_aset k v h = AList.update k v h"

definition hash_get :: "rhash \<Rightarrow> string \<Rightarrow> rvalue option" where
  "hash_get h k = map_of h (rstr k)"

definition key_error :: "string \<Rightarrow> exn" where
  "key_error k = Exn KeyError (''key not found: '' @ [CHR 0x22] @ k @ [CHR 0x22]) []"

definition hash_fetch :: "rhash \<Rightarrow> string \<Rightarrow> rvalue res" where
  "hash_fetch h k = ok_or (key_error k) (hash_get h k)"

definition opt_aset :: "string \<Rightarrow> rvalue option \<Rightarrow> rhash \<Rightarrow> rhash" where
  "opt_aset k m h = (case m of None \<Rightarrow> h | Some v \<Rightarrow> hash_aset (rstr k) v h)"

text \<open>A Hash built by setting the keys in order, starting from a new one.\<close>

definition hash_of :: "(string \<times> rvalue) list \<Rightarrow> rhash" where
  "hash_of kvs = fold (\<lambda>(k, v) h. hash_aset (rstr k) v h) kvs []"

section \<open>The virtual machine's state and the runtime\<close>

text \<open>The mutable state native code can observe: the audit module's instance variable, what was
  written to standard error, and the rest of the Ruby world, which only Ruby code changes.\<close>

record 'w vm =
  sink_ivar :: rvalue
  stderr_log :: "string list"
  world :: 'w

text \<open>
  \<^item> \<open>ruby_get\<close>: \<open>Ruby::get()\<close>, \<open>None\<close> when a handle is available, else the error's text;
  \<^item> \<open>const_module\<close>, \<open>const_exception\<close>: whether the walk of \<open>const_get\<close> along a path ends in a
    module or in an exception class; \<open>const_error\<close>: the text of its exception;
  \<^item> \<open>exc_new_ok\<close>: whether \<open>new(message, details)\<close> on the class returns an exception;
  \<^item> \<open>ivar_failure\<close>, \<open>ivar_set_failure\<close>: the exception of \<open>ivar_get\<close> or \<open>ivar_set\<close>, if it raises;
  \<^item> \<open>funcall\<close>: \<open>receiver.method(args)\<close>, Ruby code that may change the state or raise;
  \<^item> \<open>utc_now\<close>: \<open>chrono::Utc::now().to_rfc3339()\<close> in a state;
  \<^item> \<open>exn_display\<close>, \<open>exn_debug\<close>: \<open>{}\<close> and \<open>{:?}\<close> of a magnus \<open>Error\<close>;
  \<^item> \<open>conv_\<close>\<^emph>\<open>t\<close>: \<open>T::try_convert\<close> for the types the sources use;
  \<^item> \<open>sha256\<close>, \<open>hex_encode\<close>, \<open>ct_eq\<close>: the crates sha2, hex and subtle.
\<close>

record 'w rt =
  ruby_get :: "string option"
  const_module :: "string list \<Rightarrow> bool"
  const_exception :: "string list \<Rightarrow> bool"
  const_error :: "string list \<Rightarrow> string"
  exc_new_ok :: "exc_class \<Rightarrow> string \<Rightarrow> rhash \<Rightarrow> bool"
  ivar_failure :: "exn option"
  ivar_set_failure :: "exn option"
  funcall :: "rvalue \<Rightarrow> string \<Rightarrow> rvalue list \<Rightarrow> 'w vm \<Rightarrow> rvalue res \<times> 'w vm"
  utc_now :: "'w vm \<Rightarrow> string"
  exn_display :: "exn \<Rightarrow> string"
  exn_debug :: "exn \<Rightarrow> string"
  conv_rstring :: "rvalue \<Rightarrow> bytes res"
  conv_i64s :: "rvalue \<Rightarrow> i64 list res"
  conv_array :: "rvalue \<Rightarrow> rvalue list res"
  conv_hash :: "rvalue \<Rightarrow> rhash res"
  conv_string :: "rvalue \<Rightarrow> string res"
  conv_strings :: "rvalue \<Rightarrow> string list res"
  conv_bool :: "rvalue \<Rightarrow> bool res"
  conv_u8 :: "rvalue \<Rightarrow> u8 res"
  conv_u32 :: "rvalue \<Rightarrow> u32 res"
  conv_usize :: "rvalue \<Rightarrow> nat res"
  sha256 :: "bytes \<Rightarrow> bytes"
  hex_encode :: "bytes \<Rightarrow> string"
  ct_eq :: "bytes \<Rightarrow> bytes \<Rightarrow> bool"

text \<open>\<open>Ruby::get().map_err(|e| runtime(e.to_string()))?\<close> followed by the rest.\<close>

definition with_ruby :: "'w rt \<Rightarrow> 'a res \<Rightarrow> 'a res" where
  "with_ruby H r = (case ruby_get H of None \<Rightarrow> r | Some e \<Rightarrow> Inl (Exn RuntimeError e []))"

text \<open>\<open>Ruby::get().expect("Ruby must be available")\<close>: without a handle it panics, which magnus turns
  into a fatal exception.\<close>

definition expect_ruby :: "'w rt \<Rightarrow> 'a res \<Rightarrow> 'a res" where
  "expect_ruby H r =
     (case ruby_get H of None \<Rightarrow> r | Some e \<Rightarrow> Inl (Exn Fatal (''Ruby must be available: '' @ e) []))"

lemma expect_ruby_get [simp]: "ruby_get H = None \<Longrightarrow> expect_ruby H r = r"
  by (simp add: expect_ruby_def)

definition ivar_get :: "'w rt \<Rightarrow> 'w vm \<Rightarrow> rvalue res" where
  "ivar_get H s = (case ivar_failure H of None \<Rightarrow> Inr (sink_ivar s) | Some e \<Rightarrow> Inl e)"

section \<open>What magnus documents of its conversions\<close>

text \<open>Texts of ASCII characters are valid UTF-8 and convert to Rust strings as they are.\<close>

definition ascii :: "string \<Rightarrow> bool" where
  "ascii s \<longleftrightarrow> list_all (\<lambda>c. of_char c < (128::nat)) s"

definition core_conversions :: "'w rt \<Rightarrow> bool" where
  "core_conversions H \<longleftrightarrow>
     (\<forall>b. conv_rstring H (RStr b) = Inr b) \<and>
     (\<forall>xs. \<exists>e. conv_rstring H (RArr xs) = Inl e) \<and>
     (\<forall>xs. conv_array H (RArr xs) = Inr xs) \<and>
     (\<forall>h. conv_hash H (RHash h) = Inr h) \<and>
     (\<forall>s. ascii s \<longrightarrow> conv_string H (rstr s) = Inr s) \<and>
     (\<forall>ss. list_all ascii ss \<longrightarrow> conv_strings H (RArr (map rstr ss)) = Inr ss) \<and>
     (\<forall>b. conv_bool H (RBool b) = Inr b) \<and>
     (\<forall>w. conv_u8 H (RInt (uint w)) = Inr w) \<and>
     (\<forall>w. conv_u32 H (RInt (uint w)) = Inr w) \<and>
     (\<forall>n. n < 2 ^ 64 \<longrightarrow> conv_usize H (RInt (int n)) = Inr n) \<and>
     (\<forall>xs. conv_i64s H (RArr (map (\<lambda>i. RInt (sint i)) xs)) = Inr xs)"

lemma core_conversionsD [host_simps]:
  assumes "core_conversions H"
  shows "conv_rstring H (RStr b) = Inr b"
    and "conv_array H (RArr xs) = Inr xs"
    and "conv_hash H (RHash h) = Inr h"
    and "ascii s \<Longrightarrow> conv_string H (rstr s) = Inr s"
    and "conv_bool H (RBool p) = Inr p"
    and "conv_u8 H (RInt (uint w8)) = Inr w8"
    and "conv_u32 H (RInt (uint w32)) = Inr w32"
    and "n < 2 ^ 64 \<Longrightarrow> conv_usize H (RInt (int n)) = Inr n"
    and "conv_i64s H (RArr (map (\<lambda>i. RInt (sint i)) ws)) = Inr ws"
    and "list_all ascii ss \<Longrightarrow> conv_strings H (RArr (map rstr ss)) = Inr ss"
  using assms by (simp_all add: core_conversions_def)

lemma core_conversions_array_not_string:
  assumes "core_conversions H"
  obtains e where "conv_rstring H (RArr xs) = Inl e"
proof -
  from assms have "\<exists>e. conv_rstring H (RArr xs) = Inl e"
    by (simp add: core_conversions_def)
  then show thesis using that by blast
qed

section \<open>Hash lookups\<close>

lemma map_of_aset [host_simps]: "map_of (hash_aset k v h) = (map_of h)(k \<mapsto> v)"
  by (simp add: hash_aset_def update_conv')

lemma hash_get_aset [simp, host_simps]:
  "hash_get (hash_aset (rstr k) v h) k' = (if k' = k then Some v else hash_get h k')"
  by (simp add: hash_get_def map_of_aset)

lemma hash_get_Nil [simp, host_simps]: "hash_get [] k = None"
  by (simp add: hash_get_def)

lemma hash_get_opt_aset [simp, host_simps]:
  "hash_get (opt_aset k m h) k' = (if k' = k \<and> m \<noteq> None then m else hash_get h k')"
  by (cases m) (auto simp: opt_aset_def)

lemma hash_fetch_eq [host_simps]: "hash_get h k = Some v \<Longrightarrow> hash_fetch h k = Inr v"
  by (simp add: hash_fetch_def)

lemma hash_get_fold_aset:
  "hash_get (fold (\<lambda>(k, v) h. hash_aset (rstr k) v h) kvs h) k =
     (case map_of (rev kvs) k of Some v \<Rightarrow> Some v | None \<Rightarrow> hash_get h k)"
  by (induction kvs arbitrary: h) (auto simp: map_add_def split: option.splits)

lemma hash_get_hash_of: "hash_get (hash_of kvs) k = map_of (rev kvs) k"
  by (simp add: hash_of_def hash_get_fold_aset split: option.split)

lemma map_of_distinct_rev: "distinct (map fst kvs) \<Longrightarrow> map_of (rev kvs) = map_of kvs"
  by (metis distinct_rev map_of_inject_set rev_map set_rev)

lemma hash_get_hash_of_distinct:
  "distinct (map fst kvs) \<Longrightarrow> hash_get (hash_of kvs) k = map_of kvs k"
  by (simp add: hash_get_hash_of map_of_distinct_rev)

lemma distinct_aset: "distinct (map fst h) \<Longrightarrow> distinct (map fst (hash_aset k v h))"
  by (simp add: hash_aset_def distinct_update)

lemma distinct_hash_of: "distinct (map fst (hash_of kvs))"
proof -
  have "distinct (map fst h) \<Longrightarrow>
      distinct (map fst (fold (\<lambda>(k, v) h. hash_aset (rstr k) v h) kvs h))" for h
    by (induction kvs arbitrary: h) (auto simp: distinct_aset)
  then show ?thesis by (simp add: hash_of_def)
qed

section \<open>A runtime with the core conversions\<close>

definition type_error :: "exn" where
  "type_error = Exn TypeError ''no implicit conversion'' []"

fun int_elems :: "rvalue list \<Rightarrow> i64 list res" where
  "int_elems [] = Inr []"
| "int_elems (RInt i # vs) =
     (if - (2 ^ 63) \<le> i \<and> i < 2 ^ 63
      then and_then (int_elems vs) (\<lambda>ws. Inr (word_of_int i # ws)) else Inl type_error)"
| "int_elems (v # vs) = Inl type_error"

fun str_elems :: "rvalue list \<Rightarrow> string list res" where
  "str_elems [] = Inr []"
| "str_elems (RStr b # vs) = and_then (str_elems vs) (\<lambda>ss. Inr (text_of b # ss))"
| "str_elems (v # vs) = Inl type_error"

definition core_rt :: "(bytes \<Rightarrow> bytes) \<Rightarrow> 'w rt" where
  "core_rt sha =
     \<lparr>ruby_get = None,
      const_module = (\<lambda>p. True),
      const_exception = (\<lambda>p. True),
      const_error = (\<lambda>p. ''uninitialized constant''),
      exc_new_ok = (\<lambda>c m d. True),
      ivar_failure = None,
      ivar_set_failure = None,
      funcall = (\<lambda>r m as s. (Inr RNil, s)),
      utc_now = (\<lambda>s. ''1970-01-01T00:00:00+00:00''),
      exn_display = exn_msg,
      exn_debug = exn_msg,
      conv_rstring = (\<lambda>v. case v of RStr b \<Rightarrow> Inr b | _ \<Rightarrow> Inl type_error),
      conv_i64s = (\<lambda>v. case v of RArr vs \<Rightarrow> int_elems vs | _ \<Rightarrow> Inl type_error),
      conv_array = (\<lambda>v. case v of RArr vs \<Rightarrow> Inr vs | _ \<Rightarrow> Inl type_error),
      conv_hash = (\<lambda>v. case v of RHash h \<Rightarrow> Inr h | _ \<Rightarrow> Inl type_error),
      conv_string = (\<lambda>v. case v of RStr b \<Rightarrow> Inr (text_of b) | _ \<Rightarrow> Inl type_error),
      conv_strings = (\<lambda>v. case v of RArr vs \<Rightarrow> str_elems vs | _ \<Rightarrow> Inl type_error),
      conv_bool = (\<lambda>v. case v of RNil \<Rightarrow> Inr False | RBool b \<Rightarrow> Inr b | _ \<Rightarrow> Inr True),
      conv_u8 = (\<lambda>v. case v of RInt i \<Rightarrow> if 0 \<le> i \<and> i < 2 ^ 8 then Inr (word_of_int i) else Inl type_error | _ \<Rightarrow> Inl type_error),
      conv_u32 = (\<lambda>v. case v of RInt i \<Rightarrow> if 0 \<le> i \<and> i < 2 ^ 32 then Inr (word_of_int i) else Inl type_error | _ \<Rightarrow> Inl type_error),
      conv_usize = (\<lambda>v. case v of RInt i \<Rightarrow> if 0 \<le> i \<and> i < 2 ^ 64 then Inr (nat i) else Inl type_error | _ \<Rightarrow> Inl type_error),
      sha256 = sha,
      hex_encode = (\<lambda>b. concat (map hex_byte b)),
      ct_eq = (\<lambda>a b. a = b)\<rparr>"

lemma core_rt_ruby [simp]: "ruby_get (core_rt sha) = None"
  by (simp add: core_rt_def)

lemma int_elems_sint: "int_elems (map (\<lambda>i. RInt (sint i)) ws) = Inr ws"
proof (induction ws)
  case Nil
  then show ?case by simp
next
  case (Cons w ws)
  have "- (2 ^ 63) \<le> sint w \<and> sint w < 2 ^ 63"
    using sint_greater_eq [of w] sint_less [of w] by simp
  with Cons show ?case by simp
qed

lemma str_elems_rstr: "str_elems (map rstr ss) = Inr ss"
  by (induction ss) simp_all

lemma core_rt_conversions: "core_conversions (core_rt sha)"
proof -
  have u8: "0 \<le> uint w \<and> uint w < 2 ^ 8" for w :: u8
    using uint_lt2p [of w] by simp
  have u32: "0 \<le> uint w \<and> uint w < 2 ^ 32" for w :: u32
    using uint_lt2p [of w] by simp
  show ?thesis
    using u8 u32 by (simp add: core_conversions_def core_rt_def int_elems_sint str_elems_rstr)
qed

section \<open>Rust strings\<close>

text \<open>A Rust \<open>String\<close> is a sequence of bytes that is well-formed UTF-8 (the table of RFC 3629), which the type
  guarantees of every value. magnus converts a Ruby string back to a \<open>String\<close> whenever it is: \<open>utf8_strings\<close>.\<close>

definition continuation :: "nat \<Rightarrow> bool" where
  "continuation b \<longleftrightarrow> 0x80 \<le> b \<and> b \<le> 0xBF"

fun well_formed_utf8 :: "nat list \<Rightarrow> bool" where
  "well_formed_utf8 [] = True"
| "well_formed_utf8 (a # bs) =
     (if a \<le> 0x7F then well_formed_utf8 bs
      else if 0xC2 \<le> a \<and> a \<le> 0xDF then
        (case bs of b # cs \<Rightarrow> continuation b \<and> well_formed_utf8 cs | _ \<Rightarrow> False)
      else if 0xE0 \<le> a \<and> a \<le> 0xEF then
        (case bs of b # c # cs \<Rightarrow>
           continuation b \<and> continuation c \<and> (a = 0xE0 \<longrightarrow> 0xA0 \<le> b) \<and> (a = 0xED \<longrightarrow> b \<le> 0x9F) \<and> well_formed_utf8 cs
         | _ \<Rightarrow> False)
      else if 0xF0 \<le> a \<and> a \<le> 0xF4 then
        (case bs of b # c # d # cs \<Rightarrow>
           continuation b \<and> continuation c \<and> continuation d \<and> (a = 0xF0 \<longrightarrow> 0x90 \<le> b) \<and> (a = 0xF4 \<longrightarrow> b \<le> 0x8F) \<and>
           well_formed_utf8 cs
         | _ \<Rightarrow> False)
      else False)"

definition rust_string :: "string \<Rightarrow> bool" where
  "rust_string s = well_formed_utf8 (map of_char s)"

lemma ascii_rust_string: "ascii s \<Longrightarrow> rust_string s"
  unfolding rust_string_def ascii_def by (induction s) auto

definition utf8_strings :: "'w rt \<Rightarrow> bool" where
  "utf8_strings H \<longleftrightarrow> (\<forall>s. rust_string s \<longrightarrow> conv_string H (rstr s) = Inr s)"

lemma core_rt_utf8_strings: "utf8_strings (core_rt sha)"
  by (simp add: utf8_strings_def core_rt_def)

end
