(* ===== verification/Util.thy ===== *)
theory Util
  imports Ruby_Host
begin

text \<open>
  \<^verbatim>\<open>ext/confium_native/src/util.rs\<close>: the byte-input boundary with its 1 MiB cap, and the builders of
  typed Ruby errors. Two interfaces are stated as locales: \<open>byte_input\<close> (what every caller of the
  byte boundary may rely on) and \<open>error_builder\<close> (what every raise site may rely on: the message
  survives, whatever class the host could resolve). Both are interpreted on the definitions here.
\<close>

section \<open>Definitions\<close>

definition MAX_INPUT_SIZE :: nat where
  "MAX_INPUT_SIZE = 2 ^ 20"

definition runtime :: "'w rt \<Rightarrow> string \<Rightarrow> exn" where
  "runtime H msg =
     (case ruby_get H of None \<Rightarrow> Exn RuntimeError msg [] | Some _ \<Rightarrow> Exn RuntimeError msg [])"

definition arg_error :: "'w rt \<Rightarrow> string \<Rightarrow> exn" where
  "arg_error H msg =
     (case ruby_get H of None \<Rightarrow> Exn ArgumentError msg [] | Some _ \<Rightarrow> Exn ArgumentError msg [])"

definition enforce_size :: "'w rt \<Rightarrow> nat \<Rightarrow> unit res" where
  "enforce_size H len =
     (if len > MAX_INPUT_SIZE
      then Inl (arg_error H (''input size '' @ show_nat len @ '' exceeds max '' @ show_nat MAX_INPUT_SIZE))
      else Inr ())"

text \<open>The closure of the array branch: a signed 64-bit element in \<open>0..=255\<close> is cast to a byte.\<close>

definition byte_of_i64 :: "'w rt \<Rightarrow> i64 \<Rightarrow> u8 res" where
  "byte_of_i64 H i =
     (if \<not> (0 \<le> sint i \<and> sint i \<le> 255)
      then Inl (arg_error H (''byte out of range 0..255: '' @ show_int (sint i)))
      else Inr (ucast i))"

definition bytes_from_value :: "'w rt \<Rightarrow> rvalue \<Rightarrow> bytes res" where
  "bytes_from_value H v =
     (case conv_rstring H v of
        Inr bs \<Rightarrow> and_then (enforce_size H (length bs)) (\<lambda>_. Inr bs)
      | Inl _ \<Rightarrow>
          and_then (conv_i64s H v) (\<lambda>arr.
          and_then (enforce_size H (length arr)) (\<lambda>_.
          collect (byte_of_i64 H) arr)))"

text \<open>The guard every 32-byte argument goes through after \<open>bytes_from_value\<close>; \<open>what\<close> is the
  beginning of the message, which differs from site to site.\<close>

definition check32 :: "'w rt \<Rightarrow> string \<Rightarrow> bytes \<Rightarrow> bytes res" where
  "check32 H what b =
     (if length b \<noteq> 32 then Inl (arg_error H (what @ '' bytes, got '' @ show_nat (length b)))
      else Inr b)"

definition exact32 :: "'w rt \<Rightarrow> string \<Rightarrow> rvalue \<Rightarrow> bytes res" where
  "exact32 H what v = and_then (bytes_from_value H v) (check32 H what)"

definition bytes_to_rstring :: "bytes \<Rightarrow> rvalue" where
  "bytes_to_rstring bs = RStr ([] @ bs)"

definition resolve_confium_subclass :: "'w rt \<Rightarrow> string \<Rightarrow> exc_class" where
  "resolve_confium_subclass H subclass =
     (if \<not> const_module H [''Confium''] then RuntimeError
      else if const_exception H [''Confium'', subclass] then ConfiumClass subclass
      else if const_exception H [''Confium'', ''Error''] then ConfiumClass ''Error''
      else RuntimeError)"

definition new_details :: rhash where
  "new_details = []"

definition confium_error :: "'w rt \<Rightarrow> string \<Rightarrow> string \<Rightarrow> rhash \<Rightarrow> exn" where
  "confium_error H message subclass details =
     (case ruby_get H of
        Some _ \<Rightarrow> Exn RuntimeError message []
      | None \<Rightarrow>
          (let cls = resolve_confium_subclass H subclass in
           if exc_new_ok H cls message details then Exn cls message details
           else Exn RuntimeError message []))"

definition parse_error :: "'w rt \<Rightarrow> string \<Rightarrow> string \<Rightarrow> string option \<Rightarrow> nat option \<Rightarrow> exn" where
  "parse_error H msg operation fmt offset =
     (case ruby_get H of
        Some _ \<Rightarrow> Exn RuntimeError msg []
      | None \<Rightarrow>
          (let d = new_details;
               d = hash_aset (rstr ''operation'') (rstr operation) d;
               d = hash_aset (rstr ''component'') (rstr ''Confium'') d;
               d = opt_aset ''format'' (map_option rstr fmt) d;
               d = opt_aset ''offset'' (map_option (\<lambda>o'. RInt (int o')) offset) d
           in confium_error H msg ''ParseError'' d))"

definition index_error :: "'w rt \<Rightarrow> string \<Rightarrow> string \<Rightarrow> u64 option \<Rightarrow> exn" where
  "index_error H msg operation index =
     (case ruby_get H of
        Some _ \<Rightarrow> Exn RuntimeError msg []
      | None \<Rightarrow>
          (let d = new_details;
               d = hash_aset (rstr ''operation'') (rstr operation) d;
               d = hash_aset (rstr ''component'') (rstr ''Confium'') d;
               d = opt_aset ''index'' (map_option (\<lambda>i. RInt (uint i)) index) d
           in confium_error H msg ''IndexError'' d))"

definition validation_error :: "'w rt \<Rightarrow> string \<Rightarrow> string \<Rightarrow> string \<Rightarrow> string \<Rightarrow> string \<Rightarrow> exn" where
  "validation_error H msg operation param expected actual =
     (case ruby_get H of
        Some _ \<Rightarrow> Exn RuntimeError msg []
      | None \<Rightarrow>
          (let d = new_details;
               d = hash_aset (rstr ''operation'') (rstr operation) d;
               d = hash_aset (rstr ''param'') (rstr param) d;
               d = hash_aset (rstr ''expected'') (rstr expected) d;
               d = hash_aset (rstr ''actual'') (rstr actual) d
           in confium_error H msg ''ValidationError'' d))"

definition verification_error :: "'w rt \<Rightarrow> string \<Rightarrow> string \<Rightarrow> nat option \<Rightarrow> string option \<Rightarrow> exn" where
  "verification_error H msg operation signer_index algorithm =
     (case ruby_get H of
        Some _ \<Rightarrow> Exn RuntimeError msg []
      | None \<Rightarrow>
          (let d = new_details;
               d = hash_aset (rstr ''operation'') (rstr operation) d;
               d = opt_aset ''signer_index'' (map_option (\<lambda>i. RInt (int i)) signer_index) d;
               d = opt_aset ''algorithm'' (map_option rstr algorithm) d
           in confium_error H msg ''VerificationError'' d))"

definition crypto_error :: "'w rt \<Rightarrow> string \<Rightarrow> string \<Rightarrow> string \<Rightarrow> exn" where
  "crypto_error H msg operation primitive =
     (case ruby_get H of
        Some _ \<Rightarrow> Exn RuntimeError msg []
      | None \<Rightarrow>
          (let d = new_details;
               d = hash_aset (rstr ''operation'') (rstr operation) d;
               d = hash_aset (rstr ''primitive'') (rstr primitive) d
           in confium_error H msg ''CryptoError'' d))"

definition threshold_error :: "'w rt \<Rightarrow> string \<Rightarrow> string \<Rightarrow> nat \<Rightarrow> nat \<Rightarrow> exn" where
  "threshold_error H msg operation have_n need_n =
     (case ruby_get H of
        Some _ \<Rightarrow> Exn RuntimeError msg []
      | None \<Rightarrow>
          (let d = new_details;
               d = hash_aset (rstr ''operation'') (rstr operation) d;
               d = hash_aset (rstr ''have_count'') (RInt (int have_n)) d;
               d = hash_aset (rstr ''need_count'') (RInt (int need_n)) d
           in confium_error H msg ''ThresholdError'' d))"

section \<open>Plain errors\<close>

lemma runtime_eq [simp]: "runtime H msg = Exn RuntimeError msg []"
  by (simp add: runtime_def split: option.split)

lemma arg_error_eq [simp]: "arg_error H msg = Exn ArgumentError msg []"
  by (simp add: arg_error_def split: option.split)

lemma with_ruby_eq: "with_ruby H r = (case ruby_get H of None \<Rightarrow> r | Some e \<Rightarrow> Inl (runtime H e))"
  by (simp add: with_ruby_def split: option.split)

lemma with_ruby_eq_Inr [simp]: "with_ruby H r = Inr x \<longleftrightarrow> ruby_get H = None \<and> r = Inr x"
  by (auto simp: with_ruby_def split: option.split)

section \<open>The byte-input boundary\<close>

lemma enforce_size_Inr [simp]: "enforce_size H n = Inr u \<longleftrightarrow> n \<le> MAX_INPUT_SIZE"
  by (simp add: enforce_size_def)

lemma enforce_size_ok: "n \<le> MAX_INPUT_SIZE \<Longrightarrow> enforce_size H n = Inr ()"
  by simp

lemma enforce_size_Inl: "enforce_size H n = Inl e \<Longrightarrow> MAX_INPUT_SIZE < n \<and> exn_class e = ArgumentError"
  by (auto simp: enforce_size_def split: if_splits)

lemma uint_ucast_byte: "0 \<le> sint i \<Longrightarrow> sint i \<le> 255 \<Longrightarrow> uint (ucast (i :: i64) :: u8) = sint i"
proof -
  assume "0 \<le> sint i" "sint i \<le> 255"
  then have "uint i = sint i" by (simp add: uint_sint [of i] take_bit_eq_mod)
  with \<open>sint i \<le> 255\<close> \<open>0 \<le> sint i\<close> show ?thesis
    by (simp add: unsigned_ucast_eq take_bit_eq_mod)
qed

lemma byte_of_i64_Inr:
  "byte_of_i64 H i = Inr b \<longleftrightarrow> 0 \<le> sint i \<and> sint i \<le> 255 \<and> uint b = sint i"
proof -
  have "ucast i = b \<longleftrightarrow> uint b = sint i" if "0 \<le> sint i" "sint i \<le> 255"
    using uint_ucast_byte [OF that] by (auto simp: word_uint_eq_iff)
  then show ?thesis by (auto simp: byte_of_i64_def)
qed

lemma byte_of_i64_Inl:
  "byte_of_i64 H i = Inl e \<Longrightarrow> exn_class e = ArgumentError \<and> (sint i < 0 \<or> 255 < sint i)"
  by (auto simp: byte_of_i64_def split: if_splits)

lemma byte_of_i64_byte: "byte_of_i64 H (ucast b) = Inr b" for b :: u8
proof -
  have "uint b < 256" using uint_lt2p [of b] by simp
  then have "sint (ucast b :: i64) = uint b"
    by (simp add: sint_uint unsigned_ucast_eq signed_take_bit_eq_if_positive bit_take_bit_iff
        take_bit_int_eq_self bit_uint_iff)
  with \<open>uint b < 256\<close> show ?thesis by (simp add: byte_of_i64_Inr)
qed

text \<open>The cap holds on both branches: an accepted input has at most \<open>MAX_INPUT_SIZE\<close> bytes.\<close>

lemma bytes_from_value_bounded: "bytes_from_value H v = Inr bs \<Longrightarrow> length bs \<le> MAX_INPUT_SIZE"
  by (auto simp: bytes_from_value_def and_then_eq_Inr collect_length split: sum.splits)

text \<open>The only errors are an \<open>ArgumentError\<close> of its own or the conversion's exception.\<close>

lemma bytes_from_value_error:
  assumes "bytes_from_value H v = Inl e"
  shows "exn_class e = ArgumentError \<or> conv_i64s H v = Inl e"
  using assms
  by (auto simp: bytes_from_value_def and_then_eq_Inl split: sum.splits
      dest!: enforce_size_Inl collect_first_error dest: byte_of_i64_Inl)

lemma bytes_from_value_str:
  assumes "core_conversions H" "length b \<le> MAX_INPUT_SIZE"
  shows "bytes_from_value H (RStr b) = Inr b"
  using assms by (simp add: bytes_from_value_def core_conversionsD enforce_size_ok)

lemma bytes_from_value_rstring:
  assumes "core_conversions H" "length b \<le> MAX_INPUT_SIZE"
  shows "bytes_from_value H (bytes_to_rstring b) = Inr b"
  using bytes_from_value_str [OF assms] by (simp add: bytes_to_rstring_def)

text \<open>The array of its bytes is an input of the same meaning as the string, too large ones
  included: the same bytes, or the same error.\<close>

lemma bytes_from_value_array:
  assumes "core_conversions H"
  shows "bytes_from_value H (RArr (map (\<lambda>i. RInt (sint i)) ws)) =
    and_then (enforce_size H (length ws)) (\<lambda>_. collect (byte_of_i64 H) ws)"
proof -
  obtain e where "conv_rstring H (RArr (map (\<lambda>i. RInt (sint i)) ws)) = Inl e"
    using assms by (rule core_conversions_array_not_string)
  with assms show ?thesis by (simp add: bytes_from_value_def core_conversionsD)
qed

lemma sint_ucast_byte: "sint (ucast b :: i64) = uint b" for b :: u8
proof -
  have "uint b < 256" using uint_lt2p [of b] by simp
  then show ?thesis
    by (simp add: sint_uint unsigned_ucast_eq signed_take_bit_eq_if_positive bit_take_bit_iff
        take_bit_int_eq_self bit_uint_iff)
qed

lemma bytes_from_value_byte_array:
  assumes "core_conversions H"
  shows "bytes_from_value H (RArr (map (\<lambda>b. RInt (uint b)) bs)) = bytes_from_value H (RStr bs)"
proof -
  have arr: "RArr (map (\<lambda>b. RInt (uint b)) bs) = RArr (map (\<lambda>i. RInt (sint i)) (map ucast bs :: i64 list))"
    by (simp add: sint_ucast_byte)
  have all: "collect (byte_of_i64 H) (map ucast bs) = Inr bs"
    by (simp add: collect_map byte_of_i64_byte collect_all_Inr [where g = id])
  have "bytes_from_value H (RStr bs) = and_then (enforce_size H (length bs)) (\<lambda>_. Inr bs)"
    using assms by (simp add: bytes_from_value_def core_conversionsD)
  then show ?thesis
    unfolding arr bytes_from_value_array [OF assms] all by simp
qed

lemma check32_Inr [simp]: "check32 H what b = Inr c \<longleftrightarrow> length b = 32 \<and> c = b"
  by (auto simp: check32_def)

lemma exact32_Inr: "exact32 H what v = Inr b \<longleftrightarrow> bytes_from_value H v = Inr b \<and> length b = 32"
  by (auto simp: exact32_def and_then_eq_Inr)

lemma exact32_str: "core_conversions H \<Longrightarrow> length b = 32 \<Longrightarrow> exact32 H what (RStr b) = Inr b"
  by (simp add: exact32_Inr bytes_from_value_str MAX_INPUT_SIZE_def)

lemma exact32_wrong_length:
  assumes "core_conversions H" "length b \<le> MAX_INPUT_SIZE" "length b \<noteq> 32"
  shows "exact32 H what (RStr b) =
    Inl (Exn ArgumentError (what @ '' bytes, got '' @ show_nat (length b)) [])"
  using assms by (simp add: exact32_def bytes_from_value_str check32_def)

subsection \<open>The contract of the boundary\<close>

text \<open>What a component that reads byte arguments relies on.\<close>

locale byte_input =
  fixes read :: "rvalue \<Rightarrow> bytes res" and cap :: nat
  assumes bounded: "read v = Inr b \<Longrightarrow> length b \<le> cap"
begin

lemma each_bounded: "collect read vs = Inr bss \<Longrightarrow> b \<in> set bss \<Longrightarrow> length b \<le> cap"
  by (auto simp: collect_Inr_iff list_all2_conv_all_nth in_set_conv_nth intro: bounded)

lemma total_bounded: "collect read vs = Inr bss \<Longrightarrow> sum_list (map length bss) \<le> length vs * cap"
proof (induction vs arbitrary: bss)
  case Nil
  then show ?case by simp
next
  case (Cons v vs)
  then obtain b bs where "read v = Inr b" "collect read vs = Inr bs" "bss = b # bs"
    by (auto simp: and_then_eq_Inr)
  with Cons.IH [of bs] bounded [of v b] show ?case by simp
qed

end

interpretation input: byte_input "bytes_from_value H" MAX_INPUT_SIZE for H
  by unfold_locales (rule bytes_from_value_bounded)

section \<open>Typed errors\<close>

lemma resolve_confium_subclass_cases:
  "resolve_confium_subclass H sub \<in> {RuntimeError, ConfiumClass sub, ConfiumClass ''Error''}"
  by (simp add: resolve_confium_subclass_def)

lemma confium_error_msg [simp]: "exn_msg (confium_error H msg sub d) = msg"
  by (simp add: confium_error_def Let_def split: option.split)

lemma confium_error_class:
  "exn_class (confium_error H msg sub d) \<in> {RuntimeError, ConfiumClass sub, ConfiumClass ''Error''}"
  using resolve_confium_subclass_cases [of H sub]
  by (auto simp: confium_error_def Let_def split: option.split)

text \<open>What a raise site relies on: the typed class when the host has it, and the message in
  every case.\<close>

definition host_has :: "'w rt \<Rightarrow> string \<Rightarrow> bool" where
  "host_has H sub \<longleftrightarrow>
     ruby_get H = None \<and> const_module H [''Confium''] \<and> const_exception H [''Confium'', sub] \<and>
     (\<forall>m d. exc_new_ok H (ConfiumClass sub) m d)"

locale error_builder =
  fixes H :: "'w rt" and build :: "string \<Rightarrow> exn" and sub :: string and details :: rhash
  assumes build_eq: "build msg =
    (case ruby_get H of Some _ \<Rightarrow> Exn RuntimeError msg [] | None \<Rightarrow> confium_error H msg sub details)"
begin

lemma message: "exn_msg (build msg) = msg"
  by (simp add: build_eq split: option.split)

lemma class_fallback: "exn_class (build msg) \<in> {RuntimeError, ConfiumClass sub, ConfiumClass ''Error''}"
  using confium_error_class [of H msg sub details] by (simp add: build_eq split: option.split)

lemma typed: "host_has H sub \<Longrightarrow> build msg = Exn (ConfiumClass sub) msg details"
  by (simp add: build_eq host_has_def confium_error_def resolve_confium_subclass_def Let_def)

end

lemmas error_defs = parse_error_def index_error_def validation_error_def verification_error_def
  crypto_error_def threshold_error_def

interpretation parse_err: error_builder H "\<lambda>m. parse_error H m oper fmt off" "''ParseError''"
    "opt_aset ''offset'' (map_option (\<lambda>o'. RInt (int o')) off)
       (opt_aset ''format'' (map_option rstr fmt)
          (hash_of [(''operation'', rstr oper), (''component'', rstr ''Confium'')]))"
  for H oper fmt off
  by unfold_locales (simp add: error_defs Let_def hash_of_def new_details_def split: option.split)

interpretation index_err: error_builder H "\<lambda>m. index_error H m oper ix" "''IndexError''"
    "opt_aset ''index'' (map_option (\<lambda>i. RInt (uint i)) ix)
       (hash_of [(''operation'', rstr oper), (''component'', rstr ''Confium'')])"
  for H oper ix
  by unfold_locales (simp add: error_defs Let_def hash_of_def new_details_def split: option.split)

interpretation validation_err: error_builder H "\<lambda>m. validation_error H m oper par ex act" "''ValidationError''"
    "hash_of [(''operation'', rstr oper), (''param'', rstr par), (''expected'', rstr ex),
       (''actual'', rstr act)]"
  for H oper par ex act
  by unfold_locales (simp add: error_defs Let_def hash_of_def new_details_def split: option.split)

interpretation verification_err: error_builder H "\<lambda>m. verification_error H m oper si alg" "''VerificationError''"
    "opt_aset ''algorithm'' (map_option rstr alg)
       (opt_aset ''signer_index'' (map_option (\<lambda>i. RInt (int i)) si)
          (hash_of [(''operation'', rstr oper)]))"
  for H oper si alg
  by unfold_locales (simp add: error_defs Let_def hash_of_def new_details_def split: option.split)

interpretation crypto_err: error_builder H "\<lambda>m. crypto_error H m oper prim" "''CryptoError''"
    "hash_of [(''operation'', rstr oper), (''primitive'', rstr prim)]"
  for H oper prim
  by unfold_locales (simp add: error_defs Let_def hash_of_def new_details_def split: option.split)

interpretation threshold_err: error_builder H "\<lambda>m. threshold_error H m oper hv nd" "''ThresholdError''"
    "hash_of [(''operation'', rstr oper), (''have_count'', RInt (int hv)), (''need_count'', RInt (int nd))]"
  for H oper hv nd
  by unfold_locales (simp add: error_defs Let_def hash_of_def new_details_def split: option.split)

lemma core_rt_host_has: "host_has (core_rt sha) sub"
  by (simp add: host_has_def core_rt_def)

section \<open>The contract of a Hash codec\<close>

text \<open>Several components write a structure into a Ruby Hash that another call, often in another
  process, reads back. \<open>ok\<close> says for which structures the round trip is promised.\<close>

locale hash_codec =
  fixes enc :: "'a \<Rightarrow> 'h" and dec :: "'h \<Rightarrow> 'a res" and ok :: "'a \<Rightarrow> bool"
  assumes round_trip: "ok x \<Longrightarrow> dec (enc x) = Inr x"
begin

lemma enc_inject: "ok x \<Longrightarrow> ok y \<Longrightarrow> enc x = enc y \<longleftrightarrow> x = y"
  by (metis Inr_inject round_trip)

lemma list_round_trip: "\<forall>x \<in> set xs. ok x \<Longrightarrow> collect dec (map enc xs) = Inr xs"
  by (simp add: collect_map round_trip collect_all_Inr [where g = id])

end

lemma with_ruby_get [simp]: "ruby_get H = None \<Longrightarrow> with_ruby H r = r"
  by (simp add: with_ruby_def)

lemma rstring_arg:
  "core_conversions H \<Longrightarrow> length b \<le> MAX_INPUT_SIZE \<Longrightarrow> bytes_from_value H (bytes_to_rstring b) = Inr b"
  by (rule bytes_from_value_rstring)

section \<open>The contract of a text parser\<close>

text \<open>Every entry point that takes a text from Ruby checks its size first, hands it to a crate's parser
  \<open>core\<close> and reports a refusal as a \<open>ParseError\<close> that names the operation and the format.\<close>

locale text_parser =
  fixes H :: "'w rt" and parse :: "string \<Rightarrow> 'a res" and core :: "string \<Rightarrow> string + 'b"
    and render :: "'b \<Rightarrow> 'a" and operation fmt :: string
  assumes oversize: "MAX_INPUT_SIZE < length s \<Longrightarrow>
      parse s = Inl (arg_error H (''input size '' @ show_nat (length s) @ '' exceeds max '' @ show_nat MAX_INPUT_SIZE))"
    and refused: "length s \<le> MAX_INPUT_SIZE \<Longrightarrow> core s = Inl m \<Longrightarrow>
      parse s = Inl (parse_error H m operation (Some fmt) None)"
    and accepted: "length s \<le> MAX_INPUT_SIZE \<Longrightarrow> core s = Inr x \<Longrightarrow> ruby_get H = None \<Longrightarrow>
      parse s = Inr (render x)"
    and only_parsed: "parse s = Inr y \<Longrightarrow> \<exists>x. core s = Inr x \<and> y = render x"
begin

lemma accepted_bounded: "parse s = Inr y \<Longrightarrow> length s \<le> MAX_INPUT_SIZE"
  by (metis oversize Inl_Inr_False not_le)

lemma parsed_iff:
  "ruby_get H = None \<Longrightarrow>
     parse s = Inr y \<longleftrightarrow> length s \<le> MAX_INPUT_SIZE \<and> (\<exists>x. core s = Inr x \<and> y = render x)"
  using accepted_bounded accepted only_parsed by blast

lemma refusal_typed:
  "host_has H ''ParseError'' \<Longrightarrow> length s \<le> MAX_INPUT_SIZE \<Longrightarrow> core s = Inl m \<Longrightarrow>
     parse s = Inl (Exn (ConfiumClass ''ParseError'') m
       (hash_of [(''operation'', rstr operation), (''component'', rstr ''Confium''), (''format'', rstr fmt)]))"
  by (simp add: refused parse_err.typed opt_aset_def hash_of_def)

end

lemma text_parserI:
  fixes H :: "'w rt"
  assumes "\<And>s. parse s = and_then (enforce_size H (length s)) (\<lambda>_.
      and_then (map_err (\<lambda>m. parse_error H m operation (Some fmt) None) (core s)) (\<lambda>x.
      with_ruby H (Inr (render x))))"
  shows "text_parser H parse core render operation fmt"
  by unfold_locales (auto simp: assms enforce_size_def res_iffs split: if_splits)

end
