(* ===== verification/Transparency.thy ===== *)
theory Transparency
  imports Util
begin

text \<open>
  \<^verbatim>\<open>ext/confium_native/src/transparency.rs\<close>: the Merkle log surface. The tree itself belongs to the
  crate confium-transparency and is a parameter (\<open>merkle_api\<close>); the leaf and node hashes, the two
  verifiers that climb a proof to the root, the guards and the error paths are the repository's own.

  The abstract specification is a Merkle tree as a datatype, its root and its audit paths. The
  verifiers are shown complete (an audit path is accepted) and sound: two accepted proofs for one
  position either carry the same leaf and siblings, or \<open>find_collision\<close> computes two different
  inputs with the same SHA-256 digest.
\<close>

section \<open>Definitions\<close>

datatype side = SideLeft | SideRight

record proof_step =
  sibling :: bytes
  side :: side

record inclusion_proof =
  sequence :: u64
  steps :: "proof_step list"

record InclusionProofWrap =
  wrap_inner :: inclusion_proof
  leaf_hash :: bytes

datatype artifact_type = CertificateIssuance

text \<open>The crate's tree: errors are their \<open>to_string()\<close> texts.\<close>

record ('t, 'e) merkle_api =
  tree_new :: 't
  entry_new :: "u64 \<Rightarrow> artifact_type \<Rightarrow> bytes \<Rightarrow> 'e"
  tree_append :: "'t \<Rightarrow> 'e \<Rightarrow> u64 \<times> 't"
  tree_len :: "'t \<Rightarrow> nat"
  tree_is_empty :: "'t \<Rightarrow> bool"
  tree_root :: "'t \<Rightarrow> bytes"
  tree_inclusion_proof :: "'t \<Rightarrow> u64 \<Rightarrow> string + inclusion_proof"
  tree_entry :: "'t \<Rightarrow> u64 \<Rightarrow> string + 'e"
  entry_hash :: "'e \<Rightarrow> bytes"
  tree_consistency_proof :: "'t \<Rightarrow> nat \<Rightarrow> string + bytes list"
  tree_verify_consistency :: "'t \<Rightarrow> bytes \<Rightarrow> bytes \<Rightarrow> nat \<Rightarrow> nat \<Rightarrow> bytes list \<Rightarrow> string + unit"

definition hash_leaf :: "'w rt \<Rightarrow> bytes \<Rightarrow> bytes" where
  "hash_leaf H eh = sha256 H ([0x01] @ eh)"

definition hash_internal :: "'w rt \<Rightarrow> bytes \<Rightarrow> bytes \<Rightarrow> bytes" where
  "hash_internal H left right = sha256 H ([0x02] @ left @ right)"

definition MerkleTree_new :: "('t, 'e) merkle_api \<Rightarrow> 't" where
  "MerkleTree_new M = tree_new M"

definition MerkleTree_append ::
  "'w rt \<Rightarrow> ('t, 'e) merkle_api \<Rightarrow> rvalue \<Rightarrow> 't \<Rightarrow> u64 res \<times> 't" where
  "MerkleTree_append H M artifact_hash t =
     (case exact32 H ''artifact_hash must be exactly 32'' artifact_hash of
        Inl e \<Rightarrow> (Inl e, t)
      | Inr b \<Rightarrow>
          (let (seq, t') = tree_append M t (entry_new M 0 CertificateIssuance b) in (Inr seq, t')))"

definition MerkleTree_len :: "('t, 'e) merkle_api \<Rightarrow> 't \<Rightarrow> nat" where
  "MerkleTree_len M t = tree_len M t"

definition MerkleTree_is_empty :: "('t, 'e) merkle_api \<Rightarrow> 't \<Rightarrow> bool" where
  "MerkleTree_is_empty M t = tree_is_empty M t"

definition MerkleTree_root :: "'w rt \<Rightarrow> ('t, 'e) merkle_api \<Rightarrow> 't \<Rightarrow> rvalue res" where
  "MerkleTree_root H M t = expect_ruby H (Inr (bytes_to_rstring (tree_root M t)))"

definition MerkleTree_inclusion_proof ::
  "'w rt \<Rightarrow> ('t, 'e) merkle_api \<Rightarrow> u64 \<Rightarrow> 't \<Rightarrow> InclusionProofWrap res" where
  "MerkleTree_inclusion_proof H M seq t =
     and_then (map_err (\<lambda>e. index_error H e ''MerkleTree.inclusion_proof'' (Some seq))
                 (tree_inclusion_proof M t seq)) (\<lambda>proof.
     and_then (map_err (\<lambda>e. index_error H e ''MerkleTree.inclusion_proof'' (Some seq))
                 (tree_entry M t seq)) (\<lambda>entry.
     with_ruby H (Inr \<lparr>wrap_inner = proof, leaf_hash = hash_leaf H (entry_hash M entry)\<rparr>)))"

definition MerkleTree_entries ::
  "'w rt \<Rightarrow> ('t, 'e) merkle_api \<Rightarrow> 't \<Rightarrow> InclusionProofWrap list res" where
  "MerkleTree_entries H M t =
     (let len = tree_len M t in
      with_ruby H
        (collect (\<lambda>i. MerkleTree_inclusion_proof H M i t) (map word_of_nat [0 ..< unat (word_of_nat len :: u64)])))"

definition MerkleTree_consistency_proof ::
  "'w rt \<Rightarrow> ('t, 'e) merkle_api \<Rightarrow> nat \<Rightarrow> 't \<Rightarrow> rvalue list res" where
  "MerkleTree_consistency_proof H M old_size t =
     and_then (map_err (\<lambda>e. index_error H e ''MerkleTree.consistency_proof'' (Some (word_of_nat old_size)))
                 (tree_consistency_proof M t old_size)) (\<lambda>proof.
     with_ruby H (Inr (map bytes_to_rstring proof)))"

definition MerkleTree_verify_consistency ::
  "'w rt \<Rightarrow> ('t, 'e) merkle_api \<Rightarrow> rvalue \<Rightarrow> rvalue \<Rightarrow> nat \<Rightarrow> nat \<Rightarrow> rvalue list \<Rightarrow> 't \<Rightarrow> bool res" where
  "MerkleTree_verify_consistency H M old_root new_root old_size new_size proof t =
     and_then (exact32 H ''old_root must be 32'' old_root) (\<lambda>old_root_hash.
     and_then (exact32 H ''new_root must be 32'' new_root) (\<lambda>new_root_hash.
     and_then (collect (exact32 H ''proof entries must be 32'') proof) (\<lambda>proof_hashes.
     map_err (\<lambda>e. verification_error H e ''MerkleTree.verify_consistency'' None None)
       (map_ok (\<lambda>_. True)
          (tree_verify_consistency M t old_root_hash new_root_hash old_size new_size proof_hashes)))))"

definition InclusionProofWrap_sequence :: "InclusionProofWrap \<Rightarrow> u64" where
  "InclusionProofWrap_sequence p = sequence (wrap_inner p)"

definition side_str :: "side \<Rightarrow> string" where
  "side_str d = (case d of SideLeft \<Rightarrow> ''left'' | SideRight \<Rightarrow> ''right'')"

definition step_hash :: "proof_step \<Rightarrow> rvalue" where
  "step_hash st =
     RHash (hash_of [(''sibling'', bytes_to_rstring (sibling st)), (''side'', rstr (side_str (side st)))])"

definition InclusionProofWrap_steps :: "'w rt \<Rightarrow> InclusionProofWrap \<Rightarrow> rvalue res" where
  "InclusionProofWrap_steps H p =
     with_ruby H (Inr (RHash
       (fold (\<lambda>(i, st) h. hash_aset (RInt (int i)) (step_hash st) h)
          (enumerate 0 (steps (wrap_inner p))) [])))"

text \<open>One iteration of the loop of both verifiers, and the loop.\<close>

definition path_step :: "'w rt \<Rightarrow> bytes \<Rightarrow> proof_step \<Rightarrow> bytes" where
  "path_step H current st =
     (case side st of
        SideLeft \<Rightarrow> hash_internal H (sibling st) current
      | SideRight \<Rightarrow> hash_internal H current (sibling st))"

definition path_root :: "'w rt \<Rightarrow> bytes \<Rightarrow> proof_step list \<Rightarrow> bytes" where
  "path_root H current sts = foldl (path_step H) current sts"

definition InclusionProofWrap_verify :: "'w rt \<Rightarrow> InclusionProofWrap \<Rightarrow> rvalue \<Rightarrow> bool res" where
  "InclusionProofWrap_verify H p root_bytes =
     and_then (exact32 H ''root must be exactly 32'' root_bytes) (\<lambda>root.
     Inr (ct_eq H (path_root H (leaf_hash p) (steps (wrap_inner p))) root))"

definition InclusionProofWrap_verify_with_leaf ::
  "'w rt \<Rightarrow> InclusionProofWrap \<Rightarrow> rvalue \<Rightarrow> rvalue \<Rightarrow> bool res" where
  "InclusionProofWrap_verify_with_leaf H p leaf_bytes root_bytes =
     and_then (exact32 H ''leaf_hash must be exactly 32'' leaf_bytes) (\<lambda>leaf.
     and_then (exact32 H ''root must be exactly 32'' root_bytes) (\<lambda>root.
     Inr (ct_eq H (path_root H leaf (steps (wrap_inner p))) root)))"

section \<open>Specification: a Merkle tree and its audit paths\<close>

datatype mtree = MLeaf bytes | MNode mtree mtree

fun mroot :: "'w rt \<Rightarrow> mtree \<Rightarrow> bytes" where
  "mroot H (MLeaf e) = hash_leaf H e"
| "mroot H (MNode l r) = hash_internal H (mroot H l) (mroot H r)"

text \<open>A position is the list of sides its siblings are on, from the root down; the audit path
  lists the siblings from the leaf up.\<close>

fun audit_path :: "'w rt \<Rightarrow> mtree \<Rightarrow> side list \<Rightarrow> (bytes \<times> proof_step list) option" where
  "audit_path H (MLeaf e) [] = Some (e, [])"
| "audit_path H (MNode l r) (SideRight # ds) =
     map_option (\<lambda>(e, st). (e, st @ [\<lparr>sibling = mroot H r, side = SideRight\<rparr>])) (audit_path H l ds)"
| "audit_path H (MNode l r) (SideLeft # ds) =
     map_option (\<lambda>(e, st). (e, st @ [\<lparr>sibling = mroot H l, side = SideLeft\<rparr>])) (audit_path H r ds)"
| "audit_path H _ _ = None"

definition digest32 :: "'w rt \<Rightarrow> bool" where
  "digest32 H \<longleftrightarrow> (\<forall>b. length (sha256 H b) = 32)"

definition ct_eq_correct :: "'w rt \<Rightarrow> bool" where
  "ct_eq_correct H \<longleftrightarrow> (\<forall>a b. ct_eq H a b \<longleftrightarrow> a = b)"

definition wf_steps :: "proof_step list \<Rightarrow> bool" where
  "wf_steps sts \<longleftrightarrow> (\<forall>st \<in> set sts. length (sibling st) = 32)"

text \<open>What is hashed at a node, and the search for a collision, from the root down (the step lists
  are reversed): at each level either the hashed inputs differ, or the search goes one level down.\<close>

definition node_input :: "proof_step \<Rightarrow> bytes \<Rightarrow> bytes" where
  "node_input st current =
     (case side st of
        SideLeft \<Rightarrow> [0x02] @ sibling st @ current
      | SideRight \<Rightarrow> [0x02] @ current @ sibling st)"

fun find_collision ::
  "'w rt \<Rightarrow> bytes \<Rightarrow> proof_step list \<Rightarrow> bytes \<Rightarrow> proof_step list \<Rightarrow> (bytes \<times> bytes) option" where
  "find_collision H e1 [] e2 [] = (if e1 = e2 then None else Some ([0x01] @ e1, [0x01] @ e2))"
| "find_collision H e1 [] e2 (s2 # r2) =
     Some ([0x01] @ e1, node_input s2 (path_root H (hash_leaf H e2) (rev r2)))"
| "find_collision H e1 (s1 # r1) e2 [] =
     Some (node_input s1 (path_root H (hash_leaf H e1) (rev r1)), [0x01] @ e2)"
| "find_collision H e1 (s1 # r1) e2 (s2 # r2) =
     (let x = node_input s1 (path_root H (hash_leaf H e1) (rev r1));
          y = node_input s2 (path_root H (hash_leaf H e2) (rev r2))
      in if x \<noteq> y then Some (x, y) else find_collision H e1 r1 e2 r2)"

text \<open>The two proofs follow the same branches from the root as far as the shorter one goes.\<close>

fun same_branch :: "proof_step list \<Rightarrow> proof_step list \<Rightarrow> bool" where
  "same_branch (s1 # r1) (s2 # r2) \<longleftrightarrow> side s1 = side s2 \<and> same_branch r1 r2"
| "same_branch _ _ \<longleftrightarrow> True"

section \<open>Climbing a path\<close>

lemma path_root_Nil [simp]: "path_root H c [] = c"
  by (simp add: path_root_def)

lemma path_root_snoc [simp]: "path_root H c (sts @ [st]) = path_step H (path_root H c sts) st"
  by (simp add: path_root_def)

lemma path_step_eq: "path_step H c st = sha256 H (node_input st c)"
  by (simp add: path_step_def node_input_def hash_internal_def split: side.split)

lemma length_path_root:
  "digest32 H \<Longrightarrow> length c = 32 \<Longrightarrow> length (path_root H c sts) = 32"
  by (induction sts rule: rev_induct) (auto simp: path_step_eq digest32_def)

lemma length_hash_leaf [simp]: "digest32 H \<Longrightarrow> length (hash_leaf H e) = 32"
  by (simp add: digest32_def hash_leaf_def)

lemma length_mroot: "digest32 H \<Longrightarrow> length (mroot H t) = 32"
  by (cases t) (simp_all add: digest32_def hash_leaf_def hash_internal_def)

lemma audit_path_root:
  "audit_path H t ds = Some (e, sts) \<Longrightarrow> path_root H (hash_leaf H e) sts = mroot H t"
proof (induction H t ds arbitrary: sts rule: audit_path.induct)
  case (2 H l r ds)
  then obtain st where "audit_path H l ds = Some (e, st)"
    "sts = st @ [\<lparr>sibling = mroot H r, side = SideRight\<rparr>]" by auto
  with "2.IH" show ?case by (simp add: path_step_def)
next
  case (3 H l r ds)
  then obtain st where "audit_path H r ds = Some (e, st)"
    "sts = st @ [\<lparr>sibling = mroot H l, side = SideLeft\<rparr>]" by auto
  with "3.IH" show ?case by (simp add: path_step_def)
qed auto

lemma audit_path_sides:
  "audit_path H t ds = Some (e, sts) \<Longrightarrow> map side (rev sts) = ds"
  by (induction H t ds arbitrary: sts rule: audit_path.induct) auto

lemma audit_path_wf:
  "digest32 H \<Longrightarrow> audit_path H t ds = Some (e, sts) \<Longrightarrow> wf_steps sts"
  by (induction H t ds arbitrary: sts rule: audit_path.induct)
    (auto simp: wf_steps_def length_mroot)

lemma same_branch_sides: "map side r1 = map side r2 \<Longrightarrow> same_branch r1 r2"
  by (induction r1 r2 rule: same_branch.induct) auto

section \<open>Collisions\<close>

lemma node_input_inject:
  assumes "side s1 = side s2" "length (sibling s1) = 32" "length (sibling s2) = 32"
    and "length c1 = 32" "length c2 = 32" and "node_input s1 c1 = node_input s2 c2"
  shows "sibling s1 = sibling s2 \<and> c1 = c2"
  using assms by (cases "side s1") (auto simp: node_input_def)

lemma node_input_not_leaf: "[0x01] @ e \<noteq> node_input st c"
  by (simp add: node_input_def split: side.split)

lemma path_root_rev_Cons:
  "path_root H c (rev (st # r)) = sha256 H (node_input st (path_root H c (rev r)))"
  by (simp add: path_step_eq)

text \<open>A pair the search returns is a collision of the digest.\<close>

lemma find_collision_sound:
  assumes "digest32 H" "wf_steps r1" "wf_steps r2" "same_branch r1 r2"
    and "path_root H (hash_leaf H e1) (rev r1) = path_root H (hash_leaf H e2) (rev r2)"
    and "find_collision H e1 r1 e2 r2 = Some (x, y)"
  shows "x \<noteq> y \<and> sha256 H x = sha256 H y"
  using assms
proof (induction H e1 r1 e2 r2 rule: find_collision.induct)
  case (1 H e1 e2)
  then show ?case by (auto simp: hash_leaf_def split: if_splits)
next
  case (2 H e1 e2 s2 r2)
  then show ?case
    by (auto simp: path_step_eq hash_leaf_def node_input_not_leaf [simplified])
next
  case (3 H e1 s1 r1 e2)
  then show ?case
    by (auto simp: path_step_eq hash_leaf_def node_input_not_leaf [simplified, symmetric])
next
  case (4 H e1 s1 r1 e2 s2 r2)
  let ?c1 = "path_root H (hash_leaf H e1) (rev r1)"
  let ?c2 = "path_root H (hash_leaf H e2) (rev r2)"
  show ?case
  proof (cases "node_input s1 ?c1 = node_input s2 ?c2")
    case False
    with "4.prems" show ?thesis
      by (auto simp: path_step_eq Let_def)
  next
    case True
    have "?c1 = ?c2"
      using node_input_inject [of s1 s2 ?c1 ?c2] True "4.prems"
      by (auto simp: wf_steps_def length_path_root)
    with "4.IH" True "4.prems" show ?thesis by (auto simp: wf_steps_def Let_def)
  qed
qed

text \<open>The search comes back empty only for equal leaves and equal siblings.\<close>

lemma find_collision_complete:
  assumes "digest32 H" "wf_steps r1" "wf_steps r2" "same_branch r1 r2"
    and "path_root H (hash_leaf H e1) (rev r1) = path_root H (hash_leaf H e2) (rev r2)"
    and "find_collision H e1 r1 e2 r2 = None"
  shows "e1 = e2 \<and> r1 = r2"
  using assms
proof (induction H e1 r1 e2 r2 rule: find_collision.induct)
  case (4 H e1 s1 r1 e2 s2 r2)
  let ?c1 = "path_root H (hash_leaf H e1) (rev r1)"
  let ?c2 = "path_root H (hash_leaf H e2) (rev r2)"
  from "4.prems" have eq: "node_input s1 ?c1 = node_input s2 ?c2"
    by (auto simp: Let_def split: if_splits)
  then have "sibling s1 = sibling s2 \<and> ?c1 = ?c2"
    using node_input_inject [of s1 s2 ?c1 ?c2] "4.prems"
    by (auto simp: wf_steps_def length_path_root)
  with "4.IH" eq "4.prems" show ?case by (auto simp: wf_steps_def Let_def)
qed (auto split: if_splits)

section \<open>The verifiers\<close>

lemma verify_True_iff:
  assumes "core_conversions H" "ct_eq_correct H" "length root = 32"
  shows "InclusionProofWrap_verify H p (RStr root) = Inr True \<longleftrightarrow>
    path_root H (leaf_hash p) (steps (wrap_inner p)) = root"
  using assms by (simp add: InclusionProofWrap_verify_def exact32_str ct_eq_correct_def)

lemma verify_accepts_root:
  assumes "ct_eq_correct H" "InclusionProofWrap_verify H p v = Inr True"
  shows "bytes_from_value H v = Inr (path_root H (leaf_hash p) (steps (wrap_inner p)))"
  using assms
  by (auto simp: InclusionProofWrap_verify_def and_then_eq_Inr exact32_Inr ct_eq_correct_def)

text \<open>C1: a proof accepted against the root of a Merkle tree, at a position of that tree, carries
  that position's entry and exactly its audit path, or the search returns a SHA-256 collision.\<close>

theorem verify_binds_leaf:
  fixes H :: "'w rt"
  assumes "digest32 H" and "ct_eq_correct H" and "core_conversions H"
    and "audit_path H t ds = Some (e, sts)"
    and "leaf_hash p = hash_leaf H e'" and "wf_steps (steps (wrap_inner p))"
    and "map side (rev (steps (wrap_inner p))) = ds"
    and "InclusionProofWrap_verify H p (RStr (mroot H t)) = Inr True"
  shows "e' = e \<and> steps (wrap_inner p) = sts \<or>
    (\<exists>x y. find_collision H e' (rev (steps (wrap_inner p))) e (rev sts) = Some (x, y) \<and>
       x \<noteq> y \<and> sha256 H x = sha256 H y)"
proof -
  let ?r1 = "rev (steps (wrap_inner p))" and ?r2 = "rev sts"
  have "path_root H (hash_leaf H e') (rev ?r1) = path_root H (hash_leaf H e) (rev ?r2)"
    using assms(5,8) verify_True_iff [OF assms(3,2) length_mroot [OF assms(1)], of p]
      audit_path_root [OF assms(4)] by simp
  moreover have "wf_steps ?r1" "wf_steps ?r2"
    using assms(6) audit_path_wf [OF assms(1,4)] by (auto simp: wf_steps_def)
  moreover have "same_branch ?r1 ?r2"
    using assms(7) audit_path_sides [OF assms(4)] by (intro same_branch_sides) simp
  ultimately show ?thesis
    using find_collision_sound [of H ?r1 ?r2 e' e] find_collision_complete [of H ?r1 ?r2 e' e]
      \<open>digest32 H\<close>
    by (cases "find_collision H e' ?r1 e ?r2") auto
qed

definition zero_rt :: "unit rt" where
  "zero_rt = core_rt (\<lambda>_. replicate 32 0)"

lemma zero_rt_laws [simp]: "digest32 zero_rt" "ct_eq_correct zero_rt" "core_conversions zero_rt"
  by (simp_all add: zero_rt_def digest32_def ct_eq_correct_def core_rt_conversions)
    (simp_all add: core_rt_def)

theorem verify_binds_leaf_witness:
  "(replicate 32 7 :: bytes) = replicate 32 5 \<and>
     [\<lparr>sibling = replicate 32 (0::u8), side = SideRight\<rparr>] = [\<lparr>sibling = replicate 32 0, side = SideRight\<rparr>] \<or>
   (\<exists>x y. find_collision zero_rt (replicate 32 7) [\<lparr>sibling = replicate 32 0, side = SideRight\<rparr>]
        (replicate 32 5) [\<lparr>sibling = replicate 32 0, side = SideRight\<rparr>] = Some (x, y) \<and>
      x \<noteq> y \<and> sha256 zero_rt x = sha256 zero_rt y)"
proof -
  let ?st = "[\<lparr>sibling = replicate 32 (0::u8), side = SideRight\<rparr>]"
  let ?t = "MNode (MLeaf (replicate 32 5)) (MLeaf (replicate 32 9))"
  let ?p = "\<lparr>wrap_inner = \<lparr>sequence = 0, steps = ?st\<rparr>, leaf_hash = hash_leaf zero_rt (replicate 32 7)\<rparr>"
  have sha: "sha256 zero_rt b = replicate 32 0" for b by (simp add: zero_rt_def core_rt_def)
  have root: "mroot zero_rt ?t = replicate 32 0"
    by (simp add: hash_internal_def sha)
  have path: "audit_path zero_rt ?t [SideRight] = Some (replicate 32 5, ?st)"
    by (simp add: hash_leaf_def sha)
  have acc: "InclusionProofWrap_verify zero_rt ?p (RStr (mroot zero_rt ?t)) = Inr True"
    using verify_True_iff [of zero_rt "mroot zero_rt ?t" ?p]
    by (simp add: root path_root_def path_step_def hash_internal_def sha)
  show ?thesis
    using verify_binds_leaf [OF _ _ _ path, where p = ?p and e' = "replicate 32 7"] acc
    by (simp add: wf_steps_def)
qed

text \<open>C2: whatever Merkle tree, every audit path of an entry is accepted by \<open>verify\<close> against the
  tree's root.\<close>

theorem verify_accepts_audit_path:
  fixes H :: "'w rt"
  assumes "digest32 H" and "ct_eq_correct H" and "core_conversions H"
    and "audit_path H t ds = Some (e, sts)"
  shows "InclusionProofWrap_verify H
      \<lparr>wrap_inner = \<lparr>sequence = n, steps = sts\<rparr>, leaf_hash = hash_leaf H e\<rparr> (RStr (mroot H t)) = Inr True"
  using assms audit_path_root by (simp add: verify_True_iff length_mroot)

theorem verify_accepts_audit_path_witness:
  "InclusionProofWrap_verify zero_rt
      \<lparr>wrap_inner = \<lparr>sequence = 1, steps = [\<lparr>sibling = replicate 32 0, side = SideLeft\<rparr>]\<rparr>,
       leaf_hash = hash_leaf zero_rt (replicate 32 9)\<rparr>
      (RStr (mroot zero_rt (MNode (MLeaf (replicate 32 5)) (MLeaf (replicate 32 9))))) = Inr True"
proof -
  have "audit_path zero_rt (MNode (MLeaf (replicate 32 5)) (MLeaf (replicate 32 9))) [SideLeft] =
      Some (replicate 32 9, [\<lparr>sibling = replicate 32 0, side = SideLeft\<rparr>])"
    by (simp add: hash_leaf_def zero_rt_def core_rt_def)
  from verify_accepts_audit_path [OF _ _ _ this] show ?thesis by simp
qed

text \<open>C3: no interior node passes for a leaf. Two proofs accepted against the same root that follow
  the same branches but stop at different depths yield a SHA-256 collision.\<close>

theorem verify_no_depth_confusion:
  fixes H :: "'w rt"
  assumes "digest32 H" and "ct_eq_correct H"
    and "leaf_hash p1 = hash_leaf H e1" and "wf_steps (steps (wrap_inner p1))"
    and "leaf_hash p2 = hash_leaf H e2" and "wf_steps (steps (wrap_inner p2))"
    and "same_branch (rev (steps (wrap_inner p1))) (rev (steps (wrap_inner p2)))"
    and "length (steps (wrap_inner p1)) \<noteq> length (steps (wrap_inner p2))"
    and "InclusionProofWrap_verify H p1 v = Inr True"
    and "InclusionProofWrap_verify H p2 v = Inr True"
  shows "\<exists>x y. find_collision H e1 (rev (steps (wrap_inner p1))) e2 (rev (steps (wrap_inner p2))) = Some (x, y)
    \<and> x \<noteq> y \<and> sha256 H x = sha256 H y"
proof -
  let ?r1 = "rev (steps (wrap_inner p1))" and ?r2 = "rev (steps (wrap_inner p2))"
  have "path_root H (hash_leaf H e1) (rev ?r1) = path_root H (hash_leaf H e2) (rev ?r2)"
    using verify_accepts_root [OF assms(2,9)] verify_accepts_root [OF assms(2,10)] assms(3,5) by simp
  moreover have "wf_steps ?r1" "wf_steps ?r2" using assms(4,6) by (simp_all add: wf_steps_def)
  moreover have "?r1 \<noteq> ?r2" using assms(8) by (metis length_rev)
  ultimately show ?thesis
    using find_collision_sound [OF assms(1) _ _ assms(7), of e1 e2]
      find_collision_complete [OF assms(1) _ _ assms(7), of e1 e2]
    by (metis not_None_eq surj_pair)
qed

theorem verify_no_depth_confusion_witness:
  "\<exists>x y. find_collision zero_rt (replicate 32 7) [] (replicate 32 5)
       [\<lparr>sibling = replicate 32 0, side = SideRight\<rparr>] = Some (x, y)
    \<and> x \<noteq> y \<and> sha256 zero_rt x = sha256 zero_rt y"
proof -
  let ?st = "[\<lparr>sibling = replicate 32 (0::u8), side = SideRight\<rparr>]"
  let ?p1 = "\<lparr>wrap_inner = \<lparr>sequence = 0, steps = []\<rparr>, leaf_hash = hash_leaf zero_rt (replicate 32 7)\<rparr>"
  let ?p2 = "\<lparr>wrap_inner = \<lparr>sequence = 0, steps = ?st\<rparr>, leaf_hash = hash_leaf zero_rt (replicate 32 5)\<rparr>"
  have sha: "sha256 zero_rt b = replicate 32 0" for b by (simp add: zero_rt_def core_rt_def)
  have "InclusionProofWrap_verify zero_rt ?p1 (RStr (replicate 32 0)) = Inr True"
    by (simp add: verify_True_iff hash_leaf_def sha)
  moreover have "InclusionProofWrap_verify zero_rt ?p2 (RStr (replicate 32 0)) = Inr True"
    by (simp add: verify_True_iff path_root_def path_step_def hash_internal_def sha)
  ultimately have "\<exists>x y. find_collision zero_rt (replicate 32 7) (rev (steps (wrap_inner ?p1)))
      (replicate 32 5) (rev (steps (wrap_inner ?p2))) = Some (x, y) \<and> x \<noteq> y \<and> sha256 zero_rt x = sha256 zero_rt y"
    by (intro verify_no_depth_confusion [where v = "RStr (replicate 32 0)"]) (simp_all add: wf_steps_def)
  then show ?thesis by simp
qed

text \<open>The auditor's verifier with the stored leaf hash is the stored-leaf verifier, on every
  root argument, errors included.\<close>

lemma verify_with_leaf_stored:
  assumes "core_conversions H" and "length (leaf_hash p) = 32"
  shows "InclusionProofWrap_verify_with_leaf H p (RStr (leaf_hash p)) v = InclusionProofWrap_verify H p v"
  using assms
  by (simp add: InclusionProofWrap_verify_with_leaf_def InclusionProofWrap_verify_def exact32_str)

section \<open>Exported steps\<close>

lemma step_hash_fields:
  assumes "step_hash st = RHash h"
  shows "hash_get h ''sibling'' = Some (RStr (sibling st))"
    and "hash_get h ''side'' = Some (rstr (side_str (side st)))"
  using assms by (auto simp: step_hash_def bytes_to_rstring_def hash_get_hash_of)

lemma side_str_inject [simp]: "side_str d = side_str d' \<longleftrightarrow> d = d'"
  by (cases d; cases d') (simp_all add: side_str_def)

lemma step_hash_inject: "step_hash s = step_hash t \<Longrightarrow> s = t"
proof -
  assume eq: "step_hash s = step_hash t"
  obtain h where h: "step_hash s = RHash h" by (simp add: step_hash_def)
  then have "step_hash t = RHash h" using eq by simp
  with h have "sibling s = sibling t" "side s = side t"
    using step_hash_fields [of s h] step_hash_fields [of t h] by simp_all
  then show "s = t" by simp
qed

lemma aset_fresh: "k \<notin> fst ` set h \<Longrightarrow> hash_aset k v h = h @ [(k, v)]"
  by (induction h) (auto simp: hash_aset_def)

text \<open>The export lists the steps in order under their positions.\<close>

lemma steps_fold_entries:
  "(\<forall>k \<in> fst ` set h. \<exists>j < n. k = RInt (int j)) \<Longrightarrow>
   fold (\<lambda>(i, st) h. hash_aset (RInt (int i)) (step_hash st) h) (enumerate n sts) h =
     h @ map (\<lambda>(i, st). (RInt (int i), step_hash st)) (enumerate n sts)"
proof (induction sts arbitrary: n h)
  case Nil
  then show ?case by simp
next
  case (Cons st sts)
  have "RInt (int n) \<notin> fst ` set h"
    using Cons.prems by fastforce
  then have "hash_aset (RInt (int n)) (step_hash st) h = h @ [(RInt (int n), step_hash st)]"
    by (rule aset_fresh)
  moreover have "\<forall>k \<in> fst ` set (h @ [(RInt (int n), step_hash st)]). \<exists>j < Suc n. k = RInt (int j)"
    using Cons.prems by (auto simp: less_Suc_eq)
  ultimately show ?case
    using Cons.IH [of "h @ [(RInt (int n), step_hash st)]" "Suc n"] by simp
qed

lemma steps_exported:
  "InclusionProofWrap_steps H p = Inr v \<Longrightarrow>
     v = RHash (map (\<lambda>(i, st). (RInt (int i), step_hash st)) (enumerate 0 (steps (wrap_inner p))))"
  by (auto simp: InclusionProofWrap_steps_def steps_fold_entries res_iffs)

text \<open>C36: the Hash exported by \<open>steps\<close> has exactly the keys \<open>0, 1, ..\<close> up to the number of steps, in this order;
  under key \<open>i\<close> it has the sibling and the side of step \<open>i\<close>, as \<open>"sibling"\<close> and as \<open>"left"\<close> or \<open>"right"\<close> under
  \<open>"side"\<close>. So the export loses nothing: proofs with equal exports have equal step lists.\<close>

theorem exported_steps_exact:
  assumes "InclusionProofWrap_steps H p = Inr v"
  shows "\<exists>h. v = RHash h \<and> map fst h = map (\<lambda>i. RInt (int i)) [0 ..< length (steps (wrap_inner p))] \<and>
    (\<forall>i < length (steps (wrap_inner p)). \<exists>e. map_of h (RInt (int i)) = Some (RHash e) \<and>
       hash_get e ''sibling'' = Some (RStr (sibling (steps (wrap_inner p) ! i))) \<and>
       hash_get e ''side'' = Some (rstr (if side (steps (wrap_inner p) ! i) = SideLeft then ''left'' else ''right''))) \<and>
    (\<forall>q. InclusionProofWrap_steps H q = Inr v \<longrightarrow> steps (wrap_inner q) = steps (wrap_inner p))"
proof -
  define sts where "sts = steps (wrap_inner p)"
  define h where "h = map (\<lambda>(i, st). (RInt (int i), step_hash st)) (enumerate 0 sts)"
  have v: "v = RHash h"
    using steps_exported [OF assms] by (simp add: h_def sts_def)
  have keys: "map fst h = map (\<lambda>i. RInt (int i)) [0 ..< length sts]"
    by (rule nth_equalityI) (simp_all add: h_def nth_enumerate_eq split: prod.split)
  have entry: "map_of h (RInt (int i)) = Some (step_hash (sts ! i))" if "i < length sts" for i
  proof (rule map_of_is_SomeI)
    show "distinct (map fst h)"
      by (simp add: keys distinct_map inj_on_def)
    show "(RInt (int i), step_hash (sts ! i)) \<in> set h"
      using that by (force simp: h_def in_set_enumerate_eq)
  qed
  have fields: "\<exists>e. step_hash st = RHash e \<and> hash_get e ''sibling'' = Some (RStr (sibling st)) \<and>
      hash_get e ''side'' = Some (rstr (if side st = SideLeft then ''left'' else ''right''))" for st
  proof -
    obtain e where "step_hash st = RHash e" by (simp add: step_hash_def)
    with step_hash_fields [OF this] show ?thesis
      by (cases "side st") (auto simp: side_str_def)
  qed
  have same: "steps (wrap_inner q) = sts" if "InclusionProofWrap_steps H q = Inr v" for q
  proof -
    have "map snd h = map step_hash sts"
      by (rule nth_equalityI) (simp_all add: h_def nth_enumerate_eq split: prod.split)
    moreover have "map snd h = map step_hash (steps (wrap_inner q))"
      using steps_exported [OF that] v
      by (auto simp: intro!: nth_equalityI simp: nth_enumerate_eq split: prod.split)
    ultimately show ?thesis
      by (metis inj_map_eq_map injI step_hash_inject)
  qed
  show ?thesis
    using v keys entry fields same unfolding sts_def by metis
qed

theorem exported_steps_exact_witness:
  "\<exists>h e. InclusionProofWrap_steps (core_rt id :: unit rt)
      \<lparr>wrap_inner = \<lparr>sequence = 5, steps = [\<lparr>sibling = [1], side = SideLeft\<rparr>, \<lparr>sibling = [2], side = SideRight\<rparr>]\<rparr>,
       leaf_hash = [3]\<rparr> = Inr (RHash h) \<and>
     map fst h = [RInt 0, RInt 1] \<and> map_of h (RInt 1) = Some (RHash e) \<and>
     hash_get e ''sibling'' = Some (RStr [2]) \<and> hash_get e ''side'' = Some (rstr ''right'')"
proof -
  let ?p = "\<lparr>wrap_inner = \<lparr>sequence = 5, steps = [\<lparr>sibling = [1], side = SideLeft\<rparr>, \<lparr>sibling = [2], side = SideRight\<rparr>]\<rparr>,
      leaf_hash = [3]\<rparr>"
  obtain v where v: "InclusionProofWrap_steps (core_rt id :: unit rt) ?p = Inr v"
    by (simp add: InclusionProofWrap_steps_def core_rt_def with_ruby_def)
  from exported_steps_exact [OF v] v show ?thesis
    by (auto simp: less_Suc_eq dest!: spec [of _ 1])
qed

section \<open>The log over the crate's tree\<close>

text \<open>What the crate documents of its inclusion proofs: the steps are an audit path, from the
  entry's hash, in a Merkle tree whose root is the log's.\<close>

definition proofs_are_audit_paths :: "'w rt \<Rightarrow> ('t, 'e) merkle_api \<Rightarrow> bool" where
  "proofs_are_audit_paths H M \<longleftrightarrow>
     (\<forall>t i p e. tree_inclusion_proof M t i = Inr p \<longrightarrow> tree_entry M t i = Inr e \<longrightarrow>
        (\<exists>mt ds. audit_path H mt ds = Some (entry_hash M e, steps p) \<and> mroot H mt = tree_root M t))"

lemma inclusion_proof_verifies:
  assumes "digest32 H" "ct_eq_correct H" "core_conversions H" "proofs_are_audit_paths H M"
    and "MerkleTree_inclusion_proof H M i t = Inr p"
  shows "and_then (MerkleTree_root H M t) (InclusionProofWrap_verify H p) = Inr True"
proof -
  from assms(5) obtain pr e where ruby: "ruby_get H = None" and
    "tree_inclusion_proof M t i = Inr pr" "tree_entry M t i = Inr e"
    and p: "p = \<lparr>wrap_inner = pr, leaf_hash = hash_leaf H (entry_hash M e)\<rparr>"
    by (auto simp: MerkleTree_inclusion_proof_def res_iffs)
  then obtain mt ds where
    path: "audit_path H mt ds = Some (entry_hash M e, steps pr)" and root: "mroot H mt = tree_root M t"
    using assms(4) unfolding proofs_are_audit_paths_def by meson
  show ?thesis
    using verify_True_iff [OF assms(3,2) length_mroot [OF assms(1)], of p mt] audit_path_root [OF path]
    by (simp add: p root MerkleTree_root_def bytes_to_rstring_def ruby)
qed

lemma entries_nth:
  assumes "MerkleTree_entries H M t = Inr ps" and "tree_len M t < 2 ^ 64"
  shows "length ps = tree_len M t"
    and "i < tree_len M t \<Longrightarrow> MerkleTree_inclusion_proof H M (word_of_nat i) t = Inr (ps ! i)"
proof -
  have len: "unat (word_of_nat (tree_len M t) :: u64) = tree_len M t"
    using assms(2) by (simp add: unsigned_of_nat take_bit_nat_eq_self)
  have c: "collect (\<lambda>i. MerkleTree_inclusion_proof H M i t) (map word_of_nat [0 ..< tree_len M t]) = Inr ps"
    using assms(1) by (simp add: MerkleTree_entries_def len Let_def)
  then show "length ps = tree_len M t" by (simp add: collect_length)
  show "MerkleTree_inclusion_proof H M (word_of_nat i) t = Inr (ps ! i)" if "i < tree_len M t"
    using c that by (auto simp: collect_Inr_iff list_all2_conv_all_nth)
qed

text \<open>C4: \<open>entries\<close> returns one proof per entry, in order, and each verifies against the log's
  current root.\<close>

theorem entries_all_verify:
  fixes H :: "'w rt"
  assumes "digest32 H" and "ct_eq_correct H" and "core_conversions H" and "proofs_are_audit_paths H M"
    and "tree_len M t < 2 ^ 64" and "MerkleTree_entries H M t = Inr ps"
  shows "length ps = MerkleTree_len M t \<and>
    (\<forall>i < MerkleTree_len M t.
      MerkleTree_inclusion_proof H M (word_of_nat i) t = Inr (ps ! i) \<and>
      and_then (MerkleTree_root H M t) (InclusionProofWrap_verify H (ps ! i)) = Inr True)"
  using entries_nth [OF assms(6,5)] inclusion_proof_verifies [OF assms(1-4)]
  by (auto simp: MerkleTree_len_def)

text \<open>A log on a list of entry hashes, with the comb-shaped Merkle tree over it.\<close>

fun comb :: "bytes list \<Rightarrow> mtree" where
  "comb [] = MLeaf []"
| "comb [e] = MLeaf e"
| "comb (e # es) = MNode (MLeaf e) (comb es)"

definition comb_pos :: "nat \<Rightarrow> nat \<Rightarrow> side list" where
  "comb_pos n i = replicate i SideLeft @ (if Suc i < n then [SideRight] else [])"

definition list_api :: "'w rt \<Rightarrow> (bytes list, bytes) merkle_api" where
  "list_api H =
     \<lparr>tree_new = [],
      entry_new = (\<lambda>_ _ b. b),
      tree_append = (\<lambda>es e. (word_of_nat (length es), es @ [e])),
      tree_len = length,
      tree_is_empty = (\<lambda>es. es = []),
      tree_root = (\<lambda>es. mroot H (comb es)),
      tree_inclusion_proof = (\<lambda>es i.
        case audit_path H (comb es) (comb_pos (length es) (unat i)) of
          Some (e, sts) \<Rightarrow> if unat i < length es \<and> es ! unat i = e then Inr \<lparr>sequence = i, steps = sts\<rparr>
            else Inl ''sequence out of range''
        | None \<Rightarrow> Inl ''sequence out of range''),
      tree_entry = (\<lambda>es i. if unat i < length es then Inr (es ! unat i) else Inl ''sequence out of range''),
      entry_hash = (\<lambda>e. e),
      tree_consistency_proof = (\<lambda>es n. if n \<le> length es then Inr [] else Inl ''old size out of range''),
      tree_verify_consistency = (\<lambda>es r r' n n' pf.
        if n \<le> length es \<and> n' = length es \<and> r = mroot H (comb (take n es)) \<and> r' = mroot H (comb es)
        then Inr () else Inl ''consistency check failed'')\<rparr>"

lemma list_api_proofs: "proofs_are_audit_paths H (list_api H)"
  by (fastforce simp: proofs_are_audit_paths_def list_api_def split: option.splits if_splits)

theorem entries_all_verify_witness:
  "\<exists>ps. MerkleTree_entries zero_rt (list_api zero_rt) [replicate 32 1, replicate 32 2] = Inr ps \<and>
     length ps = 2 \<and>
     and_then (MerkleTree_root zero_rt (list_api zero_rt) [replicate 32 1, replicate 32 2])
       (InclusionProofWrap_verify zero_rt (ps ! 1)) = Inr True"
proof -
  let ?t = "[replicate 32 1, replicate 32 2] :: bytes list"
  have sha: "sha256 zero_rt b = replicate 32 0" and r: "ruby_get zero_rt = None" for b
    by (simp_all add: zero_rt_def core_rt_def)
  have two: "map word_of_nat [0 ..< unat (word_of_nat (length ?t) :: u64)] = [0, 1 :: u64]"
    by code_simp
  obtain ps where ps: "MerkleTree_entries zero_rt (list_api zero_rt) ?t = Inr ps"
    using two by (simp add: MerkleTree_entries_def MerkleTree_inclusion_proof_def list_api_def
        comb_pos_def with_ruby_def r)
  have len: "MerkleTree_len (list_api zero_rt) ?t = 2"
    by (simp add: MerkleTree_len_def list_api_def)
  have small: "tree_len (list_api zero_rt) ?t < 2 ^ 64" by (simp add: list_api_def)
  from entries_all_verify [OF _ _ _ list_api_proofs small ps] len ps show ?thesis
    by (intro exI [of _ ps]) simp
qed

end
