(* ===== verification/Audit_Trail.thy ===== *)
theory Audit_Trail
  imports Util
begin

text \<open>
  \<^verbatim>\<open>ext/confium_native/src/audit.rs\<close>: the sink held in an instance variable of \<open>Confium::Audit\<close>, the
  user-facing \<open>record\<close>, and the best-effort \<open>fire_event\<close> that the signing operations call. The
  locale \<open>audited_op\<close> states what an operation that reports through \<open>fire_event\<close> owes its caller;
  the components that sign interpret it on their operations.
\<close>

section \<open>Definitions\<close>

text \<open>\<open>class_object().const_get("Confium")\<close>, then \<open>const_get("Audit")\<close>: the text of the first
  failure, if any.\<close>

definition audit_mod :: "'w rt \<Rightarrow> string + unit" where
  "audit_mod H =
     (if \<not> const_module H [''Confium''] then Inl (const_error H [''Confium''])
      else if \<not> const_module H [''Confium'', ''Audit''] then Inl (const_error H [''Confium'', ''Audit''])
      else Inr ())"

definition event_hash ::
  "'w rt \<Rightarrow> 'w vm \<Rightarrow> string \<Rightarrow> string \<Rightarrow> string option \<Rightarrow> bytes option \<Rightarrow> string option \<Rightarrow> rhash" where
  "event_hash H s operation result algorithm payload error =
     (let payload_hex = (case payload of None \<Rightarrow> '''' | Some b \<Rightarrow> hex_encode H (sha256 H b));
          h = hash_aset (rstr ''timestamp'') (rstr (utc_now H s)) [];
          h = hash_aset (rstr ''operation'') (rstr operation) h;
          h = hash_aset (rstr ''result'') (rstr result) h;
          h = hash_aset (rstr ''payload_hash'') (rstr payload_hex) h;
          h = opt_aset ''algorithm'' (map_option rstr algorithm) h
      in opt_aset ''error'' (map_option rstr error) h)"

definition fire_event ::
  "'w rt \<Rightarrow> string \<Rightarrow> string \<Rightarrow> string option \<Rightarrow> bytes option \<Rightarrow> string option \<Rightarrow> 'w vm \<Rightarrow> 'w vm" where
  "fire_event H operation result algorithm payload error s =
     (case ruby_get H of
        Some _ \<Rightarrow> s
      | None \<Rightarrow>
     (case audit_mod H of
        Inl _ \<Rightarrow> s
      | Inr _ \<Rightarrow>
     (case ivar_get H s of
        Inl _ \<Rightarrow> s
      | Inr sink \<Rightarrow>
          if is_nil sink then s
          else (case funcall H sink ''call''
                       [RHash (event_hash H s operation result algorithm payload error)] s of
                  (Inl e, s') \<Rightarrow>
                    s'\<lparr>stderr_log := stderr_log s' @
                         [''confium: audit sink raised (audit event dropped): '' @ exn_debug H e]\<rparr>
                | (Inr _, s') \<Rightarrow> s'))))"

definition audit_record ::
  "'w rt \<Rightarrow> string \<Rightarrow> string \<Rightarrow> string \<Rightarrow> string option \<Rightarrow> string option \<Rightarrow> string option
     \<Rightarrow> 'w vm \<Rightarrow> unit res \<times> 'w vm" where
  "audit_record H operation payload_hash result actor algorithm error s =
     (case with_ruby H (and_then (map_err (runtime H) (audit_mod H)) (\<lambda>_. ivar_get H s)) of
        Inl e \<Rightarrow> (Inl e, s)
      | Inr sink \<Rightarrow>
          if is_nil sink then (Inr (), s)
          else
            (let h = hash_aset (rstr ''timestamp'') (rstr (utc_now H s)) [];
                 h = hash_aset (rstr ''operation'') (rstr operation) h;
                 h = opt_aset ''actor'' (map_option rstr actor) h;
                 h = opt_aset ''algorithm'' (map_option rstr algorithm) h;
                 h = hash_aset (rstr ''payload_hash'') (rstr payload_hash) h;
                 h = hash_aset (rstr ''result'') (rstr result) h;
                 h = opt_aset ''error'' (map_option rstr error) h;
                 (r, s') = funcall H sink ''call'' [RHash h] s
             in (map_ok (\<lambda>_. ()) (map_err (\<lambda>e. runtime H (exn_display H e)) r), s')))"

definition set_sink :: "'w rt \<Rightarrow> rvalue \<Rightarrow> 'w vm \<Rightarrow> unit res \<times> 'w vm" where
  "set_sink H callback s =
     (case with_ruby H (map_err (runtime H) (audit_mod H)) of
        Inl e \<Rightarrow> (Inl e, s)
      | Inr _ \<Rightarrow>
     (case ivar_set_failure H of
        Some e \<Rightarrow> (Inl e, s)
      | None \<Rightarrow> (Inr (), s\<lparr>sink_ivar := callback\<rparr>)))"

definition get_sink :: "'w rt \<Rightarrow> 'w vm \<Rightarrow> rvalue res" where
  "get_sink H s =
     with_ruby H (and_then (map_err (runtime H) (audit_mod H)) (\<lambda>_. ivar_get H s))"

definition audit_enabled :: "'w rt \<Rightarrow> 'w vm \<Rightarrow> bool res" where
  "audit_enabled H s = and_then (get_sink H s) (\<lambda>sink. Inr (\<not> is_nil sink))"

text \<open>\<open>init\<close> defines the module and sets the instance variable to nil.\<close>

definition audit_init :: "'w vm \<Rightarrow> 'w vm" where
  "audit_init s = s\<lparr>sink_ivar := RNil\<rparr>"

text \<open>The \<open>match\<close> the signing operations share: the crate's error fires a \<open>failure\<close> event and
  becomes the operation's error, its value fires a \<open>success\<close> event and is turned into the result.\<close>

definition audited ::
  "'w rt \<Rightarrow> string \<Rightarrow> string \<Rightarrow> bytes option \<Rightarrow> (string \<Rightarrow> exn) \<Rightarrow> ('a \<Rightarrow> 'b res) \<Rightarrow> string + 'a
     \<Rightarrow> 'w vm \<Rightarrow> 'b res \<times> 'w vm" where
  "audited H slug alg payload to_exn finish r s =
     (case r of
        Inl m \<Rightarrow> (Inl (to_exn m), fire_event H slug ''failure'' (Some alg) payload (Some m) s)
      | Inr x \<Rightarrow> (finish x, fire_event H slug ''success'' (Some alg) payload None s))"

text \<open>Argument decoding before the operation: its error returns without an event.\<close>

definition guarded :: "exn + 'g \<Rightarrow> ('g \<Rightarrow> 'w vm \<Rightarrow> 'b res \<times> 'w vm) \<Rightarrow> 'w vm \<Rightarrow> 'b res \<times> 'w vm" where
  "guarded g k s = (case g of Inl e \<Rightarrow> (Inl e, s) | Inr x \<Rightarrow> k x s)"

section \<open>The sink\<close>

definition audit_ready :: "'w rt \<Rightarrow> bool" where
  "audit_ready H \<longleftrightarrow> ruby_get H = None \<and> audit_mod H = Inr () \<and> ivar_failure H = None"

lemma fire_event_no_sink: "sink_ivar s = RNil \<Longrightarrow> fire_event H opn r a p e s = s"
  by (auto simp: fire_event_def ivar_get_def split: option.split sum.split)

lemma fire_event_not_ready: "\<not> audit_ready H \<Longrightarrow> fire_event H opn r a p e s = s"
  by (auto simp: fire_event_def ivar_get_def audit_ready_def split: option.split sum.split)

lemma fire_event_ready:
  assumes "audit_ready H" "sink_ivar s \<noteq> RNil"
  shows "fire_event H opn r a p e s =
    (case funcall H (sink_ivar s) ''call'' [RHash (event_hash H s opn r a p e)] s of
       (Inl x, s') \<Rightarrow> s'\<lparr>stderr_log := stderr_log s' @
          [''confium: audit sink raised (audit event dropped): '' @ exn_debug H x]\<rparr>
     | (Inr _, s') \<Rightarrow> s')"
  using assms by (simp add: fire_event_def audit_ready_def ivar_get_def)

lemma event_hash_get:
  "hash_get (event_hash H s opn r a p e) ''operation'' = Some (rstr opn)"
  "hash_get (event_hash H s opn r a p e) ''result'' = Some (rstr r)"
  "hash_get (event_hash H s opn r a p e) ''timestamp'' = Some (rstr (utc_now H s))"
  "hash_get (event_hash H s opn r a p e) ''payload_hash'' =
     Some (rstr (case p of None \<Rightarrow> '''' | Some b \<Rightarrow> hex_encode H (sha256 H b)))"
  "hash_get (event_hash H s opn r a p e) ''algorithm'' = map_option rstr a"
  "hash_get (event_hash H s opn r a p e) ''error'' = map_option rstr e"
  by (auto simp: event_hash_def Let_def)

lemma set_sink_get_sink:
  assumes "audit_ready H" "ivar_set_failure H = None"
  shows "set_sink H cb s = (Inr (), s\<lparr>sink_ivar := cb\<rparr>)"
    and "get_sink H (s\<lparr>sink_ivar := cb\<rparr>) = Inr cb"
    and "audit_enabled H (s\<lparr>sink_ivar := cb\<rparr>) = Inr (cb \<noteq> RNil)"
  using assms
  by (simp_all add: set_sink_def get_sink_def audit_enabled_def audit_ready_def with_ruby_def
      ivar_get_def)

section \<open>The contract of an audited operation\<close>

text \<open>
  \<open>attempt\<close> is what the operation computes before any event: the error of its argument checks, or
  the payload to report with the outcome of the crate's call (the error's text and the exception it
  becomes, or the answer). The laws say when the operation is silent and which single event it
  fires; the lemmas say that the audit trail never changes the operation's answer.
\<close>

definition outcome :: "(string \<Rightarrow> exn) \<Rightarrow> ('a \<Rightarrow> 'o res) \<Rightarrow> string + 'a \<Rightarrow> string \<times> exn + 'o res" where
  "outcome to_exn finish r = (case r of Inl m \<Rightarrow> Inl (m, to_exn m) | Inr x \<Rightarrow> Inr (finish x))"

definition outcome_slug :: "'a + 'b \<Rightarrow> string" where
  "outcome_slug r = (case r of Inl _ \<Rightarrow> ''failure'' | Inr _ \<Rightarrow> ''success'')"

locale audited_op =
  fixes H :: "'w rt" and op :: "'w vm \<Rightarrow> 'o res \<times> 'w vm" and slug alg :: string
    and attempt :: "exn + (bytes option \<times> (string \<times> exn + 'o res))"
  assumes rejected: "attempt = Inl e \<Longrightarrow> op s = (Inl e, s)"
    and failed: "attempt = Inr (pl, Inl (m, e)) \<Longrightarrow>
      op s = (Inl e, fire_event H slug ''failure'' (Some alg) pl (Some m) s)"
    and succeeded: "attempt = Inr (pl, Inr r) \<Longrightarrow>
      op s = (r, fire_event H slug ''success'' (Some alg) pl None s)"
begin

lemma cases_op:
  obtains (reject) e where "attempt = Inl e" "op s = (Inl e, s)"
  | (fail) pl m e where "attempt = Inr (pl, Inl (m, e))"
      "op s = (Inl e, fire_event H slug ''failure'' (Some alg) pl (Some m) s)"
  | (succeed) pl r where "attempt = Inr (pl, Inr r)"
      "op s = (r, fire_event H slug ''success'' (Some alg) pl None s)"
proof (cases attempt)
  case (Inl e)
  then show thesis using that(1) [OF _ rejected] by blast
next
  case (Inr a)
  obtain pl r where a: "attempt = Inr (pl, r)" using Inr by (cases a) simp
  show thesis
  proof (cases r)
    case (Inl me)
    obtain m e where "attempt = Inr (pl, Inl (m, e))" using a Inl by (cases me) simp
    then show thesis using that(2) [OF _ failed] by blast
  next
    case (Inr r')
    with a have "attempt = Inr (pl, Inr r')" by simp
    then show thesis using that(3) [OF _ succeeded] by blast
  qed
qed

lemma answer:
  "fst (op s) = (case attempt of Inl e \<Rightarrow> Inl e | Inr (pl, out) \<Rightarrow>
     (case out of Inl (m, e) \<Rightarrow> Inl e | Inr r \<Rightarrow> r))"
  by (cases rule: cases_op [of s]) simp_all

lemma answer_ignores_state: "fst (op s) = fst (op s')"
  by (simp only: answer)

lemma silent_without_sink: "sink_ivar s = RNil \<Longrightarrow> snd (op s) = s"
  by (cases rule: cases_op [of s]) (simp_all add: fire_event_no_sink)

lemma one_event:
  "attempt = Inr (pl, out) \<Longrightarrow>
     snd (op s) = fire_event H slug (outcome_slug out) (Some alg) pl
       (case out of Inl (m, e) \<Rightarrow> Some m | Inr _ \<Rightarrow> None) s"
  by (cases rule: cases_op [of s]) (auto simp: outcome_slug_def)

lemma no_event: "attempt = Inl e \<Longrightarrow> op s = (Inl e, s)"
  by (rule rejected)

end

lemma audited_opI:
  fixes H :: "'w rt" and finish :: "'g \<Rightarrow> 'a \<Rightarrow> 'o res"
  assumes op: "\<And>s. op s = guarded g (\<lambda>x. audited H slug alg (pl x) (to_exn x) (finish x) (r x)) s"
  shows "audited_op H op slug alg (map_ok (\<lambda>x. (pl x, outcome (to_exn x) (finish x) (r x))) g)"
proof (cases g)
  case (Inl e)
  then show ?thesis by unfold_locales (simp_all add: op guarded_def)
next
  case (Inr x)
  then show ?thesis
    by (cases "r x"; unfold_locales) (auto simp: op guarded_def audited_def outcome_def)
qed

lemma audited_op_plain:
  fixes H :: "'w rt"
  shows "audited_op H (audited H slug alg pl to_exn finish r) slug alg (Inr (pl, outcome to_exn finish r))"
  by (cases r; unfold_locales) (auto simp: audited_def outcome_def)

text \<open>A runtime whose sinks remember what they are called with.\<close>

definition memory_rt :: "rvalue list rt \<Rightarrow> rvalue list rt" where
  "memory_rt H = H\<lparr>funcall := (\<lambda>r m as s. (Inr RNil, s\<lparr>world := world s @ as\<rparr>))\<rparr>"

lemma memory_rt_fire:
  assumes "audit_ready (memory_rt H)" "sink_ivar s \<noteq> RNil"
  shows "world (fire_event (memory_rt H) opn r a p e s) =
    world s @ [RHash (event_hash (memory_rt H) s opn r a p e)]"
  using fire_event_ready [OF assms] by (simp add: memory_rt_def)

end
