(* ===== verification/Tc.thy ===== *)
theory Tc
  imports Audit_Trail
begin

text \<open>
  \<^verbatim>\<open>ext/confium_native/src/tc.rs\<close>: threshold cryptography in one process. The P-256 scalars, Shamir
  sharing, ECDSA, ElGamal and the CMP20 and GG18 drivers belong to their crates and are the
  parameters \<open>frost_api\<close>, \<open>elgamal_api\<close> and \<open>inprocess_api\<close>; the argument checks, the marshalling of
  shares, ciphertexts and partial decryptions between Ruby Hashes and the crates' types, the error
  classification and the audit events are the repository's. The contract \<open>audited_op\<close> is interpreted
  on the five operations that report to the audit trail.
\<close>

section \<open>Parameters: the crates\<close>

record 's share =
  share_x :: u32
  share_y :: 's

record signed_message =
  der_bytes :: bytes
  fixed_bytes :: bytes

record ('s, 'p) frost_api =
  scalar_from_bytes :: "bytes \<Rightarrow> 's option"
  scalar_to_bytes :: "'s \<Rightarrow> bytes"
  split_secret :: "'s \<Rightarrow> u32 \<Rightarrow> u32 \<Rightarrow> 's share list"
  recover_secret :: "'s share list \<Rightarrow> string + 's"
  generate_keypair :: "bytes \<times> bytes"
  public_key_for :: "'s \<Rightarrow> 'p"
  sign_message :: "'s \<times> 'p \<Rightarrow> bytes \<Rightarrow> string + signed_message"

record ciphertext =
  ct_c1 :: bytes
  ct_c2 :: bytes

record partial_decryption =
  pd_party_index :: u32
  pd_bytes :: bytes

record elgamal_api =
  encapsulate :: "bytes \<Rightarrow> string + ciphertext \<times> bytes"
  partial_decrypt :: "u32 \<times> bytes \<Rightarrow> ciphertext \<Rightarrow> string + partial_decryption"
  aggregate_partials :: "partial_decryption list \<Rightarrow> u32 \<Rightarrow> ciphertext \<Rightarrow> string + bytes"

record keygen_output =
  kg_shares :: "bytes list"
  kg_public_key :: bytes

record inprocess_api =
  inprocess_keygen :: "u32 \<Rightarrow> nat \<Rightarrow> string + keygen_output"
  inprocess_sign :: "bytes list \<Rightarrow> u32 \<Rightarrow> bytes \<Rightarrow> string + bytes"

section \<open>FROST-P256: Shamir shares, keypair, signing\<close>

record ShareWrap =
  wrap_x :: u32
  wrap_y_bytes :: bytes

definition ShareWrap_x :: "ShareWrap \<Rightarrow> u32" where
  "ShareWrap_x w = wrap_x w"

definition ShareWrap_y_bytes :: "'w rt \<Rightarrow> ShareWrap \<Rightarrow> rvalue res" where
  "ShareWrap_y_bytes H w = with_ruby H (Inr (bytes_to_rstring (wrap_y_bytes w)))"

definition split_secret_into_shares ::
  "'w rt \<Rightarrow> ('s, 'p) frost_api \<Rightarrow> rvalue \<Rightarrow> u32 \<Rightarrow> u32 \<Rightarrow> ShareWrap list res" where
  "split_secret_into_shares H F secret_bytes threshold party_count =
     and_then (exact32 H ''secret must be exactly 32'' secret_bytes) (\<lambda>b.
     and_then (ok_or (arg_error H ''secret is not a valid P-256 scalar (reduce mod n failed)'')
                 (scalar_from_bytes F b)) (\<lambda>secret.
     with_ruby H (Inr (map (\<lambda>s. \<lparr>wrap_x = share_x s, wrap_y_bytes = scalar_to_bytes F (share_y s)\<rparr>)
                         (split_secret F secret threshold party_count)))))"

text \<open>One iteration of the loop of \<open>recover\<close>.\<close>

definition recover_share :: "'w rt \<Rightarrow> ('s, 'p) frost_api \<Rightarrow> rvalue \<Rightarrow> 's share res" where
  "recover_share H F v =
     and_then (conv_hash H v) (\<lambda>h.
     and_then (and_then (hash_fetch h ''x'') (conv_u32 H)) (\<lambda>x.
     and_then (hash_fetch h ''y'') (\<lambda>y_value.
     and_then (exact32 H ''share y must be 32'' y_value) (\<lambda>y_bytes.
     and_then (ok_or (arg_error H ''share y is not a valid P-256 scalar'')
                 (scalar_from_bytes F y_bytes)) (\<lambda>y.
     Inr \<lparr>share_x = x, share_y = y\<rparr>)))))"

definition recover :: "'w rt \<Rightarrow> ('s, 'p) frost_api \<Rightarrow> rvalue \<Rightarrow> rvalue res" where
  "recover H F shares_value =
     and_then (conv_array H shares_value) (\<lambda>arr.
     and_then (collect (recover_share H F) arr) (\<lambda>shares.
     and_then (map_err (runtime H) (recover_secret F shares)) (\<lambda>secret.
     with_ruby H (Inr (bytes_to_rstring (scalar_to_bytes F secret))))))"

definition keypair :: "('s, 'p) frost_api \<Rightarrow> rvalue" where
  "keypair F =
     (let (signing_bytes, verifying_bytes) = generate_keypair F in
      RHash (hash_of [(''private_key'', bytes_to_rstring signing_bytes),
                      (''public_key'', bytes_to_rstring verifying_bytes)]))"

text \<open>\<open>sign\<close>: the arguments and the crate's answer, before any event; then the operation.\<close>

definition frost_sign_args ::
  "'w rt \<Rightarrow> ('s, 'p) frost_api \<Rightarrow> rvalue \<Rightarrow> rvalue \<Rightarrow> (bytes option \<times> (string + signed_message)) res" where
  "frost_sign_args H F private_key_bytes message =
     and_then (bytes_from_value H private_key_bytes) (\<lambda>pk_bytes.
     and_then (bytes_from_value H message) (\<lambda>msg.
     and_then (check32 H ''private key must be 32'' pk_bytes) (\<lambda>pk_arr.
     and_then (ok_or (arg_error H ''private key not a valid P-256 scalar'')
                 (scalar_from_bytes F pk_arr)) (\<lambda>secret.
     Inr (Some msg, sign_message F (secret, public_key_for F secret) msg)))))"

definition signed_hash :: "'w rt \<Rightarrow> signed_message \<Rightarrow> rvalue res" where
  "signed_hash H sd =
     with_ruby H (Inr (RHash (hash_of [(''der'', bytes_to_rstring (der_bytes sd)),
                                       (''fixed'', bytes_to_rstring (fixed_bytes sd))])))"

definition frost_sign ::
  "'w rt \<Rightarrow> ('s, 'p) frost_api \<Rightarrow> rvalue \<Rightarrow> rvalue \<Rightarrow> 'w vm \<Rightarrow> rvalue res \<times> 'w vm" where
  "frost_sign H F private_key_bytes message =
     guarded (frost_sign_args H F private_key_bytes message)
       (\<lambda>(payload, r).
          audited H ''tc_frost_p256_sign'' ''FROST-P256'' payload
            (\<lambda>e. crypto_error H e ''FrostP256.sign'' ''ecdsa-p256'') (signed_hash H) r)"

section \<open>ElGamal-P256\<close>

definition ciphertext_hash :: "ciphertext \<Rightarrow> rvalue" where
  "ciphertext_hash ct =
     RHash (hash_of [(''c1'', bytes_to_rstring (ct_c1 ct)), (''c2'', bytes_to_rstring (ct_c2 ct))])"

definition elgamal_encapsulate :: "'w rt \<Rightarrow> elgamal_api \<Rightarrow> rvalue \<Rightarrow> rvalue res" where
  "elgamal_encapsulate H G public_key_bytes =
     and_then (bytes_from_value H public_key_bytes) (\<lambda>b.
     and_then (map_err (\<lambda>e. crypto_error H e ''ElGamalP256.encapsulate'' ''elgamal-p256'')
                 (encapsulate G b)) (\<lambda>(ciphertext, shared_secret).
     Inr (RHash (hash_of [(''ciphertext'', ciphertext_hash ciphertext),
                          (''shared_secret'', bytes_to_rstring shared_secret)]))))"

definition read_ciphertext :: "'w rt \<Rightarrow> rvalue \<Rightarrow> ciphertext res" where
  "read_ciphertext H v =
     and_then (conv_hash H v) (\<lambda>h.
     and_then (hash_fetch h ''c1'') (\<lambda>c1_value.
     and_then (hash_fetch h ''c2'') (\<lambda>c2_value.
     and_then (bytes_from_value H c1_value) (\<lambda>c1.
     and_then (bytes_from_value H c2_value) (\<lambda>c2.
     Inr \<lparr>ct_c1 = c1, ct_c2 = c2\<rparr>)))))"

definition partial_hash :: "partial_decryption \<Rightarrow> rvalue" where
  "partial_hash p =
     RHash (hash_of [(''party_index'', RInt (uint (pd_party_index p))),
                     (''bytes'', bytes_to_rstring (pd_bytes p))])"

definition elgamal_partial_decrypt ::
  "'w rt \<Rightarrow> elgamal_api \<Rightarrow> u32 \<Rightarrow> rvalue \<Rightarrow> rvalue \<Rightarrow> rvalue res" where
  "elgamal_partial_decrypt H G party_index share_bytes ciphertext_value =
     and_then (bytes_from_value H share_bytes) (\<lambda>share_b.
     and_then (read_ciphertext H ciphertext_value) (\<lambda>ciphertext.
     and_then (map_err (\<lambda>e. crypto_error H e ''ElGamalP256.partial_decrypt'' ''elgamal-p256'')
                 (partial_decrypt G (party_index, share_b) ciphertext)) (\<lambda>p.
     with_ruby H (Inr (partial_hash p)))))"

definition read_partial :: "'w rt \<Rightarrow> rvalue \<Rightarrow> partial_decryption res" where
  "read_partial H v =
     and_then (conv_hash H v) (\<lambda>h.
     and_then (and_then (hash_fetch h ''party_index'') (conv_u32 H)) (\<lambda>party_index.
     and_then (hash_fetch h ''bytes'') (\<lambda>bytes_value.
     and_then (bytes_from_value H bytes_value) (\<lambda>b.
     Inr \<lparr>pd_party_index = party_index, pd_bytes = b\<rparr>))))"

definition elgamal_aggregate :: "'w rt \<Rightarrow> elgamal_api \<Rightarrow> rvalue \<Rightarrow> u32 \<Rightarrow> rvalue \<Rightarrow> rvalue res" where
  "elgamal_aggregate H G partials_value threshold ciphertext_value =
     and_then (conv_array H partials_value) (\<lambda>arr.
     and_then (collect (read_partial H) arr) (\<lambda>partials.
     and_then (read_ciphertext H ciphertext_value) (\<lambda>ciphertext.
     and_then (map_err (\<lambda>e. crypto_error H e ''ElGamalP256.aggregate_partials'' ''elgamal-p256'')
                 (aggregate_partials G partials threshold ciphertext)) (\<lambda>shared.
     with_ruby H (Inr (bytes_to_rstring shared))))))"

section \<open>CMP20 and GG18 in-process drivers\<close>

definition keygen_hash :: "keygen_output \<Rightarrow> rvalue res" where
  "keygen_hash kg =
     Inr (RHash (hash_of [(''shares'', RArr (map bytes_to_rstring (kg_shares kg))),
                          (''public_key'', bytes_to_rstring (kg_public_key kg))]))"

definition cmp20_keygen :: "'w rt \<Rightarrow> inprocess_api \<Rightarrow> u32 \<Rightarrow> u32 \<Rightarrow> 'w vm \<Rightarrow> rvalue res \<times> 'w vm" where
  "cmp20_keygen H D threshold party_count =
     audited H ''tc_cmp20_keygen'' ''CMP20-ECDSA-P256'' None
       (\<lambda>e. threshold_error H e ''Cmp20.keygen'' (unat party_count) (unat threshold))
       keygen_hash (inprocess_keygen D threshold (unat party_count))"

text \<open>The arguments of both \<open>sign\<close> drivers: the share strings, then the message.\<close>

definition sign_args :: "'w rt \<Rightarrow> rvalue \<Rightarrow> rvalue \<Rightarrow> (bytes list \<times> bytes) res" where
  "sign_args H shares_value message_value =
     and_then (conv_array H shares_value) (\<lambda>arr.
     and_then (collect (bytes_from_value H) arr) (\<lambda>share_bytes.
     and_then (bytes_from_value H message_value) (\<lambda>msg.
     Inr (share_bytes, msg))))"

definition cmp20_sign ::
  "'w rt \<Rightarrow> inprocess_api \<Rightarrow> rvalue \<Rightarrow> u32 \<Rightarrow> rvalue \<Rightarrow> 'w vm \<Rightarrow> rvalue res \<times> 'w vm" where
  "cmp20_sign H D shares_value threshold message_value =
     guarded (sign_args H shares_value message_value)
       (\<lambda>(share_bytes, msg).
          audited H ''tc_cmp20_sign'' ''CMP20-ECDSA-P256'' (Some msg)
            (\<lambda>e. threshold_error H e ''Cmp20.sign'' (length share_bytes) (unat threshold))
            (\<lambda>sig. Inr (bytes_to_rstring sig)) (inprocess_sign D share_bytes threshold msg))"

definition gg18_keygen :: "'w rt \<Rightarrow> inprocess_api \<Rightarrow> u32 \<Rightarrow> u32 \<Rightarrow> 'w vm \<Rightarrow> rvalue res \<times> 'w vm" where
  "gg18_keygen H D threshold party_count =
     audited H ''tc_gg18_keygen'' ''GG18-ECDSA-P256'' None
       (\<lambda>e. threshold_error H e ''Gg18.keygen'' (unat party_count) (unat threshold))
       keygen_hash (inprocess_keygen D threshold (unat party_count))"

definition gg18_sign ::
  "'w rt \<Rightarrow> inprocess_api \<Rightarrow> rvalue \<Rightarrow> u32 \<Rightarrow> rvalue \<Rightarrow> 'w vm \<Rightarrow> rvalue res \<times> 'w vm" where
  "gg18_sign H D shares_value threshold message_value =
     guarded (sign_args H shares_value message_value)
       (\<lambda>(share_bytes, msg).
          audited H ''tc_gg18_sign'' ''GG18-ECDSA-P256'' (Some msg)
            (\<lambda>e. threshold_error H e ''Gg18.sign'' (length share_bytes) (unat threshold))
            (\<lambda>sig. Inr (bytes_to_rstring sig)) (inprocess_sign D share_bytes threshold msg))"

section \<open>The audited operations meet their contract\<close>

interpretation frost: audited_op H "frost_sign H F pk m" "''tc_frost_p256_sign''" "''FROST-P256''"
    "map_ok (\<lambda>x. (fst x, outcome (\<lambda>e. crypto_error H e ''FrostP256.sign'' ''ecdsa-p256'') (signed_hash H) (snd x)))
       (frost_sign_args H F pk m)"
  for H :: "'w rt" and F :: "('s, 'p) frost_api" and pk m
  by (rule audited_opI) (simp add: frost_sign_def case_prod_unfold)

interpretation cmp20_kg: audited_op H "cmp20_keygen H D t n" "''tc_cmp20_keygen''" "''CMP20-ECDSA-P256''"
    "Inr (None, outcome (\<lambda>e. threshold_error H e ''Cmp20.keygen'' (unat n) (unat t)) keygen_hash
       (inprocess_keygen D t (unat n)))"
  for H :: "'w rt" and D t n
  unfolding cmp20_keygen_def by (rule audited_op_plain)

interpretation gg18_kg: audited_op H "gg18_keygen H D t n" "''tc_gg18_keygen''" "''GG18-ECDSA-P256''"
    "Inr (None, outcome (\<lambda>e. threshold_error H e ''Gg18.keygen'' (unat n) (unat t)) keygen_hash
       (inprocess_keygen D t (unat n)))"
  for H :: "'w rt" and D t n
  unfolding gg18_keygen_def by (rule audited_op_plain)

interpretation cmp20_sg: audited_op H "cmp20_sign H D sv t mv" "''tc_cmp20_sign''" "''CMP20-ECDSA-P256''"
    "map_ok (\<lambda>x. (Some (snd x), outcome (\<lambda>e. threshold_error H e ''Cmp20.sign'' (length (fst x)) (unat t))
       (\<lambda>sig. Inr (bytes_to_rstring sig)) (inprocess_sign D (fst x) t (snd x)))) (sign_args H sv mv)"
  for H :: "'w rt" and D sv t mv
  by (rule audited_opI) (simp add: cmp20_sign_def case_prod_unfold)

interpretation gg18_sg: audited_op H "gg18_sign H D sv t mv" "''tc_gg18_sign''" "''GG18-ECDSA-P256''"
    "map_ok (\<lambda>x. (Some (snd x), outcome (\<lambda>e. threshold_error H e ''Gg18.sign'' (length (fst x)) (unat t))
       (\<lambda>sig. Inr (bytes_to_rstring sig)) (inprocess_sign D (fst x) t (snd x)))) (sign_args H sv mv)"
  for H :: "'w rt" and D sv t mv
  by (rule audited_opI) (simp add: gg18_sign_def case_prod_unfold)

section \<open>Structures that travel as Hashes\<close>

definition small :: "bytes \<Rightarrow> bool" where
  "small b \<longleftrightarrow> length b \<le> MAX_INPUT_SIZE"

interpretation ct: hash_codec ciphertext_hash "read_ciphertext H"
    "\<lambda>c. core_conversions H \<and> small (ct_c1 c) \<and> small (ct_c2 c)"
  for H :: "'w rt"
  by unfold_locales
    (auto simp: read_ciphertext_def ciphertext_hash_def core_conversionsD hash_fetch_def
      hash_get_hash_of small_def rstring_arg)

interpretation pd: hash_codec partial_hash "read_partial H"
    "\<lambda>p. core_conversions H \<and> small (pd_bytes p)"
  for H :: "'w rt"
  by unfold_locales
    (auto simp: read_partial_def partial_hash_def core_conversionsD hash_fetch_def
      hash_get_hash_of small_def rstring_arg)

text \<open>The Hash a Ruby caller builds from a share: \<^verbatim>\<open>{ "x" => s.x, "y" => s.y_bytes }\<close>.\<close>

definition share_arg :: "ShareWrap \<Rightarrow> rvalue" where
  "share_arg w = RHash (hash_of [(''x'', RInt (uint (wrap_x w))), (''y'', RStr (wrap_y_bytes w))])"

text \<open>What the scalar codec of the crate documents, and Shamir's threshold property.\<close>

definition scalar_codec :: "('s, 'p) frost_api \<Rightarrow> bool" where
  "scalar_codec F \<longleftrightarrow>
     (\<forall>y. length (scalar_to_bytes F y) = 32 \<and> scalar_from_bytes F (scalar_to_bytes F y) = Some y) \<and>
     (\<forall>b y. scalar_from_bytes F b = Some y \<longrightarrow> scalar_to_bytes F y = b)"

definition shamir_threshold :: "('s, 'p) frost_api \<Rightarrow> bool" where
  "shamir_threshold F \<longleftrightarrow>
     (\<forall>s t n is. 0 < t \<longrightarrow> distinct is \<longrightarrow> set is \<subseteq> {..< length (split_secret F s t n)} \<longrightarrow> unat t \<le> length is
        \<longrightarrow> recover_secret F (map (\<lambda>i. split_secret F s t n ! i) is) = Inr s)"

definition wrap_share :: "('s, 'p) frost_api \<Rightarrow> 's share \<Rightarrow> ShareWrap" where
  "wrap_share F s = \<lparr>wrap_x = share_x s, wrap_y_bytes = scalar_to_bytes F (share_y s)\<rparr>"

interpretation sh: hash_codec "\<lambda>s. share_arg (wrap_share F s)" "recover_share H F"
    "\<lambda>s. core_conversions H \<and> scalar_codec F"
  for H :: "'w rt" and F :: "('s, 'p) frost_api"
  by unfold_locales
    (auto simp: share_arg_def wrap_share_def recover_share_def core_conversionsD hash_fetch_def
      hash_get_hash_of exact32_str scalar_codec_def)

text \<open>\<open>recover\<close> on exported shares is the crate's \<open>recover_secret\<close> on the shares themselves.\<close>

lemma recover_exported:
  assumes "core_conversions H" "ruby_get H = None" "scalar_codec F"
  shows "recover H F (RArr (map (\<lambda>s. share_arg (wrap_share F s)) ss)) =
    map_ok (\<lambda>y. RStr (scalar_to_bytes F y)) (map_err (runtime H) (recover_secret F ss))"
  using assms sh.list_round_trip [of ss H F]
  by (cases "recover_secret F ss") (simp_all add: recover_def core_conversionsD bytes_to_rstring_def)

text \<open>C5: a secret split \<open>t\<close> of \<open>n\<close> comes back, byte for byte, from the exported Hashes of any \<open>t\<close>
  distinct shares.\<close>

theorem recover_split_secret:
  fixes H :: "'w rt" and F :: "('s, 'p) frost_api"
  assumes "core_conversions H" and "ruby_get H = None" and "scalar_codec F" and "shamir_threshold F"
    and "0 < t" and "split_secret_into_shares H F (RStr secret) t n = Inr ws"
    and "distinct is" and "set is \<subseteq> {..< length ws}" and "unat t \<le> length is"
  shows "recover H F (RArr (map (\<lambda>i. share_arg (ws ! i)) is)) = Inr (RStr secret)"
proof -
  from assms(6) obtain y where y: "scalar_from_bytes F secret = Some y"
    and len: "length secret = 32" and b: "bytes_from_value H (RStr secret) = Inr secret"
    and ws: "ws = map (wrap_share F) (split_secret F y t n)"
    using bytes_from_value_str [OF assms(1), of secret]
    by (fastforce simp: split_secret_into_shares_def res_iffs exact32_Inr wrap_share_def [abs_def]
        bytes_from_value_def core_conversionsD [OF assms(1)])
  let ?ss = "map (\<lambda>i. split_secret F y t n ! i) is"
  have m: "map (\<lambda>i. share_arg (ws ! i)) is = map (\<lambda>s. share_arg (wrap_share F s)) ?ss"
    using assms(8) by (auto simp: ws)
  have r: "recover_secret F ?ss = Inr y"
    using assms(4,5,7,8,9) by (simp add: shamir_threshold_def ws)
  have "scalar_to_bytes F y = secret"
    using assms(3) y by (simp add: scalar_codec_def)
  then show ?thesis unfolding m recover_exported [OF assms(1-3)] r by simp
qed

text \<open>A scheme in which every share carries the secret, one byte wide: it has both laws.\<close>

definition copy_frost :: "(u8, unit) frost_api" where
  "copy_frost =
     \<lparr>scalar_from_bytes = (\<lambda>b. if length b = 32 \<and> take 31 b = replicate 31 0 then Some (b ! 31) else None),
      scalar_to_bytes = (\<lambda>y. replicate 31 0 @ [y]),
      split_secret = (\<lambda>s t n. map (\<lambda>i. \<lparr>share_x = word_of_nat (Suc i), share_y = s\<rparr>) [0 ..< unat n]),
      recover_secret = (\<lambda>ss. case ss of [] \<Rightarrow> Inl ''no shares'' | s # _ \<Rightarrow> Inr (share_y s)),
      generate_keypair = ([], []),
      public_key_for = (\<lambda>s. ()),
      sign_message = (\<lambda>k m. Inl ''not supported'')\<rparr>"

lemma copy_frost_codec: "scalar_codec copy_frost"
proof -
  have "replicate 31 0 @ [b ! 31] = b" if "length b = 32" "take 31 b = replicate 31 0" for b :: bytes
    using that id_take_nth_drop [of 31 b] by simp
  then show ?thesis by (auto simp: scalar_codec_def copy_frost_def nth_append)
qed

lemma copy_frost_threshold: "shamir_threshold copy_frost"
proof -
  have "recover_secret copy_frost (map (\<lambda>i. split_secret copy_frost s t n ! i) is) = Inr s"
    if "0 < t" "set is \<subseteq> {..< length (split_secret copy_frost s t n)}" "unat t \<le> length is" for s t n "is"
  proof (cases "is")
    case Nil
    with that(1,3) show ?thesis by (simp add: word_gt_0 unat_eq_zero)
  next
    case (Cons i js)
    with that(2) show ?thesis by (simp add: copy_frost_def)
  qed
  then show ?thesis by (simp add: shamir_threshold_def)
qed

theorem recover_split_secret_witness:
  "recover (core_rt id :: unit rt) copy_frost
     (RArr (map (\<lambda>i. share_arg (map (\<lambda>i. \<lparr>wrap_x = word_of_nat (Suc i), wrap_y_bytes = replicate 31 0 @ [7]\<rparr>)
                                 [0 ..< 3] ! i)) [2, 0]))
   = Inr (RStr (replicate 31 0 @ [7]))"
proof -
  let ?H = "core_rt id :: unit rt"
  let ?ws = "map (\<lambda>i. \<lparr>wrap_x = word_of_nat (Suc i), wrap_y_bytes = replicate 31 0 @ [7]\<rparr>) [0 ..< 3]"
  have split: "split_secret_into_shares ?H copy_frost (RStr (replicate 31 0 @ [7])) 2 3 = Inr ?ws"
    by (simp add: split_secret_into_shares_def exact32_str core_rt_conversions copy_frost_def
        nth_append comp_def)
  show ?thesis
    by (rule recover_split_secret [OF core_rt_conversions _ copy_frost_codec copy_frost_threshold _ split])
      (simp_all add: core_rt_def)
qed

section \<open>ElGamal over the wire\<close>

lemma partial_decrypt_wire:
  assumes H: "core_conversions H" "ruby_get H = None"
    and small: "small share" "small (ct_c1 c)" "small (ct_c2 c)"
  shows "elgamal_partial_decrypt H G i (RStr share) (ciphertext_hash c) =
    map_ok partial_hash (map_err (\<lambda>e. crypto_error H e ''ElGamalP256.partial_decrypt'' ''elgamal-p256'')
      (partial_decrypt G (i, share) c))"
proof -
  have "bytes_from_value H (RStr share) = Inr share" "read_ciphertext H (ciphertext_hash c) = Inr c"
    using H small by (simp_all add: bytes_from_value_str small_def ct.round_trip)
  with H show ?thesis
    by (cases "partial_decrypt G (i, share) c") (simp_all add: elgamal_partial_decrypt_def)
qed

lemma aggregate_wire:
  assumes H: "core_conversions H" "ruby_get H = None"
    and small: "small (ct_c1 c)" "small (ct_c2 c)" "\<forall>d \<in> set ds. small (pd_bytes d)"
  shows "elgamal_aggregate H G (RArr (map partial_hash ds)) t (ciphertext_hash c) =
    map_ok RStr (map_err (\<lambda>e. crypto_error H e ''ElGamalP256.aggregate_partials'' ''elgamal-p256'')
      (aggregate_partials G ds t c))"
proof -
  have "collect (read_partial H) (map partial_hash ds) = Inr ds" "read_ciphertext H (ciphertext_hash c) = Inr c"
    using H small by (simp_all add: pd.list_round_trip ct.round_trip)
  with H show ?thesis
    by (cases "aggregate_partials G ds t c")
      (simp_all add: elgamal_aggregate_def core_conversionsD bytes_to_rstring_def)
qed

text \<open>C25: a threshold decryption run through Ruby Hashes, every partial decryption exported to a Hash
  and all of them read back by the aggregation, is the crate's own run on its own types, errors
  included: nothing is lost or changed on the wire.\<close>

theorem elgamal_wire_transparent:
  fixes H :: "'w rt"
  assumes "core_conversions H" and "ruby_get H = None"
    and "small (ct_c1 c)" and "small (ct_c2 c)"
    and "\<forall>(i, b) \<in> set parties. small b \<and> (\<forall>d. partial_decrypt G (i, b) c = Inr d \<longrightarrow> small (pd_bytes d))"
  shows "and_then (collect (\<lambda>(i, b). elgamal_partial_decrypt H G i (RStr b) (ciphertext_hash c)) parties)
           (\<lambda>hashes. elgamal_aggregate H G (RArr hashes) t (ciphertext_hash c)) =
         and_then (map_err (\<lambda>e. crypto_error H e ''ElGamalP256.partial_decrypt'' ''elgamal-p256'')
                     (collect (\<lambda>p. partial_decrypt G p c) parties))
           (\<lambda>ds. map_ok RStr (map_err (\<lambda>e. crypto_error H e ''ElGamalP256.aggregate_partials'' ''elgamal-p256'')
                     (aggregate_partials G ds t c)))"
proof -
  have "collect (\<lambda>(i, b). elgamal_partial_decrypt H G i (RStr b) (ciphertext_hash c)) parties =
      collect (\<lambda>p. map_ok partial_hash (map_err (\<lambda>e. crypto_error H e ''ElGamalP256.partial_decrypt''
        ''elgamal-p256'') (partial_decrypt G p c))) parties"
    using assms by (intro collect_cong) (auto simp: partial_decrypt_wire)
  then have wire: "collect (\<lambda>(i, b). elgamal_partial_decrypt H G i (RStr b) (ciphertext_hash c)) parties =
      map_ok (map partial_hash) (map_err (\<lambda>e. crypto_error H e ''ElGamalP256.partial_decrypt''
        ''elgamal-p256'') (collect (\<lambda>p. partial_decrypt G p c) parties))"
    by (simp only: collect_map_ok)
  show ?thesis
  proof (cases "collect (\<lambda>p. partial_decrypt G p c) parties")
    case (Inl e)
    then show ?thesis by (simp add: wire)
  next
    case (Inr ds)
    then have "\<forall>d \<in> set ds. small (pd_bytes d)"
      using assms(5) by (fastforce dest: collect_member)
    with assms Inr show ?thesis by (simp add: wire aggregate_wire)
  qed
qed

text \<open>An API whose partial decryption is the share itself and whose aggregate is their concatenation.\<close>

definition concat_elgamal :: elgamal_api where
  "concat_elgamal =
     \<lparr>encapsulate = (\<lambda>pk. Inr (\<lparr>ct_c1 = pk, ct_c2 = []\<rparr>, pk)),
      partial_decrypt = (\<lambda>(i, b) c. Inr \<lparr>pd_party_index = i, pd_bytes = b\<rparr>),
      aggregate_partials = (\<lambda>ds t c. if unat t \<le> length ds then Inr (concat (map pd_bytes ds)) else Inl ''too few'')\<rparr>"

lemma concat_elgamal_simps:
  "partial_decrypt concat_elgamal (i, b) c = Inr \<lparr>pd_party_index = i, pd_bytes = b\<rparr>"
  "aggregate_partials concat_elgamal ds t c =
     (if unat t \<le> length ds then Inr (concat (map pd_bytes ds)) else Inl ''too few'')"
  by (simp_all add: concat_elgamal_def)

theorem elgamal_wire_transparent_witness:
  "and_then (collect (\<lambda>(i, b). elgamal_partial_decrypt (core_rt id :: unit rt) concat_elgamal i (RStr b)
        (ciphertext_hash \<lparr>ct_c1 = [1], ct_c2 = [2]\<rparr>)) [(1, [10]), (2, [20])])
     (\<lambda>hashes. elgamal_aggregate (core_rt id :: unit rt) concat_elgamal (RArr hashes) 2
        (ciphertext_hash \<lparr>ct_c1 = [1], ct_c2 = [2]\<rparr>)) = Inr (RStr [10, 20])"
proof -
  have "ruby_get (core_rt id :: unit rt) = None" by (simp add: core_rt_def)
  from elgamal_wire_transparent [OF core_rt_conversions this, of "\<lparr>ct_c1 = [1], ct_c2 = [2]\<rparr>"
      "[(1, [10]), (2, [20])]" concat_elgamal 2]
  show ?thesis by (simp add: concat_elgamal_simps small_def MAX_INPUT_SIZE_def)
qed

section \<open>Refused signatures\<close>

lemma sign_args_length:
  assumes "core_conversions H" "sign_args H (RArr vs) mv = Inr (shares, msg)"
  shows "length shares = length vs"
  using assms by (auto simp: sign_args_def core_conversionsD res_iffs collect_length)

text \<open>When a driver refuses to sign, Ruby sees a \<open>ThresholdError\<close> with the driver's own message
  and, in its details, how many shares the caller passed and how many are needed.\<close>

lemma refused_signature_error:
  fixes H :: "'w rt"
  assumes "core_conversions H" and "host_has H ''ThresholdError''"
    and "sign_args H (RArr vs) mv = Inr (shares, msg)"
    and "inprocess_sign D shares t msg = Inl m"
  shows "fst (cmp20_sign H D (RArr vs) t mv s) =
           Inl (Exn (ConfiumClass ''ThresholdError'') m
             (hash_of [(''operation'', rstr ''Cmp20.sign''), (''have_count'', RInt (int (length vs))),
                       (''need_count'', RInt (int (unat t)))])) \<and>
         fst (gg18_sign H D (RArr vs) t mv s) =
           Inl (Exn (ConfiumClass ''ThresholdError'') m
             (hash_of [(''operation'', rstr ''Gg18.sign''), (''have_count'', RInt (int (length vs))),
                       (''need_count'', RInt (int (unat t)))]))"
  using assms sign_args_length [OF assms(1,3)]
  by (simp add: cmp20_sg.answer gg18_sg.answer outcome_def threshold_err.typed)

text \<open>A driver that signs by concatenation once it has \<open>t\<close> shares.\<close>

definition concat_driver :: inprocess_api where
  "concat_driver =
     \<lparr>inprocess_keygen = (\<lambda>t n. if unat t \<le> n then Inr \<lparr>kg_shares = replicate n [1], kg_public_key = [2]\<rparr>
                              else Inl ''threshold above party count''),
      inprocess_sign = (\<lambda>shares t msg. if unat t \<le> length shares then Inr (concat shares @ msg)
                              else Inl ''not enough shares'')\<rparr>"

lemma refused_signature_error_witness:
  "fst (cmp20_sign (core_rt id :: unit rt) concat_driver (RArr [RStr [1]]) 2 (RStr [9])
      \<lparr>sink_ivar = RNil, stderr_log = [], world = ()\<rparr>) =
     Inl (Exn (ConfiumClass ''ThresholdError'') ''not enough shares''
       (hash_of [(''operation'', rstr ''Cmp20.sign''), (''have_count'', RInt 1), (''need_count'', RInt 2)]))"
proof -
  have "sign_args (core_rt id :: unit rt) (RArr [RStr [1]]) (RStr [9]) = Inr ([[1]], [9])"
    by (simp add: sign_args_def core_conversionsD [OF core_rt_conversions]
        bytes_from_value_str [OF core_rt_conversions] MAX_INPUT_SIZE_def)
  moreover have "inprocess_sign concat_driver [[1]] 2 [9] = Inl ''not enough shares''"
    by (simp add: concat_driver_def)
  ultimately show ?thesis
    using refused_signature_error [OF core_rt_conversions core_rt_host_has] by fastforce
qed

end
