(* ===== verification/Gvl.thy ===== *)
theory Gvl
  imports Ruby_Host
begin

text \<open>
  \<^verbatim>\<open>ext/confium_native/src/gvl.rs\<close>: running a closure with the global VM lock released. The closure,
  an \<open>FnOnce\<close>, is a function of the state it captures; the box that carries it and its result to the
  trampoline is a record. \<open>expect\<close> on an empty box panics: in \<open>without_gvl\<close> the panic unwinds to Ruby, in the
  trampoline, an \<open>extern "C"\<close> function that no panic may leave, it aborts the process. \<open>rb_thread_call_without_gvl\<close> belongs to
  the Ruby VM and is a parameter: it is given the trampoline and runs it. \<open>released\<close> is how the other
  components call it, on a closure that only computes; an unwinding panic reaches Ruby as a fatal exception,
  and the end of the process is the value \<open>Exn ProcessAbort\<close>.
\<close>

section \<open>Definitions\<close>

record 'c gvl_state =
  gvl_held :: bool
  captured :: 'c

type_synonym ('c, 't) closure = "'c gvl_state \<Rightarrow> 't \<times> 'c gvl_state"

record ('c, 't) CallBox =
  box_func :: "('c, 't) closure option"
  box_out :: "'t option"

datatype panic = Unwind string | Abort string

type_synonym ('c, 't) thread_call =
  "(('c, 't) CallBox \<times> 'c gvl_state \<Rightarrow> panic + ('c, 't) CallBox \<times> 'c gvl_state)
     \<Rightarrow> ('c, 't) CallBox \<times> 'c gvl_state \<Rightarrow> panic + ('c, 't) CallBox \<times> 'c gvl_state"

fun trampoline :: "('c, 't) CallBox \<times> 'c gvl_state \<Rightarrow> panic + ('c, 't) CallBox \<times> 'c gvl_state" where
  "trampoline (bx, s) =
     (case box_func bx of
        None \<Rightarrow> Inl (Abort ''trampoline runs once'')
      | Some f \<Rightarrow>
          (let (v, s') = f s in Inr (bx\<lparr>box_func := None, box_out := Some v\<rparr>, s')))"

definition without_gvl ::
  "('c, 't) thread_call \<Rightarrow> ('c, 't) closure \<Rightarrow> 'c gvl_state \<Rightarrow> panic + 't \<times> 'c gvl_state" where
  "without_gvl rb_thread_call_without_gvl f s =
     and_then (rb_thread_call_without_gvl trampoline (\<lparr>box_func = Some f, box_out = None\<rparr>, s))
       (\<lambda>(bx, s'). case box_out bx of
          None \<Rightarrow> Inl (Unwind ''trampoline stored the result'')
        | Some v \<Rightarrow> Inr (v, s'))"

text \<open>\<open>unsafe { without_gvl(|| e) }\<close> for a closure that only computes \<open>e\<close>.\<close>

definition released :: "(unit, 't) thread_call \<Rightarrow> 't \<Rightarrow> 't res" where
  "released rb_thread_call_without_gvl v =
     map_ok fst (map_err (\<lambda>p. case p of Unwind m \<Rightarrow> Exn Fatal m [] | Abort m \<Rightarrow> Exn ProcessAbort m [])
       (without_gvl rb_thread_call_without_gvl (\<lambda>s. (v, s)) \<lparr>gvl_held = True, captured = ()\<rparr>))"

text \<open>A VM that releases the lock, runs the callback \<open>n\<close> times and takes the lock again. The
  MRI documents \<open>n = 1\<close>.\<close>

fun repeat_call :: "nat \<Rightarrow> ('a \<Rightarrow> panic + 'a) \<Rightarrow> 'a \<Rightarrow> panic + 'a" where
  "repeat_call 0 f x = Inr x"
| "repeat_call (Suc n) f x = and_then (f x) (repeat_call n f)"

definition vm_calls :: "nat \<Rightarrow> ('c, 't) thread_call" where
  "vm_calls n f x =
     map_ok (\<lambda>(bx, s). (bx, s\<lparr>gvl_held := True\<rparr>))
       (repeat_call n f (fst x, (snd x)\<lparr>gvl_held := False\<rparr>))"

section \<open>The closure runs exactly once\<close>

lemma repeat_trampoline_empty:
  "box_func bx = None \<Longrightarrow> repeat_call (Suc n) trampoline (bx, s) = Inl (Abort ''trampoline runs once'')"
  by simp

lemma without_gvl_once:
  "without_gvl (vm_calls 1) f s =
     (let (v, s') = f (s\<lparr>gvl_held := False\<rparr>) in Inr (v, s'\<lparr>gvl_held := True\<rparr>))"
  by (simp add: without_gvl_def vm_calls_def One_nat_def del: One_nat_def split: prod.split)
    (simp add: One_nat_def split: prod.split)

lemma without_gvl_never: "without_gvl (vm_calls 0) f s = Inl (Unwind ''trampoline stored the result'')"
  by (simp add: without_gvl_def vm_calls_def)

lemma without_gvl_twice:
  "without_gvl (vm_calls (Suc (Suc n))) f s = Inl (Abort ''trampoline runs once'')"
proof -
  obtain v s' where "f (s\<lparr>gvl_held := False\<rparr>) = (v, s')" by (cases "f (s\<lparr>gvl_held := False\<rparr>)")
  then show ?thesis
    by (simp add: without_gvl_def vm_calls_def Let_def)
qed

lemma released_once [simp]: "released (vm_calls 1) v = Inr v"
  by (simp add: released_def without_gvl_once [unfolded One_nat_def])

text \<open>C24: for a VM that runs the callback \<open>n\<close> times, the call returns exactly when \<open>n = 1\<close>; the
  closure then ran with the lock released, its value is returned and the lock is held again. A VM that never
  runs it gets a panic, and one that runs it a second time the abort of the process.\<close>

theorem without_gvl_runs_exactly_once:
  "without_gvl (vm_calls n) f s =
     (if n = 1 then (let (v, s') = f (s\<lparr>gvl_held := False\<rparr>) in Inr (v, s'\<lparr>gvl_held := True\<rparr>))
      else if n = 0 then Inl (Unwind ''trampoline stored the result'')
      else Inl (Abort ''trampoline runs once''))"
proof -
  consider "n = 0" | "n = 1" | m where "n = Suc (Suc m)"
    by (metis One_nat_def not0_implies_Suc)
  then show ?thesis
    by cases (simp_all add: without_gvl_never without_gvl_twice without_gvl_once [unfolded One_nat_def])
qed

end
