(* ===== verification/Tc_Mta.thy ===== *)
theory Tc_Mta
  imports Audit_Trail Gvl
begin

text \<open>
  \<^verbatim>\<open>ext/confium_native/src/tc_mta.rs\<close>: the proved multiplicative-to-additive conversion. Keys and
  messages travel between the parties as Hashes of hexadecimal integers. A \<open>BigUint\<close> is a natural
  number; its radix-16 parser and printer (num-bigint), the Paillier and commitment-key generators
  and the three passes of the protocol belong to their crates and are fields of \<open>mta_api\<close>.
\<close>

section \<open>Parameters: the crates\<close>

record PaillierPublicKey =
  pp_n :: nat
  pp_n_squared :: nat
  pp_g :: nat

record PaillierPrivateKey =
  pv_lambda :: nat
  pv_mu :: nat

record PaillierKeypair =
  kp_public :: PaillierPublicKey
  kp_private :: PaillierPrivateKey

record CommitmentKey =
  ck_n_tilde :: nat
  ck_h1 :: nat
  ck_h2 :: nat

record RangeProof =
  rg_z :: nat
  rg_u :: nat
  rg_w :: nat
  rg_s :: nat
  rg_s1 :: nat
  rg_s2 :: nat

record RespondentProof =
  rs_z :: nat
  rs_z_prime :: nat
  rs_t :: nat
  rs_v :: nat
  rs_w :: nat
  rs_s :: nat
  rs_s1 :: nat
  rs_s2 :: nat
  rs_t1 :: nat
  rs_t2 :: nat

record ProvedMessage1 =
  m1_ciphertext :: nat
  m1_range_proof :: RangeProof

record ProvedMessage2 =
  m2_ciphertext :: nat
  m2_respondent_proof :: RespondentProof
  m2_beta :: nat

record mta_api =
  from_str_radix16 :: "string \<Rightarrow> nat option"
  to_str_radix16 :: "nat \<Rightarrow> string"
  generate_paillier_keypair :: "u32 \<Rightarrow> PaillierKeypair"
  generate_commitment_key :: "u32 \<Rightarrow> CommitmentKey"
  party_i_init_proved :: "PaillierPublicKey \<Rightarrow> CommitmentKey \<Rightarrow> nat \<Rightarrow> nat \<Rightarrow> string + ProvedMessage1"
  party_j_respond_proved ::
    "PaillierPublicKey \<Rightarrow> CommitmentKey \<Rightarrow> CommitmentKey \<Rightarrow> nat \<Rightarrow> ProvedMessage1 \<Rightarrow> nat
       \<Rightarrow> string + ProvedMessage2 \<times> nat"
  party_i_finish_proved ::
    "PaillierPublicKey \<Rightarrow> CommitmentKey \<Rightarrow> nat \<Rightarrow> nat \<Rightarrow> PaillierPrivateKey \<Rightarrow> ProvedMessage2 \<Rightarrow> string + nat"
  full_mta_proved ::
    "PaillierKeypair \<Rightarrow> CommitmentKey \<Rightarrow> CommitmentKey \<Rightarrow> nat \<Rightarrow> nat \<Rightarrow> nat \<Rightarrow> string + nat \<times> nat"

section \<open>Fields\<close>

definition ALGORITHM :: string where
  "ALGORITHM = ''CMP20-ECDSA-P256''"

definition quoted :: "string \<Rightarrow> string" where
  "quoted k = [CHR 0x22] @ k @ [CHR 0x22]"

definition parse_hex :: "'w rt \<Rightarrow> mta_api \<Rightarrow> string \<Rightarrow> string \<Rightarrow> nat res" where
  "parse_hex H M v what =
     ok_or (arg_error H (what @ '' must be a hex integer'')) (from_str_radix16 M (trim v))"

definition hex_string :: "mta_api \<Rightarrow> nat \<Rightarrow> rvalue" where
  "hex_string M v = rstr (to_str_radix16 M v)"

definition string_field :: "'w rt \<Rightarrow> rhash \<Rightarrow> string \<Rightarrow> string res" where
  "string_field H h key =
     and_then (ok_or (arg_error H (''missing field '' @ quoted key)) (hash_get h key)) (\<lambda>v.
     map_err (\<lambda>_. arg_error H (''field '' @ quoted key @ '' must be a String'')) (conv_string H v))"

definition hash_field :: "'w rt \<Rightarrow> rhash \<Rightarrow> string \<Rightarrow> rhash res" where
  "hash_field H h key =
     and_then (ok_or (arg_error H (''missing field '' @ quoted key)) (hash_get h key)) (\<lambda>v.
     map_err (\<lambda>_. arg_error H (''field '' @ quoted key @ '' must be a Hash'')) (conv_hash H v))"

text \<open>\<open>parse_hex(&string_field(hash, key)?, what)?\<close>.\<close>

definition hex_field :: "'w rt \<Rightarrow> mta_api \<Rightarrow> rhash \<Rightarrow> string \<Rightarrow> string \<Rightarrow> nat res" where
  "hex_field H M h key what = and_then (string_field H h key) (\<lambda>s. parse_hex H M s what)"

definition set_hex :: "mta_api \<Rightarrow> string \<Rightarrow> nat \<Rightarrow> rhash \<Rightarrow> rhash" where
  "set_hex M key v h = hash_aset (rstr key) (hex_string M v) h"

definition check_prime_bits :: "'w rt \<Rightarrow> i64 \<Rightarrow> u32 res" where
  "check_prime_bits H prime_bits =
     (if \<not> (64 \<le> sint prime_bits \<and> sint prime_bits \<le> 8192)
      then Inl (arg_error H (''prime_bits must be between 64 and 8192, got '' @ show_int (sint prime_bits)))
      else Inr (ucast prime_bits))"

section \<open>Key codecs\<close>

definition public_from_hash :: "'w rt \<Rightarrow> mta_api \<Rightarrow> rhash \<Rightarrow> PaillierPublicKey res" where
  "public_from_hash H M h =
     and_then (hex_field H M h ''n'' ''public key n'') (\<lambda>n.
     and_then (hex_field H M h ''n_squared'' ''public key n_squared'') (\<lambda>n_squared.
     and_then (hex_field H M h ''g'' ''public key g'') (\<lambda>g.
     Inr \<lparr>pp_n = n, pp_n_squared = n_squared, pp_g = g\<rparr>)))"

definition private_from_hash :: "'w rt \<Rightarrow> mta_api \<Rightarrow> rhash \<Rightarrow> PaillierPrivateKey res" where
  "private_from_hash H M h =
     and_then (hex_field H M h ''lambda'' ''private key lambda'') (\<lambda>lambda.
     and_then (hex_field H M h ''mu'' ''private key mu'') (\<lambda>mu.
     Inr \<lparr>pv_lambda = lambda, pv_mu = mu\<rparr>))"

definition public_to_hash :: "mta_api \<Rightarrow> PaillierPublicKey \<Rightarrow> rhash" where
  "public_to_hash M p =
     set_hex M ''g'' (pp_g p) (set_hex M ''n_squared'' (pp_n_squared p) (set_hex M ''n'' (pp_n p) []))"

definition private_to_hash :: "mta_api \<Rightarrow> PaillierPrivateKey \<Rightarrow> rhash" where
  "private_to_hash M p = set_hex M ''mu'' (pv_mu p) (set_hex M ''lambda'' (pv_lambda p) [])"

definition keypair_to_hash :: "mta_api \<Rightarrow> PaillierKeypair \<Rightarrow> rhash" where
  "keypair_to_hash M kp =
     hash_of [(''public'', RHash (public_to_hash M (kp_public kp))),
              (''private'', RHash (private_to_hash M (kp_private kp)))]"

definition commitment_key_from_hash :: "'w rt \<Rightarrow> mta_api \<Rightarrow> rhash \<Rightarrow> CommitmentKey res" where
  "commitment_key_from_hash H M h =
     and_then (hex_field H M h ''n_tilde'' ''commitment key n_tilde'') (\<lambda>n_tilde.
     and_then (hex_field H M h ''h1'' ''commitment key h1'') (\<lambda>h1.
     and_then (hex_field H M h ''h2'' ''commitment key h2'') (\<lambda>h2.
     Inr \<lparr>ck_n_tilde = n_tilde, ck_h1 = h1, ck_h2 = h2\<rparr>)))"

definition commitment_key_to_hash :: "mta_api \<Rightarrow> CommitmentKey \<Rightarrow> rhash" where
  "commitment_key_to_hash M ck =
     set_hex M ''h2'' (ck_h2 ck) (set_hex M ''h1'' (ck_h1 ck) (set_hex M ''n_tilde'' (ck_n_tilde ck) []))"

section \<open>Message codecs\<close>

definition range_proof_from_hash :: "'w rt \<Rightarrow> mta_api \<Rightarrow> rhash \<Rightarrow> RangeProof res" where
  "range_proof_from_hash H M h =
     and_then (hex_field H M h ''z'' ''range proof z'') (\<lambda>z.
     and_then (hex_field H M h ''u'' ''range proof u'') (\<lambda>u.
     and_then (hex_field H M h ''w'' ''range proof w'') (\<lambda>w.
     and_then (hex_field H M h ''s'' ''range proof s'') (\<lambda>s.
     and_then (hex_field H M h ''s1'' ''range proof s1'') (\<lambda>s1.
     and_then (hex_field H M h ''s2'' ''range proof s2'') (\<lambda>s2.
     Inr \<lparr>rg_z = z, rg_u = u, rg_w = w, rg_s = s, rg_s1 = s1, rg_s2 = s2\<rparr>))))))"

definition range_proof_to_hash :: "mta_api \<Rightarrow> RangeProof \<Rightarrow> rhash" where
  "range_proof_to_hash M p =
     (let h = set_hex M ''z'' (rg_z p) [];
          h = set_hex M ''u'' (rg_u p) h;
          h = set_hex M ''w'' (rg_w p) h;
          h = set_hex M ''s'' (rg_s p) h;
          h = set_hex M ''s1'' (rg_s1 p) h
      in set_hex M ''s2'' (rg_s2 p) h)"

definition respondent_proof_from_hash :: "'w rt \<Rightarrow> mta_api \<Rightarrow> rhash \<Rightarrow> RespondentProof res" where
  "respondent_proof_from_hash H M h =
     and_then (hex_field H M h ''z'' ''respondent proof z'') (\<lambda>z.
     and_then (hex_field H M h ''z_prime'' ''respondent proof z_prime'') (\<lambda>z_prime.
     and_then (hex_field H M h ''t'' ''respondent proof t'') (\<lambda>t.
     and_then (hex_field H M h ''v'' ''respondent proof v'') (\<lambda>v.
     and_then (hex_field H M h ''w'' ''respondent proof w'') (\<lambda>w.
     and_then (hex_field H M h ''s'' ''respondent proof s'') (\<lambda>s.
     and_then (hex_field H M h ''s1'' ''respondent proof s1'') (\<lambda>s1.
     and_then (hex_field H M h ''s2'' ''respondent proof s2'') (\<lambda>s2.
     and_then (hex_field H M h ''t1'' ''respondent proof t1'') (\<lambda>t1.
     and_then (hex_field H M h ''t2'' ''respondent proof t2'') (\<lambda>t2.
     Inr \<lparr>rs_z = z, rs_z_prime = z_prime, rs_t = t, rs_v = v, rs_w = w, rs_s = s, rs_s1 = s1,
          rs_s2 = s2, rs_t1 = t1, rs_t2 = t2\<rparr>))))))))))"

definition respondent_proof_to_hash :: "mta_api \<Rightarrow> RespondentProof \<Rightarrow> rhash" where
  "respondent_proof_to_hash M p =
     (let h = set_hex M ''z'' (rs_z p) [];
          h = set_hex M ''z_prime'' (rs_z_prime p) h;
          h = set_hex M ''t'' (rs_t p) h;
          h = set_hex M ''v'' (rs_v p) h;
          h = set_hex M ''w'' (rs_w p) h;
          h = set_hex M ''s'' (rs_s p) h;
          h = set_hex M ''s1'' (rs_s1 p) h;
          h = set_hex M ''s2'' (rs_s2 p) h;
          h = set_hex M ''t1'' (rs_t1 p) h
      in set_hex M ''t2'' (rs_t2 p) h)"

definition msg1_from_hash :: "'w rt \<Rightarrow> mta_api \<Rightarrow> rhash \<Rightarrow> ProvedMessage1 res" where
  "msg1_from_hash H M h =
     and_then (hex_field H M h ''ciphertext'' ''message 1 ciphertext'') (\<lambda>c.
     and_then (and_then (hash_field H h ''range_proof'') (range_proof_from_hash H M)) (\<lambda>p.
     Inr \<lparr>m1_ciphertext = c, m1_range_proof = p\<rparr>))"

definition msg1_to_hash :: "mta_api \<Rightarrow> ProvedMessage1 \<Rightarrow> rhash" where
  "msg1_to_hash M m =
     hash_aset (rstr ''range_proof'') (RHash (range_proof_to_hash M (m1_range_proof m)))
       (set_hex M ''ciphertext'' (m1_ciphertext m) [])"

definition msg2_from_hash :: "'w rt \<Rightarrow> mta_api \<Rightarrow> rhash \<Rightarrow> ProvedMessage2 res" where
  "msg2_from_hash H M h =
     and_then (hex_field H M h ''ciphertext'' ''message 2 ciphertext'') (\<lambda>c.
     and_then (and_then (hash_field H h ''respondent_proof'') (respondent_proof_from_hash H M)) (\<lambda>p.
     and_then (hex_field H M h ''beta'' ''message 2 beta'') (\<lambda>b.
     Inr \<lparr>m2_ciphertext = c, m2_respondent_proof = p, m2_beta = b\<rparr>)))"

definition msg2_to_hash :: "mta_api \<Rightarrow> ProvedMessage2 \<Rightarrow> rhash" where
  "msg2_to_hash M m =
     set_hex M ''beta'' (m2_beta m)
       (hash_aset (rstr ''respondent_proof'') (RHash (respondent_proof_to_hash M (m2_respondent_proof m)))
          (set_hex M ''ciphertext'' (m2_ciphertext m) []))"

section \<open>Operations\<close>

definition mta_error_class :: "'w rt \<Rightarrow> exc_class" where
  "mta_error_class H =
     (if const_module H [''Confium''] \<and> const_module H [''Confium'', ''TC''] \<and>
         const_module H [''Confium'', ''TC'', ''Cmp20''] \<and>
         const_exception H [''Confium'', ''TC'', ''Cmp20'', ''MTA_ERROR'']
      then NestedClass [''Confium'', ''TC'', ''Cmp20'', ''MTA_ERROR''] else RuntimeError)"

text \<open>\<open>.map_err(|e| mta_error(ruby, operation, e))?\<close>, then the \<open>success\<close> event and the result.\<close>

definition mta_error :: "'w rt \<Rightarrow> string \<Rightarrow> exn" where
  "mta_error H message = Exn (mta_error_class H) message []"

definition mta_outcome ::
  "'w rt \<Rightarrow> string \<Rightarrow> ('a \<Rightarrow> rvalue) \<Rightarrow> string + 'a \<Rightarrow> 'w vm \<Rightarrow> rvalue res \<times> 'w vm" where
  "mta_outcome H operation render r =
     audited H operation ALGORITHM None (mta_error H) (\<lambda>x. Inr (render x)) r"

definition mta_generate_keypair ::
  "'w rt \<Rightarrow> mta_api \<Rightarrow> (unit, PaillierKeypair) thread_call \<Rightarrow> i64 \<Rightarrow> 'w vm \<Rightarrow> rvalue res \<times> 'w vm" where
  "mta_generate_keypair H M tc prime_bits =
     guarded
       (and_then (check_prime_bits H prime_bits) (\<lambda>bits.
        released tc (generate_paillier_keypair M bits)))
       (\<lambda>kp. mta_outcome H ''tc_cmp20_mta_keypair'' (\<lambda>k. RHash (keypair_to_hash M k)) (Inr kp))"

definition mta_generate_commitment_key ::
  "'w rt \<Rightarrow> mta_api \<Rightarrow> (unit, CommitmentKey) thread_call \<Rightarrow> i64 \<Rightarrow> 'w vm \<Rightarrow> rvalue res \<times> 'w vm" where
  "mta_generate_commitment_key H M tc prime_bits =
     guarded
       (and_then (check_prime_bits H prime_bits) (\<lambda>bits.
        released tc (generate_commitment_key M bits)))
       (\<lambda>ck. mta_outcome H ''tc_cmp20_mta_commitment_key'' (\<lambda>k. RHash (commitment_key_to_hash M k)) (Inr ck))"

definition mta_party_i_init ::
  "'w rt \<Rightarrow> mta_api \<Rightarrow> rhash \<Rightarrow> rhash \<Rightarrow> string \<Rightarrow> string \<Rightarrow> 'w vm \<Rightarrow> rvalue res \<times> 'w vm" where
  "mta_party_i_init H M i_public ck_j q k_i =
     guarded
       (and_then (public_from_hash H M i_public) (\<lambda>public.
        and_then (commitment_key_from_hash H M ck_j) (\<lambda>ck.
        and_then (parse_hex H M q ''q'') (\<lambda>q.
        and_then (parse_hex H M k_i ''k_i'') (\<lambda>k_i.
        Inr (party_i_init_proved M public ck q k_i))))))
       (mta_outcome H ''tc_cmp20_mta_init'' (\<lambda>msg. RHash (msg1_to_hash M msg)))"

definition mta_party_j_respond ::
  "'w rt \<Rightarrow> mta_api \<Rightarrow> rhash \<Rightarrow> rhash \<Rightarrow> rhash \<Rightarrow> string \<Rightarrow> rhash \<Rightarrow> string \<Rightarrow> 'w vm \<Rightarrow> rvalue res \<times> 'w vm" where
  "mta_party_j_respond H M i_public ck_i ck_j q msg1 x_j =
     guarded
       (and_then (public_from_hash H M i_public) (\<lambda>public.
        and_then (commitment_key_from_hash H M ck_i) (\<lambda>ck_i.
        and_then (commitment_key_from_hash H M ck_j) (\<lambda>ck_j.
        and_then (parse_hex H M q ''q'') (\<lambda>q.
        and_then (msg1_from_hash H M msg1) (\<lambda>msg1.
        and_then (parse_hex H M x_j ''x_j'') (\<lambda>x_j.
        Inr (party_j_respond_proved M public ck_i ck_j q msg1 x_j))))))))
       (mta_outcome H ''tc_cmp20_mta_respond''
          (\<lambda>(msg2, beta). RArr [RHash (msg2_to_hash M msg2), hex_string M beta]))"

definition mta_party_i_finish ::
  "'w rt \<Rightarrow> mta_api \<Rightarrow> rhash \<Rightarrow> rhash \<Rightarrow> rhash \<Rightarrow> string \<Rightarrow> string \<Rightarrow> rhash \<Rightarrow> 'w vm \<Rightarrow> rvalue res \<times> 'w vm" where
  "mta_party_i_finish H M i_public i_private ck_i q msg1_ciphertext msg2 =
     guarded
       (and_then (public_from_hash H M i_public) (\<lambda>public.
        and_then (private_from_hash H M i_private) (\<lambda>private.
        and_then (commitment_key_from_hash H M ck_i) (\<lambda>ck_i.
        and_then (parse_hex H M q ''q'') (\<lambda>q.
        and_then (parse_hex H M msg1_ciphertext ''message 1 ciphertext'') (\<lambda>ciphertext.
        and_then (msg2_from_hash H M msg2) (\<lambda>msg2.
        Inr (party_i_finish_proved M public ck_i q ciphertext private msg2))))))))
       (mta_outcome H ''tc_cmp20_mta_finish'' (hex_string M))"

definition mta_full ::
  "'w rt \<Rightarrow> mta_api \<Rightarrow> rhash \<Rightarrow> rhash \<Rightarrow> rhash \<Rightarrow> rhash \<Rightarrow> string \<Rightarrow> string \<Rightarrow> string \<Rightarrow> 'w vm
     \<Rightarrow> rvalue res \<times> 'w vm" where
  "mta_full H M i_public i_private ck_i ck_j q k_i x_j =
     guarded
       (and_then (public_from_hash H M i_public) (\<lambda>public.
        and_then (private_from_hash H M i_private) (\<lambda>private.
        and_then (commitment_key_from_hash H M ck_i) (\<lambda>ck_i.
        and_then (commitment_key_from_hash H M ck_j) (\<lambda>ck_j.
        and_then (parse_hex H M q ''q'') (\<lambda>q.
        and_then (parse_hex H M k_i ''k_i'') (\<lambda>k_i.
        and_then (parse_hex H M x_j ''x_j'') (\<lambda>x_j.
        Inr (full_mta_proved M \<lparr>kp_public = public, kp_private = private\<rparr> ck_i ck_j q k_i x_j)))))))))
       (mta_outcome H ''tc_cmp20_mta_full'' (\<lambda>(alpha, beta). RArr [hex_string M alpha, hex_string M beta]))"

section \<open>Hexadecimal fields\<close>

text \<open>What num-bigint documents of its radix-16 printer and parser.\<close>

definition bigint_radix :: "mta_api \<Rightarrow> bool" where
  "bigint_radix M \<longleftrightarrow>
     (\<forall>n. list_all hex_char (to_str_radix16 M n) \<and> from_str_radix16 M (to_str_radix16 M n) = Some n)"

definition wire_ok :: "'w rt \<Rightarrow> mta_api \<Rightarrow> bool" where
  "wire_ok H M \<longleftrightarrow> core_conversions H \<and> bigint_radix M"

lemma hex_char_ascii: "hex_char c \<Longrightarrow> of_char c < (128::nat)"
  by (auto simp: hex_char_def hex_value_def Let_def split: if_splits)

lemma parse_hex_printed: "wire_ok H M \<Longrightarrow> parse_hex H M (to_str_radix16 M n) what = Inr n"
  by (simp add: parse_hex_def wire_ok_def bigint_radix_def trim_hex list_all_iff)

lemma conv_string_hex: "wire_ok H M \<Longrightarrow> conv_string H (hex_string M n) = Inr (to_str_radix16 M n)"
  unfolding hex_string_def wire_ok_def bigint_radix_def
  by (intro core_conversionsD(4)) (auto simp: ascii_def list_all_iff hex_char_ascii)

lemma hash_get_set_hex [simp]:
  "hash_get (set_hex M k v h) k' = (if k' = k then Some (hex_string M v) else hash_get h k')"
  by (simp add: set_hex_def)

lemmas hex_field_simps = hex_field_def string_field_def hash_field_def conv_string_hex
  parse_hex_printed Let_def

lemma wire_ok_hash: "wire_ok H M \<Longrightarrow> conv_hash H (RHash h) = Inr h"
  by (simp add: wire_ok_def core_conversionsD)

section \<open>Keys and messages survive the wire\<close>

interpretation pub: hash_codec "public_to_hash M" "public_from_hash H M" "\<lambda>_. wire_ok H M"
  for H :: "'w rt" and M
  by unfold_locales (simp add: public_to_hash_def public_from_hash_def hex_field_simps)

interpretation priv: hash_codec "private_to_hash M" "private_from_hash H M" "\<lambda>_. wire_ok H M"
  for H :: "'w rt" and M
  by unfold_locales (simp add: private_to_hash_def private_from_hash_def hex_field_simps)

interpretation ckey: hash_codec "commitment_key_to_hash M" "commitment_key_from_hash H M" "\<lambda>_. wire_ok H M"
  for H :: "'w rt" and M
  by unfold_locales (simp add: commitment_key_to_hash_def commitment_key_from_hash_def hex_field_simps)

interpretation rgp: hash_codec "range_proof_to_hash M" "range_proof_from_hash H M" "\<lambda>_. wire_ok H M"
  for H :: "'w rt" and M
  by unfold_locales (simp add: range_proof_to_hash_def range_proof_from_hash_def hex_field_simps)

interpretation rsp: hash_codec "respondent_proof_to_hash M" "respondent_proof_from_hash H M" "\<lambda>_. wire_ok H M"
  for H :: "'w rt" and M
  by unfold_locales (simp add: respondent_proof_to_hash_def respondent_proof_from_hash_def hex_field_simps)

interpretation msg1: hash_codec "msg1_to_hash M" "msg1_from_hash H M" "\<lambda>_. wire_ok H M"
  for H :: "'w rt" and M
  by unfold_locales
    (simp add: msg1_to_hash_def msg1_from_hash_def hex_field_simps wire_ok_hash rgp.round_trip)

interpretation msg2: hash_codec "msg2_to_hash M" "msg2_from_hash H M" "\<lambda>_. wire_ok H M"
  for H :: "'w rt" and M
  by unfold_locales
    (simp add: msg2_to_hash_def msg2_from_hash_def hex_field_simps wire_ok_hash rsp.round_trip)

lemmas wire_round_trips = pub.round_trip priv.round_trip ckey.round_trip msg1.round_trip
  msg2.round_trip parse_hex_printed

section \<open>The passes on wire values are the crate's passes\<close>

lemma mta_outcome_answer [simp]:
  "fst (mta_outcome H opn render r s) = map_ok render (map_err (mta_error H) r)"
  by (cases r) (simp_all add: mta_outcome_def audited_def)

lemma guarded_Inr [simp]: "guarded (Inr x) k s = k x s"
  by (simp add: guarded_def)

lemma init_wire:
  "wire_ok H M \<Longrightarrow>
     mta_party_i_init H M (public_to_hash M pk) (commitment_key_to_hash M cj) (to_str_radix16 M q)
       (to_str_radix16 M k) =
     mta_outcome H ''tc_cmp20_mta_init'' (\<lambda>msg. RHash (msg1_to_hash M msg)) (party_i_init_proved M pk cj q k)"
  by (rule ext) (simp add: mta_party_i_init_def wire_round_trips)

lemma respond_wire:
  "wire_ok H M \<Longrightarrow>
     mta_party_j_respond H M (public_to_hash M pk) (commitment_key_to_hash M ci) (commitment_key_to_hash M cj)
       (to_str_radix16 M q) (msg1_to_hash M m1) (to_str_radix16 M x) =
     mta_outcome H ''tc_cmp20_mta_respond''
       (\<lambda>(msg2, beta). RArr [RHash (msg2_to_hash M msg2), hex_string M beta])
       (party_j_respond_proved M pk ci cj q m1 x)"
  by (rule ext) (simp add: mta_party_j_respond_def wire_round_trips)

lemma finish_wire:
  "wire_ok H M \<Longrightarrow>
     mta_party_i_finish H M (public_to_hash M pk) (private_to_hash M sk) (commitment_key_to_hash M ci)
       (to_str_radix16 M q) (to_str_radix16 M c) (msg2_to_hash M m2) =
     mta_outcome H ''tc_cmp20_mta_finish'' (hex_string M) (party_i_finish_proved M pk ci q c sk m2)"
  by (rule ext) (simp add: mta_party_i_finish_def wire_round_trips)

lemma full_wire:
  "wire_ok H M \<Longrightarrow>
     mta_full H M (public_to_hash M pk) (private_to_hash M sk) (commitment_key_to_hash M ci)
       (commitment_key_to_hash M cj) (to_str_radix16 M q) (to_str_radix16 M k) (to_str_radix16 M x) =
     mta_outcome H ''tc_cmp20_mta_full'' (\<lambda>(alpha, beta). RArr [hex_string M alpha, hex_string M beta])
       (full_mta_proved M \<lparr>kp_public = pk, kp_private = sk\<rparr> ci cj q k x)"
  by (rule ext) (simp add: mta_full_def wire_round_trips)

text \<open>The exchange as a Ruby program runs it across processes: the first message goes to the
  responder, its first answer comes back, its second answer is the responder's own share. The state
  is threaded through the three calls.\<close>

definition mta_rounds ::
  "'w rt \<Rightarrow> mta_api \<Rightarrow> rhash \<Rightarrow> rhash \<Rightarrow> rhash \<Rightarrow> rhash \<Rightarrow> string \<Rightarrow> string \<Rightarrow> string \<Rightarrow> 'w vm \<Rightarrow> rvalue res" where
  "mta_rounds H M i_public i_private ck_i ck_j q k_i x_j s =
     (let (r1, s1) = mta_party_i_init H M i_public ck_j q k_i s in
      and_then (and_then r1 (conv_hash H)) (\<lambda>msg1.
      and_then (string_field H msg1 ''ciphertext'') (\<lambda>c1.
      (let (r2, s2) = mta_party_j_respond H M i_public ck_i ck_j q msg1 x_j s1 in
       and_then (and_then r2 (conv_array H)) (\<lambda>out.
       and_then (conv_hash H (out ! 0)) (\<lambda>msg2.
       map_ok (\<lambda>alpha. RArr [alpha, out ! 1])
         (fst (mta_party_i_finish H M i_public i_private ck_i q c1 msg2 s2))))))))"

text \<open>What the crate documents of \<open>full_mta_proved\<close>: it runs the three passes in one process.\<close>

definition full_runs_passes :: "mta_api \<Rightarrow> bool" where
  "full_runs_passes M \<longleftrightarrow>
     (\<forall>pk sk ci cj q k x.
        full_mta_proved M \<lparr>kp_public = pk, kp_private = sk\<rparr> ci cj q k x =
        and_then (party_i_init_proved M pk cj q k) (\<lambda>m1.
        and_then (party_j_respond_proved M pk ci cj q m1 x) (\<lambda>(m2, beta).
        and_then (party_i_finish_proved M pk ci q (m1_ciphertext m1) sk m2) (\<lambda>alpha.
        Inr (alpha, beta)))))"

lemma msg1_ciphertext_field:
  "wire_ok H M \<Longrightarrow> string_field H (msg1_to_hash M m1) ''ciphertext'' = Inr (to_str_radix16 M (m1_ciphertext m1))"
  by (simp add: msg1_to_hash_def string_field_def conv_string_hex)

lemma wire_ok_array: "wire_ok H M \<Longrightarrow> conv_array H (RArr vs) = Inr vs"
  by (simp add: wire_ok_def core_conversionsD)

text \<open>C10: running the exchange as three calls that pass Hashes gives the answer of the one-call
  \<open>full\<close>, the same shares or the same exception, whatever the state and the audit sink.\<close>

theorem mta_rounds_eq_full:
  fixes H :: "'w rt"
  assumes "core_conversions H" and "bigint_radix M" and "full_runs_passes M"
  shows "mta_rounds H M (public_to_hash M pk) (private_to_hash M sk) (commitment_key_to_hash M ci)
           (commitment_key_to_hash M cj) (to_str_radix16 M q) (to_str_radix16 M k) (to_str_radix16 M x) s =
         fst (mta_full H M (public_to_hash M pk) (private_to_hash M sk) (commitment_key_to_hash M ci)
           (commitment_key_to_hash M cj) (to_str_radix16 M q) (to_str_radix16 M k) (to_str_radix16 M x) s')"
proof -
  have w: "wire_ok H M" using assms by (simp add: wire_ok_def)
  note wire = init_wire [OF w] respond_wire [OF w] finish_wire [OF w] full_wire [OF w]
    wire_ok_hash [OF w] wire_ok_array [OF w] msg1_ciphertext_field [OF w]
  have full: "full_mta_proved M \<lparr>kp_public = pk, kp_private = sk\<rparr> ci cj q k x =
      and_then (party_i_init_proved M pk cj q k) (\<lambda>m1.
      and_then (party_j_respond_proved M pk ci cj q m1 x) (\<lambda>(m2, beta).
      and_then (party_i_finish_proved M pk ci q (m1_ciphertext m1) sk m2) (\<lambda>alpha. Inr (alpha, beta))))"
    using assms(3) by (simp add: full_runs_passes_def)
  show ?thesis
  proof (cases "party_i_init_proved M pk cj q k")
    case (Inl e)
    then show ?thesis by (simp add: mta_rounds_def wire full case_prod_unfold)
  next
    case m1: (Inr m1)
    show ?thesis
    proof (cases "party_j_respond_proved M pk ci cj q m1 x")
      case (Inl e)
      with m1 show ?thesis by (simp add: mta_rounds_def wire full case_prod_unfold)
    next
      case (Inr out)
      with m1 show ?thesis
        by (cases "party_i_finish_proved M pk ci q (m1_ciphertext m1) sk (fst out)")
          (simp_all add: mta_rounds_def wire full case_prod_unfold)
    qed
  qed
qed

text \<open>An instance of the parameters: real hexadecimal numbers, a commutative toy exchange.\<close>

fun hex_of_nat :: "nat \<Rightarrow> string" where
  "hex_of_nat n = (if n < 16 then [hex_digit n] else hex_of_nat (n div 16) @ [hex_digit (n mod 16)])"

declare hex_of_nat.simps [simp del]

fun nat_of_hex :: "nat \<Rightarrow> string \<Rightarrow> nat option" where
  "nat_of_hex acc [] = Some acc"
| "nat_of_hex acc (c # cs) = (case hex_value c of None \<Rightarrow> None | Some d \<Rightarrow> nat_of_hex (16 * acc + d) cs)"

lemma nat_of_hex_append:
  "nat_of_hex a (xs @ ys) = (case nat_of_hex a xs of None \<Rightarrow> None | Some b \<Rightarrow> nat_of_hex b ys)"
  by (induction xs arbitrary: a) (simp_all split: option.split)

lemma nat_of_hex_of_nat: "nat_of_hex 0 (hex_of_nat n) = Some n"
proof (induction n rule: hex_of_nat.induct)
  case (1 n)
  show ?case
  proof (cases "n < 16")
    case True
    then show ?thesis by (subst hex_of_nat.simps) (simp add: hex_value_hex_digit)
  next
    case False
    with 1 have "nat_of_hex 0 (hex_of_nat (n div 16)) = Some (n div 16)" by simp
    with False show ?thesis
      by (subst hex_of_nat.simps) (simp add: nat_of_hex_append hex_value_hex_digit)
  qed
qed

lemma hex_of_nat_chars: "list_all hex_char (hex_of_nat n)"
proof (induction n rule: hex_of_nat.induct)
  case (1 n)
  have "hex_char (hex_digit d)" if "d < 16" for d
    using that by (simp add: hex_char_def hex_value_hex_digit)
  with 1 show ?case by (subst hex_of_nat.simps) simp
qed

definition zero_range :: RangeProof where
  "zero_range = \<lparr>rg_z = 0, rg_u = 0, rg_w = 0, rg_s = 0, rg_s1 = 0, rg_s2 = 0\<rparr>"

definition zero_respondent :: RespondentProof where
  "zero_respondent = \<lparr>rs_z = 0, rs_z_prime = 0, rs_t = 0, rs_v = 0, rs_w = 0, rs_s = 0, rs_s1 = 0,
     rs_s2 = 0, rs_t1 = 0, rs_t2 = 0\<rparr>"

definition toy_mta :: mta_api where
  "toy_mta =
     \<lparr>from_str_radix16 = nat_of_hex 0,
      to_str_radix16 = hex_of_nat,
      generate_paillier_keypair = (\<lambda>b. \<lparr>kp_public = \<lparr>pp_n = unat b, pp_n_squared = unat b ^ 2, pp_g = 1\<rparr>,
                                         kp_private = \<lparr>pv_lambda = 1, pv_mu = 1\<rparr>\<rparr>),
      generate_commitment_key = (\<lambda>b. \<lparr>ck_n_tilde = unat b, ck_h1 = 1, ck_h2 = 1\<rparr>),
      party_i_init_proved = (\<lambda>pk ck q k. Inr \<lparr>m1_ciphertext = k, m1_range_proof = zero_range\<rparr>),
      party_j_respond_proved = (\<lambda>pk ci cj q m1 x.
        Inr (\<lparr>m2_ciphertext = m1_ciphertext m1 * x + 5, m2_respondent_proof = zero_respondent, m2_beta = q - 5\<rparr>, q - 5)),
      party_i_finish_proved = (\<lambda>pk ci q c sk m2. Inr (m2_ciphertext m2 mod q)),
      full_mta_proved = (\<lambda>kp ci cj q k x. Inr ((k * x + 5) mod q, q - 5))\<rparr>"

lemma toy_mta_laws: "bigint_radix toy_mta" "full_runs_passes toy_mta"
  by (simp_all add: bigint_radix_def full_runs_passes_def toy_mta_def nat_of_hex_of_nat hex_of_nat_chars)

lemma toy_mta_simps:
  "to_str_radix16 toy_mta n = hex_of_nat n"
  "party_j_respond_proved toy_mta pk ci cj q m1 x =
     Inr (\<lparr>m2_ciphertext = m1_ciphertext m1 * x + 5, m2_respondent_proof = zero_respondent, m2_beta = q - 5\<rparr>, q - 5)"
  "full_mta_proved toy_mta kp ci cj q k x = Inr ((k * x + 5) mod q, q - 5)"
  by (simp_all add: toy_mta_def)

abbreviation idle_vm :: "unit vm" where
  "idle_vm \<equiv> \<lparr>sink_ivar = RNil, stderr_log = [], world = ()\<rparr>"

abbreviation toy_pk :: PaillierPublicKey where
  "toy_pk \<equiv> \<lparr>pp_n = 35, pp_n_squared = 1225, pp_g = 36\<rparr>"

abbreviation toy_sk :: PaillierPrivateKey where
  "toy_sk \<equiv> \<lparr>pv_lambda = 12, pv_mu = 3\<rparr>"

abbreviation toy_ck :: CommitmentKey where
  "toy_ck \<equiv> \<lparr>ck_n_tilde = 35, ck_h1 = 2, ck_h2 = 4\<rparr>"

theorem mta_rounds_eq_full_witness:
  "mta_rounds (core_rt id :: unit rt) toy_mta (public_to_hash toy_mta toy_pk) (private_to_hash toy_mta toy_sk)
     (commitment_key_to_hash toy_mta toy_ck) (commitment_key_to_hash toy_mta toy_ck)
     (hex_of_nat 7) (hex_of_nat 3) (hex_of_nat 4) idle_vm =
   Inr (RArr [rstr (hex_of_nat 3), rstr (hex_of_nat 2)])"
proof -
  have "wire_ok (core_rt id :: unit rt) toy_mta"
    by (simp add: wire_ok_def core_rt_conversions toy_mta_laws)
  from full_wire [OF this, of toy_pk toy_sk toy_ck toy_ck 7 3 4]
    mta_rounds_eq_full [OF core_rt_conversions toy_mta_laws, of id toy_pk toy_sk toy_ck toy_ck 7 3 4
      idle_vm idle_vm]
  show ?thesis by (simp add: toy_mta_simps hex_string_def)
qed

section \<open>Prime sizes\<close>

text \<open>A prime size is accepted exactly when it is in \<open>64..=8192\<close>, and the cast to 32 bits keeps
  its value.\<close>

lemma check_prime_bits_exact:
  "check_prime_bits H b = Inr w \<longleftrightarrow> 64 \<le> sint b \<and> sint b \<le> 8192 \<and> uint w = sint b"
proof -
  have "ucast b = w \<longleftrightarrow> uint w = sint b" if "64 \<le> sint b" "sint b \<le> 8192"
  proof -
    from that have "uint b = sint b" by (simp add: uint_sint [of b] take_bit_eq_mod)
    with that have "uint (ucast b :: u32) = sint b" by (simp add: unsigned_ucast_eq take_bit_eq_mod)
    then show ?thesis by (auto simp: word_uint_eq_iff)
  qed
  then show ?thesis by (auto simp: check_prime_bits_def)
qed

section \<open>The second message\<close>

lemma hash_get_delete: "hash_get (AList.delete (rstr k) h) k' = (if k' = k then None else hash_get h k')"
  by (simp add: hash_get_def delete_conv')

lemma msg2_without_beta:
  assumes "wire_ok H M"
  shows "msg2_from_hash H M (AList.delete (rstr ''beta'') (msg2_to_hash M m2)) =
    Inl (Exn ArgumentError (''missing field '' @ quoted ''beta'') [])"
  using assms
  by (simp add: msg2_from_hash_def hex_field_simps hash_get_delete msg2_to_hash_def wire_ok_hash rsp.round_trip)

text \<open>The second message, which goes to the initiator, carries the field \<open>beta\<close> of the crate's
  message, and the initiator cannot finish without it.\<close>

lemma msg2_needs_beta:
  fixes H :: "'w rt"
  assumes "core_conversions H" and "bigint_radix M"
    and "party_j_respond_proved M pk ci cj q m1 x = Inr (m2, beta)"
  shows "\<exists>h2. fst (mta_party_j_respond H M (public_to_hash M pk) (commitment_key_to_hash M ci)
               (commitment_key_to_hash M cj) (to_str_radix16 M q) (msg1_to_hash M m1) (to_str_radix16 M x) s) =
             Inr (RArr [RHash h2, hex_string M beta]) \<and>
           hash_get h2 ''beta'' = Some (hex_string M (m2_beta m2)) \<and>
           fst (mta_party_i_finish H M (public_to_hash M pk) (private_to_hash M sk) (commitment_key_to_hash M ci)
               (to_str_radix16 M q) (to_str_radix16 M (m1_ciphertext m1)) (AList.delete (rstr ''beta'') h2) s') =
             Inl (Exn ArgumentError (''missing field '' @ quoted ''beta'') [])"
proof -
  have w: "wire_ok H M" using assms by (simp add: wire_ok_def)
  show ?thesis
    by (rule exI [of _ "msg2_to_hash M m2"])
      (simp add: respond_wire [OF w] assms(3) mta_party_i_finish_def wire_round_trips [OF w]
        msg2_without_beta [OF w] guarded_def, simp add: msg2_to_hash_def)
qed

lemma msg2_needs_beta_witness:
  "\<exists>h2. fst (mta_party_j_respond (core_rt id :: unit rt) toy_mta (public_to_hash toy_mta toy_pk)
        (commitment_key_to_hash toy_mta toy_ck) (commitment_key_to_hash toy_mta toy_ck) (to_str_radix16 toy_mta 7)
        (msg1_to_hash toy_mta \<lparr>m1_ciphertext = 3, m1_range_proof = zero_range\<rparr>) (to_str_radix16 toy_mta 4) idle_vm) =
      Inr (RArr [RHash h2, hex_string toy_mta 2]) \<and> hash_get h2 ''beta'' = Some (hex_string toy_mta 2)"
proof -
  have "party_j_respond_proved toy_mta toy_pk toy_ck toy_ck 7 \<lparr>m1_ciphertext = 3, m1_range_proof = zero_range\<rparr> 4 =
      Inr (\<lparr>m2_ciphertext = 17, m2_respondent_proof = zero_respondent, m2_beta = 2\<rparr>, 2)"
    by (simp add: toy_mta_simps)
  from msg2_needs_beta [OF core_rt_conversions toy_mta_laws(1) this, where s = idle_vm and s' = idle_vm]
  show ?thesis by fastforce
qed

end
