(* ===== verification/Tc_Session.thy ===== *)
theory Tc_Session
  imports Util
begin

text \<open>
  \<^verbatim>\<open>ext/confium_native/src/tc_session.rs\<close>: one party's half of a threshold protocol. The session
  itself (\<open>confium_tc_session\<close>) is the parameter \<open>session_api\<close>, with its state of type \<open>'t\<close>; the
  options parser, the message codec, the rounds and the error classification are the repository's.
\<close>

section \<open>Parameters: the session crate and \<open>scan_args\<close>\<close>

record message =
  from_party_id :: string
  to_party_id :: "string option"
  msg_round :: u8
  payload :: bytes

record step_result =
  outgoing :: "message list"
  step_complete :: bool

record share_param =
  share_scheme :: string
  share_bytes :: bytes

text \<open>A party of the list is the pair of the arguments of \<open>Party::new\<close>.\<close>

record SessionParams =
  sp_scheme :: string
  sp_parties :: "(string \<times> string option) list"
  sp_threshold :: u32
  sp_this_party_idx :: nat
  sp_local_share :: "share_param option"
  sp_message :: "bytes option"

record 't session_api =
  scan_new :: "rvalue list \<Rightarrow> string + string \<times> rhash option"
  scan_step :: "rvalue list \<Rightarrow> string + rvalue option"
  Message_directed :: "string \<Rightarrow> string \<Rightarrow> u8 \<Rightarrow> bytes \<Rightarrow> message"
  Message_broadcast :: "string \<Rightarrow> u8 \<Rightarrow> bytes \<Rightarrow> message"
  session_create :: "SessionParams \<Rightarrow> string + 't"
  session_scheme_name :: "'t \<Rightarrow> string"
  session_threshold :: "'t \<Rightarrow> u32"
  session_party_count :: "'t \<Rightarrow> nat"
  session_this_party_idx :: "'t \<Rightarrow> nat"
  session_round :: "'t \<Rightarrow> u8"
  session_is_complete :: "'t \<Rightarrow> bool"
  session_step :: "'t \<Rightarrow> message list \<Rightarrow> (string + step_result) \<times> 't"
  session_result :: "'t \<Rightarrow> string + bytes"

section \<open>Errors and arguments\<close>

definition typed_session_error :: "'w rt \<Rightarrow> string \<Rightarrow> string \<Rightarrow> exn" where
  "typed_session_error H e operation =
     (case ruby_get H of
        Some _ \<Rightarrow> Exn RuntimeError e []
      | None \<Rightarrow>
          (let details = new_details;
               details = hash_aset (rstr ''operation'') (rstr operation) details
           in confium_error H e ''Error'' details))"

definition bytes_arg :: "'w rt \<Rightarrow> rvalue \<Rightarrow> string \<Rightarrow> bytes res" where
  "bytes_arg H v name =
     map_err (\<lambda>e. arg_error H (''Session: '' @ name @ '': '' @ exn_display H e)) (bytes_from_value H v)"

text \<open>The body of the \<open>foreach\<close>: a symbol key becomes its name, any other key converts to a string.\<close>

definition key_string :: "'w rt \<Rightarrow> rvalue \<Rightarrow> string res" where
  "key_string H k = (case k of RSym n \<Rightarrow> Inr n | _ \<Rightarrow> conv_string H k)"

fun string_keys :: "'w rt \<Rightarrow> rhash \<Rightarrow> rhash \<Rightarrow> rhash res" where
  "string_keys H [] opts = Inr opts"
| "string_keys H ((k, v) # kvs) opts =
     and_then (key_string H k) (\<lambda>key. string_keys H kvs (hash_aset (rstr key) v opts))"

definition required :: "'w rt \<Rightarrow> rhash \<Rightarrow> string \<Rightarrow> rvalue res" where
  "required H opts key =
     map_err (\<lambda>_. arg_error H (''Session.new: :'' @ key @ '' is required'')) (hash_fetch opts key)"

text \<open>\<open>opts.get(key).unwrap_or_else(nil)\<close>, then \<open>None\<close> for nil and the bytes otherwise.\<close>

definition optional_bytes :: "'w rt \<Rightarrow> rhash \<Rightarrow> string \<Rightarrow> bytes option res" where
  "optional_bytes H opts key =
     (let v = (case hash_get opts key of None \<Rightarrow> RNil | Some v \<Rightarrow> v) in
      if is_nil v then Inr None else map_ok Some (bytes_arg H v key))"

section \<open>Session\<close>

definition Session_params :: "'w rt \<Rightarrow> string \<Rightarrow> rhash \<Rightarrow> SessionParams res" where
  "Session_params H scheme opts =
     and_then (required H opts ''parties'') (\<lambda>parties_val.
     and_then (map_err (\<lambda>_. arg_error H ''Session.new: :parties must be an Array of String ids'')
                 (conv_strings H parties_val)) (\<lambda>ids.
     if length ids < 2 then Inl (arg_error H ''Session.new: at least two parties are required'')
     else
     and_then (and_then (required H opts ''threshold'') (\<lambda>v.
                 map_err (\<lambda>_. arg_error H ''Session.new: :threshold must be an Integer'') (conv_u32 H v))) (\<lambda>threshold.
     and_then (and_then (required H opts ''this_party_idx'') (\<lambda>v.
                 map_err (\<lambda>_. arg_error H ''Session.new: :this_party_idx must be an Integer'') (conv_usize H v))) (\<lambda>idx.
     and_then (optional_bytes H opts ''local_share'') (\<lambda>local_share.
     and_then (optional_bytes H opts ''message'') (\<lambda>message.
     Inr \<lparr>sp_scheme = scheme,
          sp_parties = map (\<lambda>i. (i, None)) ids,
          sp_threshold = threshold,
          sp_this_party_idx = idx,
          sp_local_share = map_option (\<lambda>b. \<lparr>share_scheme = scheme, share_bytes = b\<rparr>) local_share,
          sp_message = message\<rparr>))))))"

definition Session_initialize :: "'w rt \<Rightarrow> 't session_api \<Rightarrow> rvalue list \<Rightarrow> 't res" where
  "Session_initialize H S args =
     and_then (map_err (arg_error H) (scan_new S args)) (\<lambda>(scheme, optional).
     and_then (ok_or (arg_error H ''Session.new: options Hash is required'') optional) (\<lambda>raw_opts.
     and_then (string_keys H raw_opts []) (\<lambda>opts.
     and_then (Session_params H scheme opts) (\<lambda>params.
     map_err (\<lambda>e. typed_session_error H e ''Session.new'') (session_create S params)))))"

definition Session_scheme_name :: "'t session_api \<Rightarrow> 't \<Rightarrow> string" where
  "Session_scheme_name S t = session_scheme_name S t"

definition Session_threshold :: "'t session_api \<Rightarrow> 't \<Rightarrow> u32" where
  "Session_threshold S t = session_threshold S t"

definition Session_party_count :: "'t session_api \<Rightarrow> 't \<Rightarrow> nat" where
  "Session_party_count S t = session_party_count S t"

definition Session_this_party_idx :: "'t session_api \<Rightarrow> 't \<Rightarrow> nat" where
  "Session_this_party_idx S t = session_this_party_idx S t"

definition Session_round :: "'t session_api \<Rightarrow> 't \<Rightarrow> u8" where
  "Session_round S t = session_round S t"

definition Session_complete :: "'t session_api \<Rightarrow> 't \<Rightarrow> bool" where
  "Session_complete S t = session_is_complete S t"

definition apostrophe :: "string \<Rightarrow> string" where
  "apostrophe k = [CHR 0x27] @ k @ [CHR 0x27]"

definition msg_fetch :: "'w rt \<Rightarrow> rhash \<Rightarrow> string \<Rightarrow> rvalue res" where
  "msg_fetch H h key =
     map_err (\<lambda>_. arg_error H (''message: '' @ apostrophe key @ '' is required'')) (hash_fetch h key)"

definition parse_message :: "'w rt \<Rightarrow> 't session_api \<Rightarrow> rvalue \<Rightarrow> message res" where
  "parse_message H S item =
     and_then (map_err (\<lambda>_. arg_error H ''Session#round_step: each message must be a Hash'')
                 (conv_hash H item)) (\<lambda>h.
     and_then (and_then (msg_fetch H h ''from'') (\<lambda>v.
                 map_err (\<lambda>_. arg_error H (''message: '' @ apostrophe ''from'' @ '' must be a String'')) (conv_string H v))) (\<lambda>from.
     and_then (msg_fetch H h ''to'') (\<lambda>to_v.
     and_then (if is_nil to_v then Inr None
               else map_ok Some (map_err (\<lambda>_. arg_error H (''message: '' @ apostrophe ''to'' @ '' must be a String''))
                                   (conv_string H to_v))) (\<lambda>to.
     and_then (and_then (msg_fetch H h ''round'') (\<lambda>v.
                 map_err (\<lambda>_. arg_error H (''message: '' @ apostrophe ''round'' @ '' must be an Integer'')) (conv_u8 H v))) (\<lambda>round.
     and_then (msg_fetch H h ''payload'') (\<lambda>p.
     and_then (bytes_from_value H p) (\<lambda>payload.
     Inr (case to of
            Some t \<Rightarrow> Message_directed S from t round payload
          | None \<Rightarrow> Message_broadcast S from round payload))))))))"

definition parse_messages :: "'w rt \<Rightarrow> 't session_api \<Rightarrow> rvalue \<Rightarrow> message list res" where
  "parse_messages H S value =
     and_then (map_err (\<lambda>_. arg_error H ''Session#round_step: incoming must be an Array'')
                 (conv_array H value)) (\<lambda>arr.
     collect (parse_message H S) arr)"

definition message_hash :: "message \<Rightarrow> rvalue" where
  "message_hash m =
     RHash (hash_of [(''from'', rstr (from_party_id m)),
                     (''to'', case to_party_id m of Some t \<Rightarrow> rstr t | None \<Rightarrow> RNil),
                     (''round'', RInt (uint (msg_round m))),
                     (''payload'', bytes_to_rstring (payload m))])"

definition round_hash :: "step_result \<Rightarrow> rvalue" where
  "round_hash r =
     RHash (hash_of [(''outgoing'', RArr (map message_hash (outgoing r))),
                     (''complete'', RBool (step_complete r))])"

definition Session_round_step ::
  "'w rt \<Rightarrow> 't session_api \<Rightarrow> 't \<Rightarrow> rvalue list \<Rightarrow> rvalue res \<times> 't" where
  "Session_round_step H S t args =
     (case with_ruby H
             (and_then (map_err (arg_error H) (scan_step S args)) (\<lambda>optional.
              case optional of
                Some v \<Rightarrow> if \<not> is_nil v then parse_messages H S v else Inr []
              | None \<Rightarrow> Inr [])) of
        Inl e \<Rightarrow> (Inl e, t)
      | Inr incoming \<Rightarrow>
          (let (r, t') = session_step S t incoming in
           (map_ok round_hash (map_err (\<lambda>e. typed_session_error H e ''Session#round_step'') r), t')))"

definition Session_result :: "'w rt \<Rightarrow> 't session_api \<Rightarrow> 't \<Rightarrow> rvalue res" where
  "Session_result H S t =
     with_ruby H
       (and_then (map_err (\<lambda>e. typed_session_error H e ''Session#result'') (session_result S t)) (\<lambda>b.
        Inr (bytes_to_rstring b)))"

section \<open>What the crates document\<close>

definition session_laws :: "'t session_api \<Rightarrow> bool" where
  "session_laws S \<longleftrightarrow>
     (\<forall>v. scan_step S [v] = Inr (Some v)) \<and>
     (\<forall>n h. ascii n \<longrightarrow> scan_new S [rstr n, RHash h] = Inr (n, Some h)) \<and>
     (\<forall>f t r b. Message_directed S f t r b =
        \<lparr>from_party_id = f, to_party_id = Some t, msg_round = r, payload = b\<rparr>) \<and>
     (\<forall>f r b. Message_broadcast S f r b =
        \<lparr>from_party_id = f, to_party_id = None, msg_round = r, payload = b\<rparr>)"

lemma session_lawsD:
  assumes "session_laws S"
  shows "scan_step S [v] = Inr (Some v)"
    and "ascii n \<Longrightarrow> scan_new S [rstr n, RHash h] = Inr (n, Some h)"
    and "Message_directed S f t r b = \<lparr>from_party_id = f, to_party_id = Some t, msg_round = r, payload = b\<rparr>"
    and "Message_broadcast S f r b = \<lparr>from_party_id = f, to_party_id = None, msg_round = r, payload = b\<rparr>"
  using assms by (simp_all add: session_laws_def)

section \<open>Messages on the wire\<close>

definition ids_ok :: "message \<Rightarrow> bool" where
  "ids_ok m \<longleftrightarrow> ascii (from_party_id m) \<and> (\<forall>t. to_party_id m = Some t \<longrightarrow> ascii t)"

definition message_ok :: "message \<Rightarrow> bool" where
  "message_ok m \<longleftrightarrow> ids_ok m \<and> length (payload m) \<le> MAX_INPUT_SIZE"

text \<open>A message whose identifiers convert back is read as it was written, but for the size of its payload.\<close>

lemma parse_message_converts:
  assumes "core_conversions H" "session_laws S"
    and "conv_string H (rstr (from_party_id m)) = Inr (from_party_id m)"
    and "\<And>t. to_party_id m = Some t \<Longrightarrow> conv_string H (rstr t) = Inr t"
  shows "parse_message H S (message_hash m) =
    and_then (bytes_from_value H (bytes_to_rstring (payload m))) (\<lambda>b. Inr (m\<lparr>payload := b\<rparr>))"
proof -
  note simps = parse_message_def message_hash_def core_conversionsD [OF assms(1)] msg_fetch_def
    hash_fetch_def hash_get_hash_of session_lawsD [OF assms(2)]
  show ?thesis
    using assms(3,4) by (cases m; cases "to_party_id m") (simp_all add: simps)
qed

lemma parse_message_hash:
  assumes "core_conversions H" "session_laws S" "ids_ok m"
  shows "parse_message H S (message_hash m) =
    and_then (bytes_from_value H (bytes_to_rstring (payload m))) (\<lambda>b. Inr (m\<lparr>payload := b\<rparr>))"
  using assms by (intro parse_message_converts) (simp_all add: ids_ok_def core_conversionsD)

interpretation msg: hash_codec message_hash "parse_message H S"
    "\<lambda>m. core_conversions H \<and> session_laws S \<and> message_ok m"
  for H :: "'w rt" and S :: "'t session_api"
  by unfold_locales (simp add: parse_message_hash message_ok_def rstring_arg)

text \<open>C30: a message with ASCII party identifiers is read back by a peer exactly when its payload is
  at most 1 MiB, and then as the same message.\<close>

theorem message_round_trip_iff:
  fixes H :: "'w rt" and S :: "'t session_api"
  assumes "core_conversions H" and "session_laws S" and "ids_ok m"
  shows "parse_messages H S (RArr [message_hash m]) = Inr ms \<longleftrightarrow> length (payload m) \<le> MAX_INPUT_SIZE \<and> ms = [m]"
proof -
  have "bytes_from_value H (bytes_to_rstring (payload m)) = Inr b \<longleftrightarrow>
      length (payload m) \<le> MAX_INPUT_SIZE \<and> b = payload m" for b
    using assms(1)
    by (auto simp: bytes_from_value_def bytes_to_rstring_def core_conversionsD and_then_eq_Inr)
  then show ?thesis
    by (auto simp: parse_messages_def core_conversionsD [OF assms(1)] parse_message_hash [OF assms]
        and_then_eq_Inr)
qed

section \<open>Rounds\<close>

text \<open>The identifiers of a message are Rust strings, in the crate by their type.\<close>

definition rust_message :: "message \<Rightarrow> bool" where
  "rust_message m \<longleftrightarrow> rust_string (from_party_id m) \<and> (\<forall>t. to_party_id m = Some t \<longrightarrow> rust_string t)"

definition sends_rust_messages :: "'t session_api \<Rightarrow> bool" where
  "sends_rust_messages S \<longleftrightarrow>
     (\<forall>t ms r t'. session_step S t ms = (Inr r, t') \<longrightarrow> (\<forall>m \<in> set (outgoing r). rust_message m))"

text \<open>The first payload that the byte boundary refuses.\<close>

fun first_oversize :: "message list \<Rightarrow> nat option" where
  "first_oversize [] = None"
| "first_oversize (m # ms) =
     (if MAX_INPUT_SIZE < length (payload m) then Some (length (payload m)) else first_oversize ms)"

definition too_large :: "nat \<Rightarrow> exn" where
  "too_large n = Exn ArgumentError (''input size '' @ show_nat n @ '' exceeds max '' @ show_nat MAX_INPUT_SIZE) []"

lemma collect_messages:
  assumes "core_conversions H" "utf8_strings H" "ruby_get H = None" "session_laws S" "\<forall>m \<in> set ms. rust_message m"
  shows "collect (parse_message H S) (map message_hash ms) =
    (case first_oversize ms of Some n \<Rightarrow> Inl (too_large n) | None \<Rightarrow> Inr ms)"
  using assms(5)
proof (induction ms)
  case Nil
  then show ?case by simp
next
  case (Cons m ms)
  have "parse_message H S (message_hash m) =
      and_then (bytes_from_value H (bytes_to_rstring (payload m))) (\<lambda>b. Inr (m\<lparr>payload := b\<rparr>))"
    using Cons.prems assms(2)
    by (intro parse_message_converts [OF assms(1,4)]) (simp_all add: rust_message_def utf8_strings_def)
  also have "\<dots> = (if MAX_INPUT_SIZE < length (payload m) then Inl (too_large (length (payload m))) else Inr m)"
    using assms(1,3)
    by (simp add: bytes_from_value_def bytes_to_rstring_def core_conversionsD enforce_size_def arg_error_def too_large_def)
  finally show ?case
    using Cons by (simp split: option.split)
qed

lemma round_step_wire:
  assumes "core_conversions H" "utf8_strings H" "ruby_get H = None" "session_laws S" "\<forall>m \<in> set ms. rust_message m"
  shows "Session_round_step H S t [RArr (map message_hash ms)] =
    (case first_oversize ms of
       Some n \<Rightarrow> (Inl (too_large n), t)
     | None \<Rightarrow>
         (let (r, t') = session_step S t ms in
          (map_ok round_hash (map_err (\<lambda>e. typed_session_error H e ''Session#round_step'') r), t')))"
  using assms collect_messages [OF assms]
  by (simp add: Session_round_step_def session_lawsD parse_messages_def core_conversionsD split: option.split)

text \<open>Several parties and the log of every message sent so far. An event \<open>(p, is)\<close> hands the messages
  at the positions \<open>is\<close> of the log, in this order, to party \<open>p\<close> and appends what it sends; an event
  that names no party or no message changes nothing. So a list of events is any schedule of the
  rounds, with any delay, loss, reordering or repetition of messages.\<close>

type_synonym event = "nat \<times> nat list"

definition deliverable :: "'t list \<Rightarrow> 'm list \<Rightarrow> event \<Rightarrow> bool" where
  "deliverable ts log e \<longleftrightarrow> fst e < length ts \<and> list_all (\<lambda>i. i < length log) (snd e)"

definition core_step ::
  "'t session_api \<Rightarrow> event \<Rightarrow> 't list \<times> message list \<Rightarrow> string + 't list \<times> message list" where
  "core_step S e = (\<lambda>(ts, log).
     if deliverable ts log e then
       (let (r, t') = session_step S (ts ! fst e) (map (nth log) (snd e)) in
        map_ok (\<lambda>res. (ts[fst e := t'], log @ outgoing res)) r)
     else Inr (ts, log))"

definition ruby_step ::
  "'w rt \<Rightarrow> 't session_api \<Rightarrow> event \<Rightarrow> 't list \<times> rvalue list \<Rightarrow> exn + 't list \<times> rvalue list" where
  "ruby_step H S e = (\<lambda>(ts, log).
     if deliverable ts log e then
       (let (r, t') = Session_round_step H S (ts ! fst e) [RArr (map (nth log) (snd e))] in
        and_then (and_then r (conv_hash H)) (\<lambda>h.
        and_then (and_then (hash_fetch h ''outgoing'') (conv_array H)) (\<lambda>out.
        Inr (ts[fst e := t'], log @ out))))
     else Inr (ts, log))"

fun run :: "('e \<Rightarrow> 's \<Rightarrow> 'x + 's) \<Rightarrow> 'e list \<Rightarrow> 's \<Rightarrow> 'x + 's" where
  "run step [] st = Inr st"
| "run step (e # es) st = and_then (step e st) (run step es)"

text \<open>The schedule on the crate's own messages with the one thing the wire adds: a message whose payload is
  above 1 MiB is refused when it is delivered.\<close>

datatype wire_error = Too_large nat | Refused string

definition capped_step ::
  "'t session_api \<Rightarrow> event \<Rightarrow> 't list \<times> message list \<Rightarrow> wire_error + 't list \<times> message list" where
  "capped_step S e st =
     (case (if deliverable (fst st) (snd st) e then first_oversize (map (nth (snd st)) (snd e)) else None) of
        Some n \<Rightarrow> Inl (Too_large n)
      | None \<Rightarrow> map_err Refused (core_step S e st))"

definition wire_exn :: "'w rt \<Rightarrow> wire_error \<Rightarrow> exn" where
  "wire_exn H x = (case x of Too_large n \<Rightarrow> too_large n | Refused e \<Rightarrow> typed_session_error H e ''Session#round_step'')"

definition on_wire :: "'t list \<times> message list \<Rightarrow> 't list \<times> rvalue list" where
  "on_wire st = (fst st, map message_hash (snd st))"

lemma deliverable_map [simp]: "deliverable ts (map f log) e = deliverable ts log e"
  by (simp add: deliverable_def)

lemma map_nth_map: "list_all (\<lambda>i. i < length log) is \<Longrightarrow> map (nth (map f log)) is = map f (map (nth log) is)"
  by (simp add: list_all_iff)

lemma outgoing_field:
  assumes "core_conversions H"
  shows "and_then (conv_hash H (round_hash r)) (\<lambda>h. and_then (and_then (hash_fetch h ''outgoing'') (conv_array H)) k) =
    k (map message_hash (outgoing r))"
  using assms by (simp add: round_hash_def core_conversionsD hash_fetch_def hash_get_hash_of)

lemma ruby_step_wire:
  assumes "core_conversions H" "utf8_strings H" "ruby_get H = None" "session_laws S" "\<forall>m \<in> set log. rust_message m"
  shows "ruby_step H S e (ts, map message_hash log) = map_ok on_wire (map_err (wire_exn H) (capped_step S e (ts, log)))"
proof (cases "deliverable ts log e")
  case True
  then have d: "list_all (\<lambda>i. i < length log) (snd e)" by (simp add: deliverable_def)
  with assms(5) have "\<forall>m \<in> set (map (nth log) (snd e)). rust_message m" by (auto simp: list_all_iff)
  note wire = round_step_wire [OF assms(1-4) this] map_nth_map [OF d] outgoing_field [OF assms(1)]
  obtain r t' where "session_step S (ts ! fst e) (map (nth log) (snd e)) = (r, t')" by fastforce
  with True show ?thesis
    by (cases "first_oversize (map (nth log) (snd e))"; cases r)
      (simp_all add: ruby_step_def capped_step_def core_step_def wire on_wire_def wire_exn_def del: map_map)
next
  case False
  then show ?thesis by (simp add: ruby_step_def capped_step_def core_step_def on_wire_def)
qed

lemma capped_step_rust:
  assumes "sends_rust_messages S" "\<forall>m \<in> set log. rust_message m" "capped_step S e (ts, log) = Inr (ts', log')"
  shows "\<forall>m \<in> set log'. rust_message m"
proof -
  have "core_step S e (ts, log) = Inr (ts', log')"
    using assms(3) by (auto simp: capped_step_def map_err_def split: option.splits sum.splits)
  then show ?thesis
    using assms(1,2)
    by (fastforce simp: core_step_def sends_rust_messages_def map_ok_eq_Inr split: if_splits prod.splits)
qed

text \<open>C9: every schedule of rounds run through Ruby Hashes is the same schedule run on the crate's own
  messages, with any delay, loss, reordering and repetition: the same session states and the same log, or the
  same first error. The one difference is the byte boundary's: a message with a payload above 1 MiB is sent,
  but the round it is delivered to is refused with an \<open>ArgumentError\<close> that names its size. The identifiers of
  the crate's messages are Rust strings, that is well-formed UTF-8, as their type says.\<close>

theorem session_runs_refine:
  fixes H :: "'w rt" and S :: "'t session_api"
  assumes "core_conversions H" and "utf8_strings H" and "ruby_get H = None" and "session_laws S"
    and "sends_rust_messages S" and "\<forall>m \<in> set log. rust_message m"
  shows "run (ruby_step H S) es (on_wire (ts, log)) =
    map_ok on_wire (map_err (wire_exn H) (run (capped_step S) es (ts, log)))"
  using assms(6)
proof (induction es arbitrary: ts log)
  case Nil
  then show ?case by simp
next
  case (Cons e es)
  have step: "ruby_step H S e (on_wire (ts, log)) = map_ok on_wire (map_err (wire_exn H) (capped_step S e (ts, log)))"
    using ruby_step_wire [OF assms(1-4) Cons.prems] by (simp add: on_wire_def)
  show ?case
  proof (cases "capped_step S e (ts, log)")
    case (Inl x)
    with step show ?thesis by simp
  next
    case (Inr st)
    obtain ts' log' where "st = (ts', log')" by fastforce
    with Inr step Cons.IH [OF capped_step_rust [OF assms(5) Cons.prems]] show ?thesis by simp
  qed
qed

text \<open>A session that remembers the payloads it received and always broadcasts one byte.\<close>

definition echo_message :: message where
  "echo_message = \<lparr>from_party_id = ''p'', to_party_id = None, msg_round = 1, payload = [42]\<rparr>"

definition echo_session :: "bytes session_api" where
  "echo_session =
     \<lparr>scan_new = (\<lambda>as. case as of [RStr b, RHash h] \<Rightarrow> Inr (text_of b, Some h) | [RStr b] \<Rightarrow> Inr (text_of b, None)
                            | _ \<Rightarrow> Inl ''wrong number of arguments''),
      scan_step = (\<lambda>as. case as of [] \<Rightarrow> Inr None | [v] \<Rightarrow> Inr (Some v) | _ \<Rightarrow> Inl ''wrong number of arguments''),
      Message_directed = (\<lambda>f t r b. \<lparr>from_party_id = f, to_party_id = Some t, msg_round = r, payload = b\<rparr>),
      Message_broadcast = (\<lambda>f r b. \<lparr>from_party_id = f, to_party_id = None, msg_round = r, payload = b\<rparr>),
      session_create = (\<lambda>p. if unat (sp_threshold p) \<le> length (sp_parties p) then Inr [] else Inl ''bad threshold''),
      session_scheme_name = (\<lambda>t. ''echo''),
      session_threshold = (\<lambda>t. 2),
      session_party_count = (\<lambda>t. 2),
      session_this_party_idx = (\<lambda>t. 0),
      session_round = (\<lambda>t. 0),
      session_is_complete = (\<lambda>t. t \<noteq> []),
      session_step = (\<lambda>t ms. (Inr \<lparr>outgoing = [echo_message], step_complete = ms \<noteq> []\<rparr>, t @ concat (map payload ms))),
      session_result = (\<lambda>t. Inr t)\<rparr>"

lemma echo_session_laws: "session_laws echo_session" "sends_rust_messages echo_session"
  by (simp_all add: session_laws_def sends_rust_messages_def echo_session_def echo_message_def rust_message_def
      rust_string_def)

theorem message_round_trip_iff_witness:
  "parse_messages (core_rt id :: unit rt) echo_session (RArr [message_hash echo_message]) = Inr [echo_message]"
proof -
  have "ids_ok echo_message" "length (payload echo_message) \<le> MAX_INPUT_SIZE"
    by (simp_all add: echo_message_def ids_ok_def ascii_def MAX_INPUT_SIZE_def)
  then show ?thesis
    using message_round_trip_iff [OF core_rt_conversions echo_session_laws(1)] by blast
qed

text \<open>Two parties exchange messages; then one is handed a message of 1 MiB and one byte.\<close>

definition big_message :: message where
  "big_message = echo_message\<lparr>payload := replicate (Suc MAX_INPUT_SIZE) 0\<rparr>"

theorem session_runs_refine_witness:
  "run (ruby_step (core_rt id :: unit rt) echo_session) [(0, []), (1, [0]), (0, [1, 0])] ([[], []], []) =
     Inr ([[42, 42], [42]], map message_hash [echo_message, echo_message, echo_message]) \<and>
   run (ruby_step (core_rt id :: unit rt) echo_session) [(0, []), (1, [1, 0])] ([[], []], [message_hash big_message]) =
     Inl (too_large (Suc MAX_INPUT_SIZE))"
proof
  note refine = session_runs_refine [OF core_rt_conversions [of id] core_rt_utf8_strings core_rt_ruby echo_session_laws]
  have "run (capped_step echo_session) [(0, []), (1, [0]), (0, [1, 0])] ([[], []], []) =
      Inr ([[42, 42], [42]], [echo_message, echo_message, echo_message])"
    by (simp add: capped_step_def core_step_def deliverable_def echo_session_def)
      (simp add: echo_message_def MAX_INPUT_SIZE_def)
  then show "run (ruby_step (core_rt id :: unit rt) echo_session) [(0, []), (1, [0]), (0, [1, 0])] ([[], []], []) =
      Inr ([[42, 42], [42]], map message_hash [echo_message, echo_message, echo_message])"
    using refine [where log = "[]" and es = "[(0, []), (1, [0]), (0, [1, 0])]" and ts = "[[], []]"]
    by (simp add: on_wire_def)
  have "rust_message big_message"
    by (simp add: big_message_def echo_message_def rust_message_def rust_string_def)
  moreover have "run (capped_step echo_session) [(0, []), (1, [1, 0])] ([[], []], [big_message]) =
      Inl (Too_large (Suc MAX_INPUT_SIZE))"
    by (simp add: capped_step_def core_step_def deliverable_def echo_session_def echo_message_def big_message_def)
  ultimately show "run (ruby_step (core_rt id :: unit rt) echo_session) [(0, []), (1, [1, 0])]
      ([[], []], [message_hash big_message]) = Inl (too_large (Suc MAX_INPUT_SIZE))"
    using refine [where log = "[big_message]" and es = "[(0, []), (1, [1, 0])]" and ts = "[[], []]"]
    by (simp add: on_wire_def wire_exn_def)
qed

section \<open>Options\<close>

text \<open>The same options with any choice of symbol or string keys.\<close>

definition spelled :: "(string \<Rightarrow> bool) \<Rightarrow> (string \<times> rvalue) list \<Rightarrow> rvalue" where
  "spelled symbol kvs = RHash (map (\<lambda>(k, v). (if symbol k then RSym k else rstr k, v)) kvs)"

lemma string_keys_spelled:
  assumes "core_conversions H" "\<forall>(k, v) \<in> set kvs. ascii k"
  shows "string_keys H (map (\<lambda>(k, v). (if symbol k then RSym k else rstr k, v)) kvs) opts =
    Inr (fold (\<lambda>(k, v) h. hash_aset (rstr k) v h) kvs opts)"
  using assms(2)
  by (induction kvs arbitrary: opts) (auto simp: key_string_def core_conversionsD(4) [OF assms(1)])

text \<open>C31: keyword arguments and a Hash with string keys, or any mixture, build the same session.\<close>

theorem initialize_key_spelling:
  fixes H :: "'w rt" and S :: "'t session_api"
  assumes "core_conversions H" and "session_laws S" and "ascii scheme"
    and "\<forall>(k, v) \<in> set kvs. ascii k"
  shows "Session_initialize H S [rstr scheme, spelled f kvs] = Session_initialize H S [rstr scheme, spelled g kvs]"
  using assms
  by (simp add: Session_initialize_def spelled_def session_lawsD string_keys_spelled [OF assms(1,4)])

text \<open>C32: a session is only created from parameters with at least two parties, a local share that
  carries the session's own scheme, and byte inputs of at most 1 MiB.\<close>

theorem initialize_params:
  assumes "Session_initialize H S args = Inr t"
  shows "\<exists>P. session_create S P = Inr t \<and> 2 \<le> length (sp_parties P) \<and>
    (\<forall>sh. sp_local_share P = Some sh \<longrightarrow> share_scheme sh = sp_scheme P \<and> length (share_bytes sh) \<le> MAX_INPUT_SIZE) \<and>
    (\<forall>m. sp_message P = Some m \<longrightarrow> length m \<le> MAX_INPUT_SIZE)"
proof -
  have opt: "length b \<le> MAX_INPUT_SIZE" if "optional_bytes H opts k = Inr (Some b)" for opts k b
    using that by (auto simp: optional_bytes_def Let_def bytes_arg_def res_iffs split: if_splits
        dest: bytes_from_value_bounded)
  from assms obtain scheme opts P where P: "Session_params H scheme opts = Inr P" "session_create S P = Inr t"
    by (auto simp: Session_initialize_def res_iffs split: prod.splits)
  from P(1) have "2 \<le> length (sp_parties P) \<and>
    (\<forall>sh. sp_local_share P = Some sh \<longrightarrow> share_scheme sh = sp_scheme P \<and> length (share_bytes sh) \<le> MAX_INPUT_SIZE) \<and>
    (\<forall>m. sp_message P = Some m \<longrightarrow> length m \<le> MAX_INPUT_SIZE)"
    by (auto simp: Session_params_def res_iffs split: if_splits) (blast intro: opt)+
  with P(2) show ?thesis by blast
qed

definition echo_options :: "(string \<times> rvalue) list" where
  "echo_options = [(''parties'', RArr [rstr ''a'', rstr ''b'']), (''threshold'', RInt 2), (''this_party_idx'', RInt 0)]"

lemma echo_initialize:
  "Session_initialize (core_rt id :: unit rt) echo_session [rstr ''echo'', spelled (\<lambda>_. True) echo_options] = Inr []"
proof -
  have ss: "conv_strings (core_rt id :: unit rt) (RArr [rstr ''a'', rstr ''b'']) = Inr [''a'', ''b'']"
    using core_conversionsD(10) [OF core_rt_conversions [of id], of "[''a'', ''b'']"] by (simp add: ascii_def)
  have sk: "string_keys (core_rt id :: unit rt)
      (map (\<lambda>(k, v). (if True then RSym k else rstr k, v)) echo_options) [] = Inr (hash_of echo_options)"
    using string_keys_spelled [OF core_rt_conversions [of id], of echo_options "\<lambda>_. True" "[]"]
    by (simp add: echo_options_def ascii_def hash_of_def)
  have p: "Session_params (core_rt id :: unit rt) ''echo'' (hash_of echo_options) =
      Inr \<lparr>sp_scheme = ''echo'', sp_parties = [(''a'', None), (''b'', None)], sp_threshold = 2,
           sp_this_party_idx = 0, sp_local_share = None, sp_message = None\<rparr>"
    by (simp add: Session_params_def required_def hash_fetch_def hash_get_hash_of echo_options_def ss
        optional_bytes_def)
      (simp add: core_rt_def)
  show ?thesis
    unfolding Session_initialize_def spelled_def session_lawsD(2) [OF echo_session_laws(1)]
    using sk p by (simp add: session_lawsD(2) [OF echo_session_laws(1)] ascii_def)
      (simp add: echo_session_def)
qed

theorem initialize_key_spelling_witness:
  "Session_initialize (core_rt id :: unit rt) echo_session
     [rstr ''echo'', spelled (\<lambda>k. k = ''parties'') echo_options] = Inr []"
proof -
  have "\<forall>(k, v) \<in> set echo_options. ascii k" by (simp add: echo_options_def ascii_def)
  moreover have "ascii ''echo''" by (simp add: ascii_def)
  ultimately show ?thesis
    using initialize_key_spelling [OF core_rt_conversions echo_session_laws(1)] echo_initialize by metis
qed

theorem initialize_params_witness:
  "\<exists>P. session_create echo_session P = Inr [] \<and> 2 \<le> length (sp_parties P)"
  using initialize_params [OF echo_initialize] by blast

end
