(* ===== verification/Composite.thy ===== *)
theory Composite
  imports Audit_Trail
begin

text \<open>
  \<^verbatim>\<open>ext/confium_native/src/composite.rs\<close>: composite signatures. The cryptography and the walk over the
  components (\<open>confium_composite\<close>, \<open>ed25519_dalek\<close>, \<open>p256\<close>) are the parameter \<open>composite_api\<close>; the
  dispatch of a component to the built-in or the caller's verifier, the call into Ruby, the reading
  of components and the two audited signing operations are the repository's. A verifier may run Ruby
  code, so it transforms the state.
\<close>

section \<open>Parameters: the crates\<close>

record ComponentSignature =
  cs_algorithm :: string
  cs_public_key :: bytes
  cs_signature :: bytes

record ComponentResult =
  cr_index :: nat
  cr_algorithm :: string
  cr_verified :: bool
  cr_error :: "string option"

record VerificationResult =
  vr_all_verified :: bool
  vr_per_component :: "ComponentResult list"

type_synonym 'w verifier = "string \<Rightarrow> bytes \<Rightarrow> bytes \<Rightarrow> bytes \<Rightarrow> 'w vm \<Rightarrow> (string + unit) \<times> 'w vm"

text \<open>\<open>p256_key\<close> reads a signing key; from it \<open>p256_sign\<close> gives the DER bytes of a signature and
  \<open>p256_public\<close> the SEC1 bytes of the verifying key. The \<open>composite_\<close> fields are the constructor and
  the methods of \<open>CompositeSignature\<close>, whose values have type \<open>'c\<close>.\<close>

record ('w, 'k, 'c) composite_api =
  scan_verify :: "rvalue list \<Rightarrow> exn + rvalue \<times> rvalue option"
  ED25519 :: string
  ECDSA_P256 :: string
  ed25519_verifier :: "string \<Rightarrow> bytes \<Rightarrow> bytes \<Rightarrow> bytes \<Rightarrow> string + unit"
  p256_verifier :: "string \<Rightarrow> bytes \<Rightarrow> bytes \<Rightarrow> bytes \<Rightarrow> string + unit"
  composite_new :: "ComponentSignature list \<Rightarrow> 'c"
  composite_count :: "'c \<Rightarrow> nat"
  composite_algorithms :: "'c \<Rightarrow> string list"
  composite_verify ::
    "'c \<Rightarrow> bytes \<Rightarrow> 'w verifier \<Rightarrow> 'w vm \<Rightarrow> (string + VerificationResult) \<times> 'w vm"
  build_ed25519_component :: "bytes \<Rightarrow> bytes \<Rightarrow> string + ComponentSignature"
  ed25519_generate :: "bytes \<times> bytes"
  p256_key :: "bytes \<Rightarrow> string + 'k"
  p256_sign :: "'k \<Rightarrow> bytes \<Rightarrow> string + bytes"
  p256_public :: "'k \<Rightarrow> bytes"

section \<open>Components and verifiers\<close>

definition parse_component :: "'w rt \<Rightarrow> rvalue \<Rightarrow> ComponentSignature res" where
  "parse_component H v =
     and_then (conv_hash H v) (\<lambda>h.
     and_then (and_then (hash_fetch h ''algorithm'') (conv_string H)) (\<lambda>algorithm.
     and_then (hash_fetch h ''public_key'') (\<lambda>public_key.
     and_then (hash_fetch h ''signature'') (\<lambda>signature.
     and_then (bytes_from_value H public_key) (\<lambda>pk.
     and_then (bytes_from_value H signature) (\<lambda>sig.
     Inr \<lparr>cs_algorithm = algorithm, cs_public_key = pk, cs_signature = sig\<rparr>))))))"

definition parse_components :: "'w rt \<Rightarrow> rvalue \<Rightarrow> ComponentSignature list res" where
  "parse_components H value = and_then (conv_array H value) (\<lambda>arr. collect (parse_component H) arr)"

record 'c CompositeSig =
  sig_inner :: 'c

definition CompositeSig_new :: "'w rt \<Rightarrow> ('w, 'k, 'c) composite_api \<Rightarrow> rvalue \<Rightarrow> 'c CompositeSig res" where
  "CompositeSig_new H C components =
     and_then (parse_components H components) (\<lambda>comps. Inr \<lparr>sig_inner = composite_new C comps\<rparr>)"

definition CompositeSig_component_count :: "('w, 'k, 'c) composite_api \<Rightarrow> 'c CompositeSig \<Rightarrow> nat" where
  "CompositeSig_component_count C sg = composite_count C (sig_inner sg)"

definition CompositeSig_algorithms :: "('w, 'k, 'c) composite_api \<Rightarrow> 'c CompositeSig \<Rightarrow> string list" where
  "CompositeSig_algorithms C sg = composite_algorithms C (sig_inner sg)"

type_synonym CallerVerifiers = "string \<rightharpoonup> rvalue"

fun insert_verifiers :: "'w rt \<Rightarrow> rhash \<Rightarrow> CallerVerifiers \<Rightarrow> CallerVerifiers res" where
  "insert_verifiers H [] out = Inr out"
| "insert_verifiers H ((k, v) # kvs) out =
     and_then (conv_string H k) (\<lambda>key. insert_verifiers H kvs (out(key \<mapsto> v)))"

definition parse_caller_verifiers :: "'w rt \<Rightarrow> rvalue \<Rightarrow> CallerVerifiers res" where
  "parse_caller_verifiers H v = and_then (conv_hash H v) (\<lambda>h. insert_verifiers H h Map.empty)"

text \<open>magnus turns a \<open>Vec<u8>\<close> argument into an Array of Integers.\<close>

definition byte_array :: "bytes \<Rightarrow> rvalue" where
  "byte_array b = RArr (map (\<lambda>w. RInt (uint w)) b)"

definition invoke_caller_verifier ::
  "'w rt \<Rightarrow> rvalue \<Rightarrow> bytes \<Rightarrow> bytes \<Rightarrow> bytes \<Rightarrow> 'w vm \<Rightarrow> (string + unit) \<times> 'w vm" where
  "invoke_caller_verifier H callback public_key message signature s =
     (case ruby_get H of
        Some e \<Rightarrow> (Inl e, s)
      | None \<Rightarrow>
     (case funcall H callback ''call'' [byte_array public_key, byte_array message, byte_array signature] s of
        (Inl e, s') \<Rightarrow> (Inl (''caller verifier raised: '' @ exn_display H e), s')
      | (Inr result, s') \<Rightarrow>
          (case conv_bool H result of
             Inl e \<Rightarrow> (Inl (''caller verifier returned non-bool: '' @ exn_display H e), s')
           | Inr ok \<Rightarrow> if ok then (Inr (), s') else (Inl ''caller verifier returned false'', s'))))"

text \<open>The closure passed to \<open>CompositeSignature::verify\<close>.\<close>

definition dispatch :: "'w rt \<Rightarrow> ('w, 'k, 'c) composite_api \<Rightarrow> CallerVerifiers \<Rightarrow> 'w verifier" where
  "dispatch H C caller_verifiers algorithm public_key m signature s =
     (if algorithm = ED25519 C then (ed25519_verifier C algorithm public_key m signature, s)
      else if algorithm = ECDSA_P256 C \<or> algorithm = ''ECDSA''
      then (p256_verifier C algorithm public_key m signature, s)
      else (case caller_verifiers algorithm of
              Some callback \<Rightarrow> invoke_caller_verifier H callback public_key m signature s
            | None \<Rightarrow> (Inl (''unsupported algorithm: '' @ algorithm), s)))"

text \<open>The arguments of \<open>verify\<close>: the message, then the optional Hash of verifiers.\<close>

definition verify_args :: "'w rt \<Rightarrow> ('w, 'k, 'c) composite_api \<Rightarrow> rvalue list \<Rightarrow> (bytes \<times> CallerVerifiers) res" where
  "verify_args H C args =
     and_then (scan_verify C args) (\<lambda>(message, verifiers_value).
     and_then (bytes_from_value H message) (\<lambda>msg.
     and_then (case verifiers_value of Some v \<Rightarrow> parse_caller_verifiers H v | None \<Rightarrow> Inr Map.empty) (\<lambda>cv.
     Inr (msg, cv))))"

record VerificationResultWrap =
  res_inner :: VerificationResult

definition CompositeSig_verify ::
  "'w rt \<Rightarrow> ('w, 'k, 'c) composite_api \<Rightarrow> 'c CompositeSig \<Rightarrow> rvalue list \<Rightarrow> 'w vm \<Rightarrow> VerificationResultWrap res \<times> 'w vm" where
  "CompositeSig_verify H C sg args s =
     (case verify_args H C args of
        Inl e \<Rightarrow> (Inl e, s)
      | Inr (msg, caller_verifiers) \<Rightarrow>
          (case composite_verify C (sig_inner sg) msg (dispatch H C caller_verifiers) s of
             (Inl e, s') \<Rightarrow> (expect_ruby H (Inl (confium_error H e ''VerificationError'' new_details)), s')
           | (Inr result, s') \<Rightarrow> (with_ruby H (Inr \<lparr>res_inner = result\<rparr>), s')))"

definition VerificationResultWrap_all_verified :: "VerificationResultWrap \<Rightarrow> bool" where
  "VerificationResultWrap_all_verified w = vr_all_verified (res_inner w)"

definition component_entry :: "ComponentResult \<Rightarrow> rvalue" where
  "component_entry c =
     RHash (opt_aset ''error'' (map_option rstr (cr_error c))
       (hash_of [(''algorithm'', rstr (cr_algorithm c)), (''verified'', RBool (cr_verified c))]))"

definition VerificationResultWrap_per_component :: "'w rt \<Rightarrow> VerificationResultWrap \<Rightarrow> rvalue res" where
  "VerificationResultWrap_per_component H w =
     with_ruby H (Inr (RHash
       (fold (\<lambda>c h. hash_aset (RInt (int (cr_index c))) (component_entry c) h)
          (vr_per_component (res_inner w)) [])))"

section \<open>Signing\<close>

definition component_hash :: "ComponentSignature \<Rightarrow> rvalue" where
  "component_hash c =
     RHash (hash_of [(''algorithm'', rstr (cs_algorithm c)),
                     (''public_key'', bytes_to_rstring (cs_public_key c)),
                     (''signature'', bytes_to_rstring (cs_signature c))])"

definition key_and_message :: "'w rt \<Rightarrow> string \<Rightarrow> rvalue \<Rightarrow> rvalue \<Rightarrow> (bytes \<times> bytes) res" where
  "key_and_message H what private_key message =
     and_then (bytes_from_value H private_key) (\<lambda>pk_bytes.
     and_then (bytes_from_value H message) (\<lambda>msg.
     and_then (check32 H what pk_bytes) (\<lambda>pk_arr.
     Inr (pk_arr, msg))))"

definition sign_ed25519 ::
  "'w rt \<Rightarrow> ('w, 'k, 'c) composite_api \<Rightarrow> rvalue \<Rightarrow> rvalue \<Rightarrow> 'w vm \<Rightarrow> rvalue res \<times> 'w vm" where
  "sign_ed25519 H C private_key message =
     guarded (key_and_message H ''Ed25519 private key must be 32'' private_key message)
       (\<lambda>(pk_arr, msg).
          audited H ''composite_sign_ed25519'' ''Ed25519'' (Some msg)
            (\<lambda>e. crypto_error H e ''Composite.sign_ed25519'' ''ed25519'')
            (\<lambda>c. Inr (component_hash c))
            (build_ed25519_component C pk_arr msg))"

definition p256_sign_args ::
  "'w rt \<Rightarrow> ('w, 'k, 'c) composite_api \<Rightarrow> rvalue \<Rightarrow> rvalue \<Rightarrow> ('k \<times> bytes) res" where
  "p256_sign_args H C private_key message =
     and_then (key_and_message H ''P-256 private key must be 32'' private_key message) (\<lambda>(arr, msg).
     and_then (map_err (\<lambda>e. arg_error H (''invalid P-256 private key: '' @ e)) (p256_key C arr)) (\<lambda>signing.
     Inr (signing, msg)))"

definition sign_p256 ::
  "'w rt \<Rightarrow> ('w, 'k, 'c) composite_api \<Rightarrow> rvalue \<Rightarrow> rvalue \<Rightarrow> 'w vm \<Rightarrow> rvalue res \<times> 'w vm" where
  "sign_p256 H C private_key message =
     guarded (p256_sign_args H C private_key message)
       (\<lambda>(signing, msg).
          audited H ''composite_sign_p256'' ''ECDSA-P256'' (Some msg)
            (\<lambda>e. crypto_error H e ''Composite.sign_p256'' ''ecdsa-p256'')
            (\<lambda>sig. Inr (component_hash \<lparr>cs_algorithm = ''ECDSA-P256'', cs_public_key = p256_public C signing,
                                         cs_signature = sig\<rparr>))
            (map_err (\<lambda>e. ''sign error: '' @ e) (p256_sign C signing msg)))"

definition generate_ed25519_keypair :: "('w, 'k, 'c) composite_api \<Rightarrow> rvalue" where
  "generate_ed25519_keypair C =
     (let (signing, verifying) = ed25519_generate C in
      RHash (hash_of [(''private_key'', bytes_to_rstring signing), (''public_key'', bytes_to_rstring verifying)]))"

section \<open>The audited operations meet their contract\<close>

interpretation ed: audited_op H "sign_ed25519 H C pk m" "''composite_sign_ed25519''" "''Ed25519''"
    "map_ok (\<lambda>x. (Some (snd x), outcome (\<lambda>e. crypto_error H e ''Composite.sign_ed25519'' ''ed25519'')
        (\<lambda>c. Inr (component_hash c)) (build_ed25519_component C (fst x) (snd x))))
       (key_and_message H ''Ed25519 private key must be 32'' pk m)"
  for H :: "'w rt" and C :: "('w, 'k, 'c) composite_api" and pk m
  by (rule audited_opI) (simp add: sign_ed25519_def case_prod_unfold)

interpretation p2: audited_op H "sign_p256 H C pk m" "''composite_sign_p256''" "''ECDSA-P256''"
    "map_ok (\<lambda>x. (Some (snd x), outcome (\<lambda>e. crypto_error H e ''Composite.sign_p256'' ''ecdsa-p256'')
        (\<lambda>sig. Inr (component_hash \<lparr>cs_algorithm = ''ECDSA-P256'', cs_public_key = p256_public C (fst x),
           cs_signature = sig\<rparr>))
        (map_err (\<lambda>e. ''sign error: '' @ e) (p256_sign C (fst x) (snd x)))))
       (p256_sign_args H C pk m)"
  for H :: "'w rt" and C :: "('w, 'k, 'c) composite_api" and pk m
  by (rule audited_opI) (simp add: sign_p256_def case_prod_unfold)

section \<open>What the crates document\<close>

text \<open>\<open>CompositeSignature::verify\<close> calls the closure on every component, in order, and reports each
  outcome under the component's position.\<close>

fun verify_each ::
  "'w verifier \<Rightarrow> bytes \<Rightarrow> nat \<Rightarrow> ComponentSignature list \<Rightarrow> 'w vm \<Rightarrow> ComponentResult list \<times> 'w vm" where
  "verify_each f msg i [] s = ([], s)"
| "verify_each f msg i (c # cs) s =
     (let (r, s1) = f (cs_algorithm c) (cs_public_key c) msg (cs_signature c) s;
          (rs, s2) = verify_each f msg (Suc i) cs s1
      in (\<lparr>cr_index = i, cr_algorithm = cs_algorithm c, cr_verified = (r = Inr ()),
           cr_error = (case r of Inl e \<Rightarrow> Some e | Inr _ \<Rightarrow> None)\<rparr> # rs, s2))"

definition composite_laws :: "('w, 'k, 'c) composite_api \<Rightarrow> bool" where
  "composite_laws C \<longleftrightarrow>
     (\<forall>m. scan_verify C [m] = Inr (m, None)) \<and>
     (\<forall>m v. scan_verify C [m, v] = Inr (m, Some v)) \<and>
     (\<forall>comps msg f s. comps \<noteq> [] \<longrightarrow>
        composite_verify C (composite_new C comps) msg f s =
        (let (rs, s') = verify_each f msg 0 comps s in
         (Inr \<lparr>vr_all_verified = list_all cr_verified rs, vr_per_component = rs\<rparr>, s')))"

lemma composite_lawsD:
  assumes "composite_laws C"
  shows "scan_verify C [m] = Inr (m, None)"
    and "scan_verify C [m, v] = Inr (m, Some v)"
    and "comps \<noteq> [] \<Longrightarrow> composite_verify C (composite_new C comps) msg f s =
        (let (rs, s') = verify_each f msg 0 comps s in
         (Inr \<lparr>vr_all_verified = list_all cr_verified rs, vr_per_component = rs\<rparr>, s'))"
  using assms by (simp_all add: composite_laws_def)

lemma verify_each_cong:
  assumes "\<And>c b m sg s. c \<in> set cs \<Longrightarrow> f (cs_algorithm c) b m sg s = g (cs_algorithm c) b m sg s"
  shows "verify_each f msg i cs s = verify_each g msg i cs s"
  using assms by (induction cs arbitrary: i s) (simp_all split: prod.split)

lemma verify_each_positions:
  "verify_each f msg i cs s = (rs, s') \<Longrightarrow>
     length rs = length cs \<and> (\<forall>k < length rs. cr_index (rs ! k) = i + k \<and> cr_algorithm (rs ! k) = cs_algorithm (cs ! k))"
proof (induction cs arbitrary: i s rs)
  case Nil
  then show ?case by simp
next
  case (Cons c cs)
  then obtain r s1 rs' where rs: "rs = r # rs'" "verify_each f msg (Suc i) cs s1 = (rs', s')"
    and r: "cr_index r = i" "cr_algorithm r = cs_algorithm c"
    by (auto split: prod.splits)
  with Cons.IH [OF rs(2)] show ?case by (auto simp: nth_Cons split: nat.split)
qed

text \<open>A component counts as verified only when the closure accepted it in the state it was called in.\<close>

lemma verify_each_sound:
  assumes "verify_each f msg i cs s = (rs, s')" "list_all cr_verified rs" "c \<in> set cs"
  shows "\<exists>s1 s2. f (cs_algorithm c) (cs_public_key c) msg (cs_signature c) s1 = (Inr (), s2)"
  using assms
proof (induction cs arbitrary: i s rs)
  case Nil
  then show ?case by simp
next
  case (Cons d cs)
  from Cons.prems obtain rs' s1 where "f (cs_algorithm d) (cs_public_key d) msg (cs_signature d) s = (Inr (), s1)"
    "verify_each f msg (Suc i) cs s1 = (rs', s')" "list_all cr_verified rs'"
    by (auto split: prod.splits)
  with Cons.IH Cons.prems(3) show ?case by auto
qed

lemma verify_each_accepts:
  assumes "\<And>c. c \<in> set cs \<Longrightarrow> f (cs_algorithm c) (cs_public_key c) msg (cs_signature c) s = (Inr (), s)"
  shows "\<exists>rs. verify_each f msg i cs s = (rs, s) \<and> list_all cr_verified rs"
  using assms
proof (induction cs arbitrary: i)
  case Nil
  then show ?case by simp
next
  case (Cons c cs)
  then obtain rs where "verify_each f msg (Suc i) cs s = (rs, s)" "list_all cr_verified rs"
    by (metis list.set_intros(2))
  with Cons.prems show ?case by simp
qed

section \<open>Dispatch\<close>

definition builtin_algorithm :: "('w, 'k, 'c) composite_api \<Rightarrow> string \<Rightarrow> bool" where
  "builtin_algorithm C a \<longleftrightarrow> a = ED25519 C \<or> a = ECDSA_P256 C \<or> a = ''ECDSA''"

lemma dispatch_builtin: "builtin_algorithm C a \<Longrightarrow> dispatch H C cv a = dispatch H C cv' a"
  by (rule ext)+ (auto simp: dispatch_def builtin_algorithm_def)

lemma verify_walk:
  assumes "composite_laws C" "ruby_get H = None" "comps \<noteq> []" "verify_args H C args = Inr (msg, cv)"
  shows "CompositeSig_verify H C \<lparr>sig_inner = composite_new C comps\<rparr> args s =
    (let (rs, s') = verify_each (dispatch H C cv) msg 0 comps s in
     (Inr \<lparr>res_inner = \<lparr>vr_all_verified = list_all cr_verified rs, vr_per_component = rs\<rparr>\<rparr>, s'))"
  using assms by (simp add: CompositeSig_verify_def composite_lawsD split: prod.split)

text \<open>C6: a caller's Hash of verifiers never overrides a built-in one: on components whose algorithms
  all have a built-in verifier, \<open>verify\<close> gives the same answer with the Hash, whatever keys it
  defines, as without it.\<close>

theorem builtin_not_overridable:
  fixes H :: "'w rt" and C :: "('w, 'k, 'c) composite_api"
  assumes "composite_laws C" and "ruby_get H = None" and "comps \<noteq> []"
    and "\<forall>c \<in> set comps. builtin_algorithm C (cs_algorithm c)"
    and "parse_caller_verifiers H vs = Inr cv"
  shows "CompositeSig_verify H C \<lparr>sig_inner = composite_new C comps\<rparr> [m, vs] s =
         CompositeSig_verify H C \<lparr>sig_inner = composite_new C comps\<rparr> [m] s"
proof (cases "bytes_from_value H m")
  case (Inl e)
  with assms show ?thesis by (simp add: CompositeSig_verify_def verify_args_def composite_lawsD)
next
  case (Inr msg)
  have "verify_args H C [m, vs] = Inr (msg, cv)" "verify_args H C [m] = Inr (msg, Map.empty)"
    using Inr assms by (simp_all add: verify_args_def composite_lawsD)
  moreover have "verify_each (dispatch H C cv) msg 0 comps s = verify_each (dispatch H C Map.empty) msg 0 comps s"
    using assms(4) by (intro verify_each_cong) (metis dispatch_builtin)
  ultimately show ?thesis using verify_walk [OF assms(1-3)] by simp
qed

text \<open>C7: \<open>all_verified?\<close> is only true when every Ed25519 and every P-256 component was accepted by its
  own built-in verifier and every other algorithm has a verifier supplied by the caller.\<close>

theorem all_verified_sound:
  fixes H :: "'w rt" and C :: "('w, 'k, 'c) composite_api"
  assumes "composite_laws C" and "comps \<noteq> []" and "verify_args H C args = Inr (msg, cv)"
    and "CompositeSig_verify H C \<lparr>sig_inner = composite_new C comps\<rparr> args s = (Inr w, s')"
    and "VerificationResultWrap_all_verified w" and "c \<in> set comps"
  shows "if cs_algorithm c = ED25519 C
         then ed25519_verifier C (cs_algorithm c) (cs_public_key c) msg (cs_signature c) = Inr ()
         else if cs_algorithm c = ECDSA_P256 C \<or> cs_algorithm c = ''ECDSA''
         then p256_verifier C (cs_algorithm c) (cs_public_key c) msg (cs_signature c) = Inr ()
         else cs_algorithm c \<in> dom cv"
proof -
  from assms(4) have ruby: "ruby_get H = None"
    by (auto simp: CompositeSig_verify_def assms(3) expect_ruby_def split: prod.splits sum.splits option.splits)
  obtain rs s2 where rs: "verify_each (dispatch H C cv) msg 0 comps s = (rs, s2)" by fastforce
  have "w = \<lparr>res_inner = \<lparr>vr_all_verified = list_all cr_verified rs, vr_per_component = rs\<rparr>\<rparr>"
    using verify_walk [OF assms(1) ruby assms(2,3), of s] assms(4) rs by simp
  with assms(5) have "list_all cr_verified rs" by (simp add: VerificationResultWrap_all_verified_def)
  from verify_each_sound [OF rs this assms(6)] show ?thesis
    by (auto simp: dispatch_def split: if_splits option.splits)
qed

section \<open>Signed components are accepted\<close>

definition component_ok :: "ComponentSignature \<Rightarrow> bool" where
  "component_ok c \<longleftrightarrow>
     ascii (cs_algorithm c) \<and> length (cs_public_key c) \<le> MAX_INPUT_SIZE \<and> length (cs_signature c) \<le> MAX_INPUT_SIZE"

interpretation comp: hash_codec component_hash "parse_component H" "\<lambda>c. core_conversions H \<and> component_ok c"
  for H :: "'w rt"
  by unfold_locales
    (simp add: component_hash_def parse_component_def component_ok_def core_conversionsD hash_fetch_def
      hash_get_hash_of rstring_arg)

text \<open>What the crates document of signing: a component that was built verifies.\<close>

definition builds_verify :: "('w, 'k, 'c) composite_api \<Rightarrow> bool" where
  "builds_verify C \<longleftrightarrow>
     (\<forall>k msg c. build_ed25519_component C k msg = Inr c \<longrightarrow>
        cs_algorithm c = ED25519 C \<and> component_ok c \<and>
        ed25519_verifier C (ED25519 C) (cs_public_key c) msg (cs_signature c) = Inr ())"

lemma new_of_components:
  assumes "core_conversions H" "\<forall>c \<in> set cs. component_ok c"
  shows "CompositeSig_new H C (RArr (map component_hash cs)) = Inr \<lparr>sig_inner = composite_new C cs\<rparr>"
  using assms comp.list_round_trip [of cs H]
  by (simp add: CompositeSig_new_def parse_components_def core_conversionsD)

lemma sign_ed25519_Inr:
  assumes "sign_ed25519 H C pk m s = (Inr v, s')"
  obtains key msg c where "key_and_message H ''Ed25519 private key must be 32'' pk m = Inr (key, msg)"
    "build_ed25519_component C key msg = Inr c" "v = component_hash c" "bytes_from_value H m = Inr msg"
  using assms that
  by (auto simp: sign_ed25519_def guarded_def audited_def key_and_message_def res_iffs
      split: sum.splits prod.splits)

text \<open>C27: signatures made by \<open>sign_ed25519\<close> over the same message, by any number of keys and in any
  states of the VM, combine into a composite that \<open>verify\<close> accepts in full.\<close>

theorem signed_composite_verifies:
  fixes H :: "'w rt" and C :: "('w, 'k, 'c) composite_api"
  assumes "core_conversions H" and "ruby_get H = None" and "composite_laws C" and "builds_verify C"
    and "vs \<noteq> []" and "\<forall>v \<in> set vs. \<exists>pk s1 s2. sign_ed25519 H C pk m s1 = (Inr v, s2)"
  shows "\<exists>sg w. CompositeSig_new H C (RArr vs) = Inr sg \<and> CompositeSig_verify H C sg [m] s = (Inr w, s) \<and>
    VerificationResultWrap_all_verified w"
proof -
  have "\<forall>v \<in> set vs. \<exists>c. v = component_hash c \<and>
      (\<exists>key msg. bytes_from_value H m = Inr msg \<and> build_ed25519_component C key msg = Inr c)"
    using assms(6) by (metis sign_ed25519_Inr)
  then obtain g where g: "\<forall>v \<in> set vs. v = component_hash (g v) \<and>
      (\<exists>key msg. bytes_from_value H m = Inr msg \<and> build_ed25519_component C key msg = Inr (g v))"
    by (meson bchoice)
  define cs where "cs = map g vs"
  have vs: "vs = map component_hash cs" using g by (simp add: cs_def map_idI comp_def)
  have cs: "\<forall>c \<in> set cs. \<exists>key msg. bytes_from_value H m = Inr msg \<and> build_ed25519_component C key msg = Inr c"
    using g by (simp add: cs_def)
  from assms(5) vs have ne: "cs \<noteq> []" by simp
  then obtain msg where msg: "bytes_from_value H m = Inr msg" using cs by (cases cs) auto
  have built: "\<exists>key. build_ed25519_component C key msg = Inr c" if "c \<in> set cs" for c
    using cs msg that by fastforce
  have ok: "component_ok c" "cs_algorithm c = ED25519 C"
    "ed25519_verifier C (ED25519 C) (cs_public_key c) msg (cs_signature c) = Inr ()" if "c \<in> set cs" for c
    using assms(4) built [OF that] unfolding builds_verify_def by blast+
  have each: "\<exists>rs. verify_each (dispatch H C Map.empty) msg i cs s = (rs, s) \<and> list_all cr_verified rs" for i
    using ok(2,3) by (intro verify_each_accepts) (simp add: dispatch_def)
  then obtain rs where rs: "verify_each (dispatch H C Map.empty) msg 0 cs s = (rs, s)" "list_all cr_verified rs"
    by blast
  have args: "verify_args H C [m] = Inr (msg, Map.empty)"
    by (simp add: verify_args_def composite_lawsD [OF assms(3)] msg)
  show ?thesis
    using new_of_components [OF assms(1), of cs C] ok(1) vs rs
    by (intro exI conjI) (auto simp: verify_walk [OF assms(3,2) ne args] VerificationResultWrap_all_verified_def)
qed

section \<open>Caller verifiers\<close>

text \<open>magnus converts any value to a \<open>bool\<close> by its truthiness.\<close>

definition bool_by_truthiness :: "'w rt \<Rightarrow> bool" where
  "bool_by_truthiness H \<longleftrightarrow> (\<forall>v. conv_bool H v = Inr (v \<noteq> RNil \<and> v \<noteq> RBool False))"

text \<open>C39: a caller's verifier accepts a component exactly when it returns any value other than nil and
  false; a result that is not a boolean is not refused.\<close>

theorem caller_verifier_truthy:
  fixes H :: "'w rt"
  assumes "ruby_get H = None" and "bool_by_truthiness H"
  shows "invoke_caller_verifier H cb pk m sg s = (Inr (), s') \<longleftrightarrow>
    (\<exists>v. funcall H cb ''call'' [byte_array pk, byte_array m, byte_array sg] s = (Inr v, s') \<and> v \<notin> {RNil, RBool False})"
  using assms
  by (auto simp: invoke_caller_verifier_def bool_by_truthiness_def split: prod.splits sum.splits if_splits)

section \<open>The per-component report\<close>

lemma map_of_fold_aset:
  "map_of (fold (\<lambda>c h. hash_aset (key c) (val c) h) cs h) k =
     (case map_of (rev (map (\<lambda>c. (key c, val c)) cs)) k of Some v \<Rightarrow> Some v | None \<Rightarrow> map_of h k)"
  by (induction cs arbitrary: h) (auto simp: map_of_aset map_add_def split: option.splits)

text \<open>The Hash of \<open>per_component\<close> has, under each position and under no other key, the report of the
  component at that position.\<close>

lemma per_component_positions:
  fixes H :: "'w rt" and C :: "('w, 'k, 'c) composite_api"
  assumes "composite_laws C" and "comps \<noteq> []" and "verify_args H C args = Inr (msg, cv)"
    and "CompositeSig_verify H C \<lparr>sig_inner = composite_new C comps\<rparr> args s = (Inr w, s')"
    and "VerificationResultWrap_per_component H w = Inr (RHash h)"
  shows "map_of h k =
    (case k of RInt i \<Rightarrow> if 0 \<le> i \<and> i < int (length comps)
                         then Some (component_entry (vr_per_component (res_inner w) ! nat i)) else None
     | _ \<Rightarrow> None)"
proof -
  from assms(5) have ruby: "ruby_get H = None"
    by (simp add: VerificationResultWrap_per_component_def)
  obtain rs s2 where rs: "verify_each (dispatch H C cv) msg 0 comps s = (rs, s2)" by fastforce
  have w: "vr_per_component (res_inner w) = rs"
    using verify_walk [OF assms(1) ruby assms(2,3), of s] assms(4) rs by simp
  have len: "length rs = length comps" and ix: "\<And>i. i < length rs \<Longrightarrow> cr_index (rs ! i) = i"
    using verify_each_positions [OF rs] by auto
  let ?kv = "\<lambda>c. (RInt (int (cr_index c)), component_entry c)"
  have dist: "distinct (map fst (map ?kv rs))"
    using ix by (auto simp: distinct_conv_nth)
  have h: "map_of h k = map_of (map ?kv rs) k"
    using assms(5) ruby map_of_distinct_rev [OF dist]
    by (auto simp: VerificationResultWrap_per_component_def w map_of_fold_aset split: option.split)
  have mem: "map_of (map ?kv rs) k = Some e \<longleftrightarrow> (\<exists>i < length rs. k = RInt (int i) \<and> e = component_entry (rs ! i))" for e
    unfolding map_of_eq_Some_iff [OF dist] by (auto simp: in_set_conv_nth ix image_iff Bex_def)
  show ?thesis
  proof (cases "\<exists>i < length rs. k = RInt (int i)")
    case True
    then show ?thesis using mem by (auto simp: h w len)
  next
    case False
    then have "map_of (map ?kv rs) k = None" using mem by (cases "map_of (map ?kv rs) k") auto
    with False show ?thesis
      by (auto simp: h len split: rvalue.split) (metis nat_0_le nat_less_iff)
  qed
qed

section \<open>An instance of the parameters\<close>

text \<open>Keys are their own public keys, a signature is the beginning of key and message.\<close>

definition toy_ed25519 :: "string \<Rightarrow> bytes \<Rightarrow> bytes \<Rightarrow> bytes \<Rightarrow> string + unit" where
  "toy_ed25519 a pk msg sig = (if sig = take 64 (pk @ msg) then Inr () else Inl ''bad signature'')"

definition toy_composite :: "('w, bytes, ComponentSignature list) composite_api" where
  "toy_composite =
     \<lparr>scan_verify = (\<lambda>as. case as of [m] \<Rightarrow> Inr (m, None) | [m, v] \<Rightarrow> Inr (m, Some v)
                               | _ \<Rightarrow> Inl (Exn ArgumentError ''wrong number of arguments'' [])),
      ED25519 = ''Ed25519'', ECDSA_P256 = ''ECDSA-P256'',
      ed25519_verifier = toy_ed25519, p256_verifier = toy_ed25519,
      composite_new = id, composite_count = length, composite_algorithms = map cs_algorithm,
      composite_verify = (\<lambda>comps msg f s.
        if comps = [] then (Inl ''no components'', s)
        else (let (rs, s') = verify_each f msg 0 comps s in
              (Inr \<lparr>vr_all_verified = list_all cr_verified rs, vr_per_component = rs\<rparr>, s'))),
      build_ed25519_component = (\<lambda>k msg.
        Inr \<lparr>cs_algorithm = ''Ed25519'', cs_public_key = take 32 k, cs_signature = take 64 (take 32 k @ msg)\<rparr>),
      ed25519_generate = (replicate 32 1, replicate 32 1),
      p256_key = Inr, p256_sign = (\<lambda>k msg. Inr (take 64 (k @ msg))), p256_public = id\<rparr>"

lemma toy_composite_laws: "composite_laws toy_composite" "builds_verify toy_composite"
  by (auto simp: composite_laws_def builds_verify_def toy_composite_def toy_ed25519_def component_ok_def
      ascii_def MAX_INPUT_SIZE_def)

lemma toy_composite_simps:
  "ED25519 toy_composite = ''Ed25519''"
  "ed25519_verifier toy_composite = toy_ed25519"
  by (simp_all add: toy_composite_def)

abbreviation toy_component :: ComponentSignature where
  "toy_component \<equiv> \<lparr>cs_algorithm = ''Ed25519'', cs_public_key = [1], cs_signature = [1, 5]\<rparr>"

abbreviation toy_sig :: "ComponentSignature list CompositeSig" where
  "toy_sig \<equiv> \<lparr>sig_inner = composite_new (toy_composite :: (unit, _, _) composite_api) [toy_component]\<rparr>"

abbreviation quiet_vm :: "unit vm" where
  "quiet_vm \<equiv> \<lparr>sink_ivar = RNil, stderr_log = [], world = ()\<rparr>"

lemma toy_args:
  "verify_args (core_rt id :: unit rt) toy_composite [RStr [5]] = Inr ([5], Map.empty)"
  by (simp add: verify_args_def composite_lawsD(1) [OF toy_composite_laws(1)]
      bytes_from_value_str [OF core_rt_conversions] MAX_INPUT_SIZE_def)

lemma toy_verify:
  "CompositeSig_verify (core_rt id :: unit rt) toy_composite
     toy_sig [RStr [5]] quiet_vm =
   (Inr \<lparr>res_inner = \<lparr>vr_all_verified = True, vr_per_component =
      [\<lparr>cr_index = 0, cr_algorithm = ''Ed25519'', cr_verified = True, cr_error = None\<rparr>]\<rparr>\<rparr>, quiet_vm)"
  using verify_walk [OF toy_composite_laws(1) core_rt_ruby _ toy_args, of "[toy_component]" quiet_vm]
  by (simp add: dispatch_def toy_composite_simps toy_ed25519_def)

theorem builtin_not_overridable_witness:
  "fst (CompositeSig_verify (core_rt id :: unit rt) toy_composite
     toy_sig
     [RStr [5], RHash [(rstr ''Ed25519'', RObj 7)]] quiet_vm) =
   Inr \<lparr>res_inner = \<lparr>vr_all_verified = True, vr_per_component =
      [\<lparr>cr_index = 0, cr_algorithm = ''Ed25519'', cr_verified = True, cr_error = None\<rparr>]\<rparr>\<rparr>"
proof -
  have "parse_caller_verifiers (core_rt id :: unit rt) (RHash [(rstr ''Ed25519'', RObj 7)]) =
      Inr [''Ed25519'' \<mapsto> RObj 7]"
    by (simp add: parse_caller_verifiers_def core_rt_def)
  from builtin_not_overridable [OF toy_composite_laws(1) core_rt_ruby _ _ this, of "[toy_component]" "RStr [5]" quiet_vm]
  show ?thesis by (simp add: toy_verify) (simp add: builtin_algorithm_def toy_composite_def)
qed

theorem all_verified_sound_witness:
  "ed25519_verifier (toy_composite :: (unit, _, _) composite_api) ''Ed25519'' [1] [5] [1, 5] = Inr ()"
  using all_verified_sound [OF toy_composite_laws(1) _ toy_args toy_verify, of toy_component]
  by (simp add: VerificationResultWrap_all_verified_def) (simp add: toy_composite_def)

theorem signed_composite_verifies_witness:
  "\<exists>sg w. CompositeSig_new (core_rt id :: unit rt) toy_composite
       (RArr [component_hash \<lparr>cs_algorithm = ''Ed25519'', cs_public_key = replicate 32 1,
                              cs_signature = replicate 32 1 @ [5]\<rparr>]) = Inr sg \<and>
     CompositeSig_verify (core_rt id) toy_composite sg [RStr [5]] quiet_vm = (Inr w, quiet_vm) \<and>
     VerificationResultWrap_all_verified w"
proof -
  have "sign_ed25519 (core_rt id :: unit rt) toy_composite (RStr (replicate 32 1)) (RStr [5]) quiet_vm =
      (Inr (component_hash \<lparr>cs_algorithm = ''Ed25519'', cs_public_key = replicate 32 1,
                            cs_signature = replicate 32 1 @ [5]\<rparr>), quiet_vm)"
    by (simp add: sign_ed25519_def key_and_message_def bytes_from_value_str [OF core_rt_conversions]
        MAX_INPUT_SIZE_def guarded_def audited_def fire_event_no_sink check32_def toy_composite_def)
  then show ?thesis
    by (intro signed_composite_verifies [OF core_rt_conversions core_rt_ruby toy_composite_laws]) auto
qed

definition const_callback :: "rvalue \<Rightarrow> unit rt" where
  "const_callback v = (core_rt id)\<lparr>funcall := (\<lambda>r m as s. (Inr v, s))\<rparr>"

theorem caller_verifier_truthy_witness:
  "invoke_caller_verifier (const_callback (rstr ''signature is invalid'')) (RObj 1) [1] [2] [3] quiet_vm = (Inr (), quiet_vm)"
proof -
  have "ruby_get (const_callback (rstr ''signature is invalid'')) = None"
    "bool_by_truthiness (const_callback (rstr ''signature is invalid''))"
    by (auto simp: const_callback_def core_rt_def bool_by_truthiness_def split: rvalue.splits)
  from caller_verifier_truthy [OF this] show ?thesis by (simp add: const_callback_def)
qed

lemma per_component_positions_witness:
  "\<exists>h. VerificationResultWrap_per_component (core_rt id :: unit rt)
         \<lparr>res_inner = \<lparr>vr_all_verified = True, vr_per_component =
            [\<lparr>cr_index = 0, cr_algorithm = ''Ed25519'', cr_verified = True, cr_error = None\<rparr>]\<rparr>\<rparr> = Inr (RHash h) \<and>
       map_of h (RInt 0) =
         Some (component_entry \<lparr>cr_index = 0, cr_algorithm = ''Ed25519'', cr_verified = True, cr_error = None\<rparr>)"
proof -
  obtain h where h: "VerificationResultWrap_per_component (core_rt id :: unit rt)
      \<lparr>res_inner = \<lparr>vr_all_verified = True, vr_per_component =
        [\<lparr>cr_index = 0, cr_algorithm = ''Ed25519'', cr_verified = True, cr_error = None\<rparr>]\<rparr>\<rparr> = Inr (RHash h)"
    by (simp add: VerificationResultWrap_per_component_def)
  show ?thesis
    using h per_component_positions [OF toy_composite_laws(1) _ toy_args toy_verify h, of "RInt 0"] by simp
qed

end
