(* ===== verification/Pki.thy ===== *)
theory Pki
  imports Util
begin

text \<open>
  \<^verbatim>\<open>ext/confium_native/src/pki.rs\<close>: certificates, certificate requests, CMS \<open>SignedData\<close> and XML
  canonicalization. The parsers, encoders, the clock arithmetic and the signature primitives belong
  to \<open>confium_pki\<close>, chrono, serde_json, \<open>confium_composite\<close> and p256 and are fields of the \<open>_api\<close>
  records; the size checks, the error reports, the hexadecimal and JSON texts, the index checks and
  the choice of the verifier and of the key bytes are the repository's.
\<close>

section \<open>Parameters: the crates\<close>

text \<open>A DER parser's error has a text and, where it is known, an offset.\<close>

record ('c, 't) cert_api =
  cert_from_der :: "bytes \<Rightarrow> (string \<times> nat option) + 'c"
  cert_from_pem :: "string \<Rightarrow> string + 'c"
  cert_to_der :: "'c \<Rightarrow> bytes"
  cert_to_pem :: "'c \<Rightarrow> string"
  cert_fingerprint_sha256 :: "'c \<Rightarrow> string"
  cert_serial_bytes :: "'c \<Rightarrow> bytes"
  cert_not_before :: "'c \<Rightarrow> 't"
  cert_not_after :: "'c \<Rightarrow> 't"
  cert_is_within_validity :: "'c \<Rightarrow> 't \<Rightarrow> bool"
  cert_public_key_bytes :: "'c \<Rightarrow> bytes"

record 't clock_api =
  parse_from_rfc3339 :: "string \<Rightarrow> string + 't"
  to_rfc3339 :: "'t \<Rightarrow> string"

record 'r csr_api =
  csr_from_der :: "bytes \<Rightarrow> (string \<times> nat option) + 'r"
  csr_from_pem :: "string \<Rightarrow> string + 'r"
  csr_to_der :: "'r \<Rightarrow> bytes"
  csr_to_pem :: "'r \<Rightarrow> string"

text \<open>The public fields of \<open>SignedData\<close> the extension reads; \<open>sd_rest\<close> is the rest of the structure.\<close>

record signer_info =
  si_oid :: string

record 'x signed_data =
  sd_signer_infos :: "signer_info list"
  sd_certificates :: "bytes list"
  sd_content_type :: string
  sd_content :: "bytes option"
  sd_rest :: 'x

record SignerVerification =
  sv_signer_index :: nat
  sv_verified :: bool
  sv_error :: "string option"

record cms_result =
  cms_all_verified :: bool
  cms_per_signer :: "SignerVerification list"

type_synonym signer_check = "nat \<Rightarrow> bytes \<Rightarrow> bytes \<Rightarrow> bytes \<Rightarrow> string + unit"

record ('x, 't, 'vk, 'sg) cms_api =
  sd_of_json :: "string \<Rightarrow> string + 'x signed_data"
  json_of_sd :: "'x signed_data \<Rightarrow> string + string"
  build_detached_signature :: "bytes \<Rightarrow> string \<Rightarrow> bytes \<Rightarrow> bytes list \<Rightarrow> string + 'x signed_data"
  encode_signed_data_der :: "'x signed_data \<Rightarrow> string + bytes"
  sd_signer_count :: "'x signed_data \<Rightarrow> nat"
  sd_signing_time :: "'x signed_data \<Rightarrow> 't option"
  verify_signed_data :: "'x signed_data \<Rightarrow> bytes \<Rightarrow> signer_check \<Rightarrow> string + cms_result"
  ed25519_check :: "string \<Rightarrow> bytes \<Rightarrow> bytes \<Rightarrow> bytes \<Rightarrow> string + unit"
  vk_from_sec1_bytes :: "bytes \<Rightarrow> string + 'vk"
  sig_from_der :: "bytes \<Rightarrow> string + 'sg"
  vk_verify :: "'vk \<Rightarrow> bytes \<Rightarrow> 'sg \<Rightarrow> string + unit"
  json_string :: "string \<Rightarrow> string option"

record xmldsig_api =
  canonicalize :: "string \<Rightarrow> string + string"
  canonicalize_exclusive :: "string \<Rightarrow> string + string"

section \<open>Certificate\<close>

record 'c Certificate =
  cert_inner :: 'c

definition Certificate_from_der :: "'w rt \<Rightarrow> ('c, 't) cert_api \<Rightarrow> rvalue \<Rightarrow> 'c Certificate res" where
  "Certificate_from_der H P b =
     and_then (bytes_from_value H b) (\<lambda>der.
     and_then (map_err (\<lambda>(m, off). parse_error H m ''Certificate.from_der'' (Some ''der'') off)
                 (cert_from_der P der)) (\<lambda>cert.
     with_ruby H (Inr \<lparr>cert_inner = cert\<rparr>)))"

definition Certificate_from_pem :: "'w rt \<Rightarrow> ('c, 't) cert_api \<Rightarrow> string \<Rightarrow> 'c Certificate res" where
  "Certificate_from_pem H P pem =
     and_then (enforce_size H (length pem)) (\<lambda>_.
     and_then (map_err (\<lambda>m. parse_error H m ''Certificate.from_pem'' (Some ''pem'') None)
                 (cert_from_pem P pem)) (\<lambda>cert.
     with_ruby H (Inr \<lparr>cert_inner = cert\<rparr>)))"

definition Certificate_to_der :: "'w rt \<Rightarrow> ('c, 't) cert_api \<Rightarrow> 'c Certificate \<Rightarrow> rvalue res" where
  "Certificate_to_der H P c = with_ruby H (Inr (bytes_to_rstring (cert_to_der P (cert_inner c))))"

definition Certificate_to_pem :: "('c, 't) cert_api \<Rightarrow> 'c Certificate \<Rightarrow> string" where
  "Certificate_to_pem P c = cert_to_pem P (cert_inner c)"

definition Certificate_fingerprint_sha256 :: "('c, 't) cert_api \<Rightarrow> 'c Certificate \<Rightarrow> string" where
  "Certificate_fingerprint_sha256 P c = cert_fingerprint_sha256 P (cert_inner c)"

definition Certificate_serial_hex :: "('c, 't) cert_api \<Rightarrow> 'c Certificate \<Rightarrow> string" where
  "Certificate_serial_hex P c = fold (\<lambda>b out. out @ hex_byte b) (cert_serial_bytes P (cert_inner c)) []"

definition Certificate_not_before_iso8601 ::
  "('c, 't) cert_api \<Rightarrow> 't clock_api \<Rightarrow> 'c Certificate \<Rightarrow> string" where
  "Certificate_not_before_iso8601 P K c = to_rfc3339 K (cert_not_before P (cert_inner c))"

definition Certificate_not_after_iso8601 ::
  "('c, 't) cert_api \<Rightarrow> 't clock_api \<Rightarrow> 'c Certificate \<Rightarrow> string" where
  "Certificate_not_after_iso8601 P K c = to_rfc3339 K (cert_not_after P (cert_inner c))"

definition Certificate_valid_at ::
  "'w rt \<Rightarrow> ('c, 't) cert_api \<Rightarrow> 't clock_api \<Rightarrow> 'c Certificate \<Rightarrow> string \<Rightarrow> bool res" where
  "Certificate_valid_at H P K c iso8601 =
     and_then (map_err (\<lambda>e. arg_error H (''invalid ISO8601 time: '' @ e)) (parse_from_rfc3339 K iso8601)) (\<lambda>now.
     Inr (cert_is_within_validity P (cert_inner c) now))"

definition Certificate_public_key_bytes :: "'w rt \<Rightarrow> ('c, 't) cert_api \<Rightarrow> 'c Certificate \<Rightarrow> rvalue res" where
  "Certificate_public_key_bytes H P c =
     with_ruby H (Inr (bytes_to_rstring (cert_public_key_bytes P (cert_inner c))))"

section \<open>Certificate signing request\<close>

record 'r Csr =
  csr_inner :: 'r

definition Csr_from_der :: "'w rt \<Rightarrow> 'r csr_api \<Rightarrow> rvalue \<Rightarrow> 'r Csr res" where
  "Csr_from_der H P b =
     and_then (bytes_from_value H b) (\<lambda>der.
     and_then (map_err (\<lambda>(m, off). parse_error H m ''Csr.from_der'' (Some ''der'') off)
                 (csr_from_der P der)) (\<lambda>csr.
     with_ruby H (Inr \<lparr>csr_inner = csr\<rparr>)))"

definition Csr_from_pem :: "'w rt \<Rightarrow> 'r csr_api \<Rightarrow> string \<Rightarrow> 'r Csr res" where
  "Csr_from_pem H P pem =
     and_then (enforce_size H (length pem)) (\<lambda>_.
     and_then (map_err (\<lambda>m. parse_error H m ''Csr.from_pem'' (Some ''pem'') None)
                 (csr_from_pem P pem)) (\<lambda>csr.
     with_ruby H (Inr \<lparr>csr_inner = csr\<rparr>)))"

definition Csr_to_der :: "'w rt \<Rightarrow> 'r csr_api \<Rightarrow> 'r Csr \<Rightarrow> rvalue res" where
  "Csr_to_der H P c = with_ruby H (Inr (bytes_to_rstring (csr_to_der P (csr_inner c))))"

definition Csr_to_pem :: "'r csr_api \<Rightarrow> 'r Csr \<Rightarrow> string" where
  "Csr_to_pem P c = csr_to_pem P (csr_inner c)"

section \<open>SignedData\<close>

record 'x SignedData =
  sd_inner :: "'x signed_data"

definition SignedData_from_json :: "'w rt \<Rightarrow> ('x, 't, 'vk, 'sg) cms_api \<Rightarrow> string \<Rightarrow> 'x SignedData res" where
  "SignedData_from_json H P json =
     and_then (enforce_size H (length json)) (\<lambda>_.
     and_then (map_err (\<lambda>m. parse_error H m ''SignedData.from_json'' (Some ''json'') None)
                 (sd_of_json P json)) (\<lambda>sd.
     with_ruby H (Inr \<lparr>sd_inner = sd\<rparr>)))"

definition SignedData_build_detached ::
  "'w rt \<Rightarrow> ('x, 't, 'vk, 'sg) cms_api \<Rightarrow> rvalue \<Rightarrow> string \<Rightarrow> rvalue \<Rightarrow> 'x SignedData res" where
  "SignedData_build_detached H P signature algorithm certificates =
     (if is_nil signature then Inl (arg_error H ''signature is required'')
      else if is_nil certificates then Inl (arg_error H ''certificates is required'')
      else
        and_then (bytes_from_value H signature) (\<lambda>sig_bytes.
        and_then (enforce_size H (length sig_bytes)) (\<lambda>_.
        and_then (conv_array H certificates) (\<lambda>certs_array.
        and_then (collect (\<lambda>v. and_then (bytes_from_value H v) (\<lambda>der.
                     and_then (enforce_size H (length der)) (\<lambda>_. Inr der))) certs_array) (\<lambda>cert_ders.
        with_ruby H
          (and_then (map_err (runtime H) (build_detached_signature P [] algorithm sig_bytes cert_ders)) (\<lambda>sd.
           Inr \<lparr>sd_inner = sd\<rparr>)))))))"

definition SignedData_to_json :: "'w rt \<Rightarrow> ('x, 't, 'vk, 'sg) cms_api \<Rightarrow> 'x SignedData \<Rightarrow> string res" where
  "SignedData_to_json H P d = map_err (runtime H) (json_of_sd P (sd_inner d))"

definition SignedData_to_der :: "'w rt \<Rightarrow> ('x, 't, 'vk, 'sg) cms_api \<Rightarrow> 'x SignedData \<Rightarrow> rvalue res" where
  "SignedData_to_der H P d =
     with_ruby H
       (and_then (map_err (runtime H) (encode_signed_data_der P (sd_inner d))) (\<lambda>der. Inr (bytes_to_rstring der)))"

definition SignedData_signer_count :: "('x, 't, 'vk, 'sg) cms_api \<Rightarrow> 'x SignedData \<Rightarrow> nat" where
  "SignedData_signer_count P d = sd_signer_count P (sd_inner d)"

definition SignedData_signing_time_iso8601 ::
  "('x, 't, 'vk, 'sg) cms_api \<Rightarrow> 't clock_api \<Rightarrow> 'x SignedData \<Rightarrow> string option" where
  "SignedData_signing_time_iso8601 P K d = map_option (to_rfc3339 K) (sd_signing_time P (sd_inner d))"

definition SignedData_content_type :: "'x SignedData \<Rightarrow> string" where
  "SignedData_content_type d = sd_content_type (sd_inner d)"

record CertWrapper =
  cw_bytes :: bytes

definition SignedData_content :: "'w rt \<Rightarrow> 'x SignedData \<Rightarrow> CertWrapper option res" where
  "SignedData_content H d =
     with_ruby H (case sd_content (sd_inner d) of
                    Some b \<Rightarrow> Inr (Some \<lparr>cw_bytes = b\<rparr>)
                  | None \<Rightarrow> Inr None)"

definition CertWrapper_bytes :: "'w rt \<Rightarrow> CertWrapper \<Rightarrow> rvalue res" where
  "CertWrapper_bytes H w = with_ruby H (Inr (bytes_to_rstring (cw_bytes w)))"

definition CertWrapper_length :: "CertWrapper \<Rightarrow> nat" where
  "CertWrapper_length w = length (cw_bytes w)"

definition SignedData_certificate_count :: "'x SignedData \<Rightarrow> nat" where
  "SignedData_certificate_count d = length (sd_certificates (sd_inner d))"

text \<open>\<open>slice::get(index)\<close>.\<close>

definition slice_get :: "'a list \<Rightarrow> nat \<Rightarrow> 'a option" where
  "slice_get xs i = (if i < length xs then Some (xs ! i) else None)"

definition SignedData_certificate_at :: "'w rt \<Rightarrow> 'x SignedData \<Rightarrow> nat \<Rightarrow> rvalue res" where
  "SignedData_certificate_at H d index =
     with_ruby H
       (ok_or (index_error H (''certificate index '' @ show_nat index @ '' out of range'')
                 ''SignedData.certificate_at'' (Some (word_of_nat index)))
          (map_option bytes_to_rstring (slice_get (sd_certificates (sd_inner d)) index)))"



record CmsVerificationResult =
  cvr_inner :: cms_result



definition CmsVerificationResult_signer_count :: "CmsVerificationResult \<Rightarrow> nat" where
  "CmsVerificationResult_signer_count r = length (cms_per_signer (cvr_inner r))"

fun join :: "string \<Rightarrow> string list \<Rightarrow> string" where
  "join sep [] = []"
| "join sep [x] = x"
| "join sep (x # xs) = x @ sep @ join sep xs"

abbreviation quote_char :: char where
  "quote_char \<equiv> CHR 0x22"

definition json_key :: "string \<Rightarrow> string" where
  "json_key k = [quote_char] @ k @ [quote_char] @ '':''"

definition signer_json :: "('x, 't, 'vk, 'sg) cms_api \<Rightarrow> SignerVerification \<Rightarrow> string" where
  "signer_json P s =
     (let err = (case sv_error s of
                   Some e \<Rightarrow> '','' @ json_key ''error'' @
                     (case json_string P e of Some j \<Rightarrow> j | None \<Rightarrow> ''null'')
                 | None \<Rightarrow> [])
      in ''{'' @ json_key ''signer_index'' @ show_nat (sv_signer_index s) @ '','' @
         json_key ''verified'' @ show_bool (sv_verified s) @ err @ ''}'')"

definition CmsVerificationResult_per_signer_json ::
  "('x, 't, 'vk, 'sg) cms_api \<Rightarrow> CmsVerificationResult \<Rightarrow> string" where
  "CmsVerificationResult_per_signer_json P r =
     ''['' @ join '','' (map (signer_json P) (cms_per_signer (cvr_inner r))) @ '']''"

section \<open>XML canonicalization\<close>

definition xmldsig_canonicalize :: "'w rt \<Rightarrow> xmldsig_api \<Rightarrow> string \<Rightarrow> string res" where
  "xmldsig_canonicalize H X xml =
     and_then (enforce_size H (length xml)) (\<lambda>_.
     map_err (\<lambda>m. parse_error H m ''XMLDSig.canonicalize'' (Some ''xml'') None) (canonicalize X xml))"

definition xmldsig_canonicalize_exclusive :: "'w rt \<Rightarrow> xmldsig_api \<Rightarrow> string \<Rightarrow> string res" where
  "xmldsig_canonicalize_exclusive H X xml =
     and_then (enforce_size H (length xml)) (\<lambda>_.
     map_err (\<lambda>m. parse_error H m ''XMLDSig.canonicalize_exclusive'' (Some ''xml'') None)
       (canonicalize_exclusive X xml))"

section \<open>The text entry points meet their contract\<close>

interpretation cert_pem: text_parser H "Certificate_from_pem H P" "cert_from_pem P"
    "\<lambda>c. \<lparr>cert_inner = c\<rparr>" "''Certificate.from_pem''" "''pem''" for H :: "'w rt" and P
  by (rule text_parserI) (simp add: Certificate_from_pem_def)

interpretation csr_pem: text_parser H "Csr_from_pem H Q" "csr_from_pem Q"
    "\<lambda>c. \<lparr>csr_inner = c\<rparr>" "''Csr.from_pem''" "''pem''" for H :: "'w rt" and Q
  by (rule text_parserI) (simp add: Csr_from_pem_def)

interpretation sd_json: text_parser H "SignedData_from_json H P" "sd_of_json P"
    "\<lambda>d. \<lparr>sd_inner = d\<rparr>" "''SignedData.from_json''" "''json''" for H :: "'w rt" and P
  by (rule text_parserI) (simp add: SignedData_from_json_def)

interpretation c14n: text_parser H "xmldsig_canonicalize H X" "canonicalize X" "\<lambda>x. x"
    "''XMLDSig.canonicalize''" "''xml''" for H :: "'w rt" and X
  by unfold_locales (auto simp: xmldsig_canonicalize_def enforce_size_def res_iffs split: if_splits)

interpretation exc14n: text_parser H "xmldsig_canonicalize_exclusive H X" "canonicalize_exclusive X" "\<lambda>x. x"
    "''XMLDSig.canonicalize_exclusive''" "''xml''" for H :: "'w rt" and X
  by unfold_locales (auto simp: xmldsig_canonicalize_exclusive_def enforce_size_def res_iffs split: if_splits)

section \<open>Serial numbers\<close>

fun unhex :: "string \<Rightarrow> bytes option" where
  "unhex [] = Some []"
| "unhex [c] = None"
| "unhex (c # d # cs) =
     (case (hex_value c, hex_value d, unhex cs) of
        (Some h, Some l, Some bs) \<Rightarrow> Some (word_of_nat (16 * h + l) # bs)
      | _ \<Rightarrow> None)"

lemma unhex_hex_bytes: "unhex (concat (map hex_byte bs)) = Some bs"
proof (induction bs)
  case Nil
  then show ?case by simp
next
  case (Cons b bs)
  have "unat b < 256" using unsigned_less [of b, where 'a = nat] by simp
  then have "hex_value (hex_digit (unat b div 16)) = Some (unat b div 16)"
    "hex_value (hex_digit (unat b mod 16)) = Some (unat b mod 16)"
    by (simp_all add: hex_value_hex_digit)
  with Cons show ?case by (simp add: hex_byte_def)
qed

lemma fold_append: "fold (\<lambda>b out. out @ f b) bs acc = acc @ concat (map f bs)"
  by (induction bs arbitrary: acc) simp_all

text \<open>The hexadecimal serial number is two digits per byte and decodes to the certificate's serial
  bytes, leading zeros included.\<close>

lemma serial_hex_decodes:
  "unhex (Certificate_serial_hex P c) = Some (cert_serial_bytes P (cert_inner c)) \<and>
   length (Certificate_serial_hex P c) = 2 * length (cert_serial_bytes P (cert_inner c))"
proof -
  have len: "length (concat (map hex_byte bs)) = 2 * length bs" for bs
    by (induction bs) simp_all
  show ?thesis
    by (simp add: Certificate_serial_hex_def fold_append unhex_hex_bytes) (simp add: len)
qed

section \<open>Signer verification\<close>

text \<open>What \<open>verify_signed_data\<close> documents: it hands the closure, for each signer, the encoded public key of the
  signing certificate, the bytes that were signed and the signature, and reports all signers verified only
  when the closure accepted every one. Which three byte strings these are for signer \<open>i\<close> of a document and a
  payload is the crate's business: \<open>inputs\<close>.\<close>

definition cms_laws ::
  "('x, 't, 'vk, 'sg) cms_api \<Rightarrow> ('x signed_data \<Rightarrow> bytes \<Rightarrow> nat \<Rightarrow> bytes \<times> bytes \<times> bytes) \<Rightarrow> bool" where
  "cms_laws P inputs \<longleftrightarrow>
     (\<forall>sd payload f r. verify_signed_data P sd payload f = Inr r \<longrightarrow>
        cms_all_verified r \<longrightarrow>
        (\<forall>i < length (sd_signer_infos sd).
           case inputs sd payload i of (key_der, signed_bytes, signature) \<Rightarrow> f i key_der signed_bytes signature = Inr ()))"






section \<open>The JSON report\<close>

definition decodable :: "('a \<Rightarrow> string) \<Rightarrow> bool" where
  "decodable f \<longleftrightarrow> (\<forall>x y r r'. f x @ r = f y @ r' \<longrightarrow> x = y \<and> r = r')"

definition digit :: "char \<Rightarrow> bool" where
  "digit c \<longleftrightarrow> (of_char c :: nat) \<in> {48 .. 57}"

lemma digits_then_comma:
  "list_all digit xs \<Longrightarrow> list_all digit ys \<Longrightarrow> xs @ CHR '','' # r = ys @ CHR '','' # r' \<Longrightarrow> xs = ys \<and> r = r'"
proof (induction xs arbitrary: ys)
  case Nil
  then show ?case by (cases ys) (auto simp: digit_def)
next
  case (Cons x xs)
  then show ?case by (cases ys) (auto simp: digit_def)
qed

fun nat_of_dec :: "string \<Rightarrow> nat" where
  "nat_of_dec s = foldl (\<lambda>n c. 10 * n + (of_char c - 48)) 0 s"

lemma show_nat_props: "nat_of_dec (show_nat n) = n \<and> list_all digit (show_nat n)"
proof (induction n rule: show_nat.induct)
  case (1 n)
  have d: "digit (digit_char k) \<and> of_char (digit_char k) - 48 = k" if "k < 10" for k
    using that by (simp add: digit_def digit_char_def)
  show ?case
    using 1 d [of n] d [of "n mod 10"] by (subst (1 2) show_nat.simps) auto
qed

lemma show_nat_inject: "show_nat m = show_nat n \<longleftrightarrow> m = n"
  by (metis show_nat_props)

text \<open>What serde_json documents of string literals: they are self-delimiting.\<close>

definition json_strings :: "('x, 't, 'vk, 'sg) cms_api \<Rightarrow> bool" where
  "json_strings P \<longleftrightarrow> (\<forall>e. json_string P e \<noteq> None) \<and> decodable (\<lambda>e. the (json_string P e))"

lemma json_stringsD:
  assumes "json_strings P"
  shows "\<exists>j. json_string P e = Some j"
    and "json_string P e = Some j \<Longrightarrow> json_string P e' = Some j' \<Longrightarrow> j @ r = j' @ r' \<Longrightarrow> e = e' \<and> r = r'"
proof -
  show "\<exists>j. json_string P e = Some j" using assms by (auto simp: json_strings_def)
  assume "json_string P e = Some j" "json_string P e' = Some j'" "j @ r = j' @ r'"
  then have "the (json_string P e) @ r = the (json_string P e') @ r'" by simp
  then show "e = e' \<and> r = r'" using assms unfolding json_strings_def decodable_def by blast
qed

lemma show_bool_inject:
  "show_bool b @ x # r = show_bool b' @ y # r' \<Longrightarrow> b = b' \<and> x = y \<and> r = r'"
  by (auto simp: show_bool_def split: if_splits)

lemma signer_json_decodable:
  assumes "json_strings P"
  shows "decodable (signer_json P)"
  unfolding decodable_def
proof (intro allI impI)
  fix s t r r'
  assume eq: "signer_json P s @ r = signer_json P t @ r'"
  let ?tail = "\<lambda>u q. (case sv_error u of
      Some e \<Rightarrow> '','' @ json_key ''error'' @ (case json_string P e of Some j \<Rightarrow> j | None \<Rightarrow> ''null'') | None \<Rightarrow> []) @ ''}'' @ q"
  have "show_nat (sv_signer_index s) @ CHR '','' # json_key ''verified'' @ show_bool (sv_verified s) @ ?tail s r =
        show_nat (sv_signer_index t) @ CHR '','' # json_key ''verified'' @ show_bool (sv_verified t) @ ?tail t r'"
    using eq by (simp add: signer_json_def Let_def)
  then have ix: "sv_signer_index s = sv_signer_index t"
    and rest: "show_bool (sv_verified s) @ ?tail s r = show_bool (sv_verified t) @ ?tail t r'"
    using digits_then_comma [OF conjunct2 [OF show_nat_props] conjunct2 [OF show_nat_props]]
      show_nat_inject by (metis, metis append_same_eq same_append_eq)
  obtain j j' where j: "\<And>e. sv_error s = Some e \<Longrightarrow> json_string P e = Some j"
    "\<And>e. sv_error t = Some e \<Longrightarrow> json_string P e = Some j'"
    using json_stringsD(1) [OF assms] by (metis option.sel)
  have "sv_verified s = sv_verified t \<and> sv_error s = sv_error t \<and> r = r'"
  proof (cases "sv_error s"; cases "sv_error t")
    fix e e'
    assume es: "sv_error s = Some e" "sv_error t = Some e'"
    with rest j have "sv_verified s = sv_verified t" "j @ ''}'' @ r = j' @ ''}'' @ r'"
      by (auto dest!: show_bool_inject)
    with es j json_stringsD(2) [OF assms] show ?thesis by (metis append_same_eq same_append_eq)
  qed (use rest in \<open>auto dest!: show_bool_inject\<close>)
  with ix show "s = t \<and> r = r'" by simp
qed

lemma join_inject:
  assumes "decodable f" "\<And>x. \<exists>cs. f x = CHR ''{'' # cs"
    and "join '','' (map f xs) @ '']'' = join '','' (map f ys) @ '']''"
  shows "xs = ys"
proof -
  define rest where "rest us = (if us = [] then '']'' else '','' @ join '','' (map f us) @ '']'')" for us
  have tail: "join '','' (map f (x # us)) @ '']'' = f x @ rest us" for x us
    by (cases us) (simp_all add: rest_def)
  have empty: "zs = []" if "join '','' (map f zs) @ '']'' = '']''" for zs
  proof (cases zs)
    case (Cons z us)
    obtain cs where "f z = CHR ''{'' # cs" using assms(2) by blast
    with that Cons tail [of z us] show ?thesis by simp
  qed simp
  show ?thesis
    using assms(3)
  proof (induction xs arbitrary: ys)
    case Nil
    then show ?case using empty [of ys] by simp
  next
    case (Cons x xs)
    then obtain y zs where ys: "ys = y # zs"
      using empty [of "x # xs"] by (cases ys) auto
    with Cons.prems have "f x @ rest xs = f y @ rest zs" by (simp only: tail)
    with assms(1) have "x = y" "rest xs = rest zs" unfolding decodable_def by blast+
    with Cons.IH ys show ?case by (auto simp: rest_def split: if_splits)
  qed
qed

text \<open>C33: the JSON text of \<open>per_signer_json\<close> determines the report: index, outcome and error of every
  signer, in order.\<close>

theorem per_signer_json_inject:
  assumes "json_strings P"
    and "CmsVerificationResult_per_signer_json P r = CmsVerificationResult_per_signer_json P r'"
  shows "cms_per_signer (cvr_inner r) = cms_per_signer (cvr_inner r')"
proof -
  have "\<exists>cs. signer_json P x = CHR ''{'' # cs" for x by (simp add: signer_json_def Let_def)
  with join_inject [OF signer_json_decodable [OF assms(1)]] assms(2) show ?thesis
    by (simp add: CmsVerificationResult_per_signer_json_def)
qed

section \<open>An instance of the parameters\<close>

text \<open>A JSON string literal that marks every character, so that it is self-delimiting.\<close>

definition marked :: "string \<Rightarrow> string" where
  "marked e = [quote_char] @ concat (map (\<lambda>c. [CHR ''.'', c]) e) @ [quote_char]"

lemma marked_decodable: "decodable marked"
proof -
  have mk: "concat (map (\<lambda>c. [CHR ''.'', c]) e) @ quote_char # r = concat (map (\<lambda>c. [CHR ''.'', c]) e') @ quote_char # r' \<Longrightarrow>
      e = e' \<and> r = r'" for e e' :: string and r r'
  proof (induction e arbitrary: e')
    case Nil
    then show ?case by (cases e') auto
  next
    case (Cons c e)
    then show ?case by (cases e') auto
  qed
  show ?thesis unfolding decodable_def
  proof (intro allI impI)
    fix e e' r r'
    assume "marked e @ r = marked e' @ r'"
    then have "concat (map (\<lambda>c. [CHR ''.'', c]) e) @ quote_char # r =
        concat (map (\<lambda>c. [CHR ''.'', c]) e') @ quote_char # r'"
      by (simp add: marked_def)
    then show "e = e' \<and> r = r'" by (rule mk)
  qed
qed

definition toy_cms :: "(unit, nat, bytes, bytes) cms_api" where
  "toy_cms =
     \<lparr>sd_of_json = (\<lambda>j. Inl ''unsupported''),
      json_of_sd = (\<lambda>d. Inr ''{}''),
      build_detached_signature = (\<lambda>content alg sig certs.
        Inr \<lparr>sd_signer_infos = [\<lparr>si_oid = alg\<rparr>], sd_certificates = certs, sd_content_type = ''data'',
             sd_content = None, sd_rest = ()\<rparr>),
      encode_signed_data_der = (\<lambda>d. Inr []),
      sd_signer_count = (\<lambda>d. length (sd_signer_infos d)),
      sd_signing_time = (\<lambda>d. None),
      verify_signed_data = (\<lambda>d payload f.
        let rs = map (\<lambda>i. f i (replicate 8 1 @ replicate 32 2) payload (word_of_nat i # payload))
              [0 ..< length (sd_signer_infos d)] in
        Inr \<lparr>cms_all_verified = list_all (\<lambda>r. r = Inr ()) rs, cms_per_signer = []\<rparr>),
      ed25519_check = (\<lambda>a k m s. if k = replicate 32 2 \<and> m = tl s then Inr () else Inl ''bad''),
      vk_from_sec1_bytes = Inr, sig_from_der = Inr,
      vk_verify = (\<lambda>k m s. if m = s then Inr () else Inl ''bad''),
      json_string = (\<lambda>e. Some (marked e))\<rparr>"

definition toy_inputs :: "unit signed_data \<Rightarrow> bytes \<Rightarrow> nat \<Rightarrow> bytes \<times> bytes \<times> bytes" where
  "toy_inputs d payload i = (replicate 8 1 @ replicate 32 2, payload, word_of_nat i # payload)"

lemma toy_cms_laws: "cms_laws toy_cms toy_inputs" "json_strings toy_cms"
  using marked_decodable
  by (force simp: cms_laws_def toy_cms_def toy_inputs_def Let_def list_all_iff, simp add: json_strings_def toy_cms_def)


theorem per_signer_json_inject_witness:
  "cms_per_signer (cvr_inner \<lparr>cvr_inner = \<lparr>cms_all_verified = True, cms_per_signer =
      [\<lparr>sv_signer_index = 0, sv_verified = False, sv_error = Some ''bad''\<rparr>]\<rparr>\<rparr>) =
   cms_per_signer (cvr_inner \<lparr>cvr_inner = \<lparr>cms_all_verified = False, cms_per_signer =
      [\<lparr>sv_signer_index = 0, sv_verified = False, sv_error = Some ''bad''\<rparr>]\<rparr>\<rparr>)"
  by (rule per_signer_json_inject [OF toy_cms_laws(2)]) (simp add: CmsVerificationResult_per_signer_json_def)

end
