(* ===== verification/Path.thy ===== *)
theory Path
  imports Pki
begin

text \<open>
  \<^verbatim>\<open>ext/confium_native/src/path.rs\<close>: validation of a certificate chain. The three arguments are Ruby
  certificate objects; each is asked for its DER, by a Ruby method call, and parsed again. The chain
  rules themselves (\<open>confium_pki::path::validate_path\<close>) are a parameter.
\<close>

section \<open>Definitions\<close>

record ('c, 't, 'k) path_api =
  scan_validate :: "rvalue list \<Rightarrow> exn + (rvalue \<times> rvalue \<times> rvalue) \<times> string option"
  validate_path :: "'c \<Rightarrow> 'c list \<Rightarrow> 'c \<Rightarrow> 't \<Rightarrow> bool \<times> 'k list"
  check_debug :: "'k \<Rightarrow> string"

record 'k PathResult =
  pr_valid :: bool
  pr_checks :: "'k list"

definition PathResult_valid :: "'k PathResult \<Rightarrow> bool" where
  "PathResult_valid r = pr_valid r"

definition PathResult_checks_json :: "('c, 't, 'k) path_api \<Rightarrow> 'k PathResult \<Rightarrow> string" where
  "PathResult_checks_json V r = ''['' @ join '','' (map (check_debug V) (pr_checks r)) @ '']''"

definition PathResult_check_count :: "'k PathResult \<Rightarrow> nat" where
  "PathResult_check_count r = length (pr_checks r)"

definition extract_cert ::
  "'w rt \<Rightarrow> ('c, 't) cert_api \<Rightarrow> string \<Rightarrow> rvalue \<Rightarrow> 'w vm \<Rightarrow> 'c res \<times> 'w vm" where
  "extract_cert H P label v s =
     (let (r, s') = funcall H v ''to_der'' [] s in
      (and_then (map_err (\<lambda>e. parse_error H (label @ '': cannot get DER: '' @ exn_display H e)
                    ''PathValidator.validate'' (Some ''der'') None) r) (\<lambda>der_value.
       and_then (bytes_from_value H der_value) (\<lambda>der.
       map_err (\<lambda>(m, off). parse_error H (label @ '': invalid DER: '' @ m)
                    ''PathValidator.validate'' (Some ''der'') None) (cert_from_der P der))), s'))"

text \<open>\<open>e?\<close> in code that runs Ruby methods: an error returns with the state reached so far.\<close>

definition step_then :: "'a res \<times> 's \<Rightarrow> ('a \<Rightarrow> 's \<Rightarrow> 'b res \<times> 's) \<Rightarrow> 'b res \<times> 's" where
  "step_then r k = (case r of (Inl e, s) \<Rightarrow> (Inl e, s) | (Inr x, s) \<Rightarrow> k x s)"

fun extract_certs ::
  "'w rt \<Rightarrow> ('c, 't) cert_api \<Rightarrow> string \<Rightarrow> rvalue list \<Rightarrow> 'w vm \<Rightarrow> 'c list res \<times> 'w vm" where
  "extract_certs H P label [] s = (Inr [], s)"
| "extract_certs H P label (v # vs) s =
     step_then (extract_cert H P label v s) (\<lambda>c s1.
     step_then (extract_certs H P label vs s1) (\<lambda>cs s2. (Inr (c # cs), s2)))"

definition validate ::
  "'w rt \<Rightarrow> ('c, 't) cert_api \<Rightarrow> 't clock_api \<Rightarrow> ('w vm \<Rightarrow> 't) \<Rightarrow> ('c, 't, 'k) path_api \<Rightarrow> rvalue list \<Rightarrow> 'w vm
     \<Rightarrow> 'k PathResult res \<times> 'w vm" where
  "validate H P K now_utc V args s0 =
     (case scan_validate V args of
        Inl e \<Rightarrow> (Inl e, s0)
      | Inr ((leaf_value, intermediates_value, root_value), now_iso8601) \<Rightarrow>
          step_then (extract_cert H P ''leaf'' leaf_value s0) (\<lambda>leaf s1.
          step_then (extract_cert H P ''root'' root_value s1) (\<lambda>root s2.
          step_then
            (if is_nil intermediates_value then (Inr [], s2)
             else (case map_err (\<lambda>e. arg_error H (exn_display H e)) (conv_array H intermediates_value) of
                     Inl e \<Rightarrow> (Inl e, s2)
                   | Inr arr \<Rightarrow> extract_certs H P ''intermediate'' arr s2)) (\<lambda>intermediates s3.
          step_then
            (case now_iso8601 of
               Some stamp \<Rightarrow> (map_err (\<lambda>e. arg_error H (''invalid time: '' @ e)) (parse_from_rfc3339 K stamp), s3)
             | None \<Rightarrow> (Inr (now_utc s3), s3)) (\<lambda>now s4.
          (let (valid, checks) = validate_path V leaf intermediates root now in
           (with_ruby H (Inr \<lparr>pr_valid = valid, pr_checks = checks\<rparr>), s4)))))))"

section \<open>Certificate objects\<close>

text \<open>\<open>objs\<close> says which certificate a Ruby object wraps; \<open>to_der\<close> on such an object is the method of
  \<^verbatim>\<open>pki.rs\<close>, and the crate's parser reads what its encoder wrote.\<close>

definition cert_objects ::
  "'w rt \<Rightarrow> ('c, 't) cert_api \<Rightarrow> (nat \<rightharpoonup> 'c Certificate) \<Rightarrow> bool" where
  "cert_objects H P objs \<longleftrightarrow>
     (\<forall>n c s. objs n = Some c \<longrightarrow> funcall H (RObj n) ''to_der'' [] s = (Certificate_to_der H P c, s)) \<and>
     (\<forall>n c. objs n = Some c \<longrightarrow> length (cert_to_der P (cert_inner c)) \<le> MAX_INPUT_SIZE) \<and>
     (\<forall>c. cert_from_der P (cert_to_der P c) = Inr c)"

lemma extract_cert_object:
  assumes "core_conversions H" "ruby_get H = None" "cert_objects H P objs" "objs n = Some c"
  shows "extract_cert H P label (RObj n) s = (Inr (cert_inner c), s)"
proof -
  have "funcall H (RObj n) ''to_der'' [] s = (Inr (bytes_to_rstring (cert_to_der P (cert_inner c))), s)"
    using assms by (simp add: cert_objects_def Certificate_to_der_def)
  moreover have "bytes_from_value H (bytes_to_rstring (cert_to_der P (cert_inner c))) = Inr (cert_to_der P (cert_inner c))"
    using assms by (auto simp: cert_objects_def intro: rstring_arg)
  moreover have "cert_from_der P (cert_to_der P (cert_inner c)) = Inr (cert_inner c)"
    using assms(3) by (simp add: cert_objects_def)
  ultimately show ?thesis by (simp add: extract_cert_def)
qed

lemma step_then_simps [simp]:
  "step_then (Inl e, s) k = (Inl e, s)"
  "step_then (Inr x, s) k = k x s"
  by (simp_all add: step_then_def)

lemma extract_certs_objects:
  assumes "core_conversions H" "ruby_get H = None" "cert_objects H P objs" "\<forall>n \<in> set ns. objs n \<noteq> None"
  shows "extract_certs H P label (map RObj ns) s = (Inr (map (\<lambda>n. cert_inner (the (objs n))) ns), s)"
  using assms(4)
  by (induction ns) (auto simp: extract_cert_object [OF assms(1-3)])

text \<open>C28: validating certificate objects validates exactly the certificates they wrap, the leaf, the
  intermediates in the order given and the root, at the given time, and changes no state.\<close>

theorem validate_wrapped_chain:
  fixes H :: "'w rt"
  assumes "core_conversions H" and "ruby_get H = None" and "cert_objects H P objs"
    and "scan_validate V args = Inr ((RObj l, RArr (map RObj is), RObj r), Some stamp)"
    and "objs l = Some lc" and "objs r = Some rc" and "\<forall>n \<in> set is. objs n \<noteq> None"
    and "parse_from_rfc3339 K stamp = Inr now"
  shows "validate H P K now_utc V args s =
    (let (valid, checks) = validate_path V (cert_inner lc) (map (\<lambda>n. cert_inner (the (objs n))) is) (cert_inner rc) now
     in (Inr \<lparr>pr_valid = valid, pr_checks = checks\<rparr>, s))"
  using assms
  by (simp add: validate_def extract_cert_object [OF assms(1-3)] extract_certs_objects [OF assms(1-3)]
      core_conversionsD split: prod.split)

text \<open>An instance: certificates are their own DER and live at their index in a list of objects.\<close>

definition der_certs :: "(bytes, nat) cert_api" where
  "der_certs =
     \<lparr>cert_from_der = Inr, cert_from_pem = (\<lambda>p. Inl ''no PEM''), cert_to_der = id, cert_to_pem = (\<lambda>c. []),
      cert_fingerprint_sha256 = (\<lambda>c. []), cert_serial_bytes = id, cert_not_before = length, cert_not_after = length,
      cert_is_within_validity = (\<lambda>c t. True), cert_public_key_bytes = id\<rparr>"

definition der_objs :: "nat \<rightharpoonup> bytes Certificate" where
  "der_objs n = (if n < 100 then Some \<lparr>cert_inner = [word_of_nat n]\<rparr> else None)"

definition der_rt :: "unit rt" where
  "der_rt = (core_rt id)\<lparr>funcall := (\<lambda>v m as s. case v of
     RObj n \<Rightarrow> (Inr (RStr [word_of_nat n]), s) | _ \<Rightarrow> (Inl type_error, s))\<rparr>"

definition chain_api :: "(bytes, nat, string) path_api" where
  "chain_api =
     \<lparr>scan_validate = (\<lambda>as. case as of [l, i, r, RStr t] \<Rightarrow> Inr ((l, i, r), Some (text_of t))
                             | _ \<Rightarrow> Inl (Exn ArgumentError ''wrong number of arguments'' [])),
      validate_path = (\<lambda>l is r now. (l \<noteq> r, [''TimeValid''])),
      check_debug = id\<rparr>"

lemma der_rt_laws: "core_conversions der_rt" "ruby_get der_rt = None" "cert_objects der_rt der_certs der_objs"
proof -
  show "core_conversions der_rt"
    using core_rt_conversions [of id, where 'a = unit] by (simp add: der_rt_def core_conversions_def)
  show ruby: "ruby_get der_rt = None" by (simp add: der_rt_def)
  show "cert_objects der_rt der_certs der_objs"
    by (auto simp: cert_objects_def Certificate_to_der_def der_certs_def der_objs_def ruby bytes_to_rstring_def
        MAX_INPUT_SIZE_def) (simp add: der_rt_def)
qed

theorem validate_wrapped_chain_witness:
  "validate der_rt der_certs \<lparr>parse_from_rfc3339 = (\<lambda>t. Inr 5), to_rfc3339 = (\<lambda>t. [])\<rparr> (\<lambda>s. 0) chain_api
     [RObj 1, RArr [RObj 2], RObj 3, rstr ''now''] \<lparr>sink_ivar = RNil, stderr_log = [], world = ()\<rparr> =
   (Inr \<lparr>pr_valid = True, pr_checks = [''TimeValid'']\<rparr>, \<lparr>sink_ivar = RNil, stderr_log = [], world = ()\<rparr>)"
proof -
  have "scan_validate chain_api [RObj 1, RArr [RObj 2], RObj 3, rstr ''now''] =
      Inr ((RObj 1, RArr (map RObj [2]), RObj 3), Some ''now'')"
    by (simp add: chain_api_def)
  from validate_wrapped_chain [OF der_rt_laws this, where K = "\<lparr>parse_from_rfc3339 = (\<lambda>t. Inr 5), to_rfc3339 = (\<lambda>t. [])\<rparr>"]
  show ?thesis by (simp add: der_objs_def) (simp add: chain_api_def)
qed

end
