(* ===== verification/Attributes.thy ===== *)
theory Attributes
  imports Util
begin

text \<open>
  \<^verbatim>\<open>ext/confium_native/src/attributes.rs\<close>: signers with attributes, and predicates over a list of
  signers. A \<open>Signer\<close> is a Ruby object that wraps a mutable cell: the cells are a store from object
  identities to the crate's attribute maps, so that two references to one signer alias. The predicate
  language and its evaluator (\<open>confium_attributes\<close>) are parameters.
\<close>

section \<open>Definitions\<close>

text \<open>\<open>not_a_signer\<close> is the exception of \<open>Obj::<SignerWrap>::try_convert\<close> on any other value.\<close>

record ('p, 'a) attributes_api =
  dsl_parse :: "string \<Rightarrow> string + 'p"
  evaluate :: "'p \<Rightarrow> 'a list \<Rightarrow> bool"
  attrs_new :: 'a
  attrs_add :: "string \<Rightarrow> string \<Rightarrow> 'a \<Rightarrow> 'a"
  attrs_has :: "'a \<Rightarrow> string \<Rightarrow> bool"
  attrs_values :: "'a \<Rightarrow> string \<Rightarrow> string list"
  not_a_signer :: "rvalue \<Rightarrow> exn"

type_synonym 'a store = "nat \<rightharpoonup> 'a"

definition borrow_signer :: "('p, 'a) attributes_api \<Rightarrow> 'a store \<Rightarrow> rvalue \<Rightarrow> 'a res" where
  "borrow_signer A st v =
     (case v of
        RObj n \<Rightarrow> ok_or (not_a_signer A v) (st n)
      | _ \<Rightarrow> Inl (not_a_signer A v))"

record 'p PredicateWrap =
  pw_inner :: 'p

definition PredicateWrap_satisfied_by ::
  "'w rt \<Rightarrow> ('p, 'a) attributes_api \<Rightarrow> 'a store \<Rightarrow> 'p PredicateWrap \<Rightarrow> rvalue \<Rightarrow> bool res" where
  "PredicateWrap_satisfied_by H A st p signers_value =
     and_then (conv_array H signers_value) (\<lambda>arr.
     and_then (collect (borrow_signer A st) arr) (\<lambda>owned.
     Inr (evaluate A (pw_inner p) owned)))"

text \<open>\<open>new\<close> puts an empty attribute map into the cell of the object the VM allocated.\<close>

definition SignerWrap_new :: "('p, 'a) attributes_api \<Rightarrow> nat \<Rightarrow> 'a store \<Rightarrow> 'a store" where
  "SignerWrap_new A n st = st(n \<mapsto> attrs_new A)"

definition SignerWrap_add :: "('p, 'a) attributes_api \<Rightarrow> nat \<Rightarrow> string \<Rightarrow> string \<Rightarrow> 'a store \<Rightarrow> 'a store" where
  "SignerWrap_add A n key val st = (case st n of None \<Rightarrow> st | Some a \<Rightarrow> st(n \<mapsto> attrs_add A key val a))"

definition SignerWrap_has :: "('p, 'a) attributes_api \<Rightarrow> 'a store \<Rightarrow> nat \<Rightarrow> string \<Rightarrow> bool" where
  "SignerWrap_has A st n key = (case st n of None \<Rightarrow> False | Some a \<Rightarrow> attrs_has A a key)"

definition SignerWrap_values :: "('p, 'a) attributes_api \<Rightarrow> 'a store \<Rightarrow> nat \<Rightarrow> string \<Rightarrow> string list" where
  "SignerWrap_values A st n key = (case st n of None \<Rightarrow> [] | Some a \<Rightarrow> attrs_values A a key)"

definition attributes_parse :: "'w rt \<Rightarrow> ('p, 'a) attributes_api \<Rightarrow> string \<Rightarrow> 'p PredicateWrap res" where
  "attributes_parse H A expr =
     and_then (map_err (\<lambda>m. parse_error H m ''Attributes.parse'' (Some ''dsl'') None) (dsl_parse A expr)) (\<lambda>predicate.
     with_ruby H (Inr \<lparr>pw_inner = predicate\<rparr>))"

section \<open>Signers are read at evaluation time\<close>

lemma borrow_objects:
  "\<forall>n \<in> set ns. st n \<noteq> None \<Longrightarrow> collect (borrow_signer A st) (map RObj ns) = Inr (map (\<lambda>n. the (st n)) ns)"
  by (subst collect_map, rule collect_all_Inr) (auto simp: borrow_signer_def)

text \<open>The store after a sequence of \<open>add\<close> calls \<open>(object, key, value)\<close>.\<close>

definition add_all :: "('p, 'a) attributes_api \<Rightarrow> (nat \<times> string \<times> string) list \<Rightarrow> 'a store \<Rightarrow> 'a store" where
  "add_all A calls st = fold (\<lambda>(n, k, v). SignerWrap_add A n k v) calls st"

lemma add_all_at:
  "add_all A calls st n =
     map_option (fold (\<lambda>(m, k, v) a. if m = n then attrs_add A k v a else a) calls) (st n)"
proof (induction calls arbitrary: st)
  case Nil
  then show ?case by (simp add: add_all_def option.map_ident)
next
  case (Cons c calls)
  obtain m k v where c: "c = (m, k, v)" by (cases c) auto
  have "add_all A (c # calls) st = add_all A calls (SignerWrap_add A m k v st)"
    by (simp add: add_all_def c)
  then show ?case
    by (cases "st m"; cases "st n") (auto simp: Cons.IH c SignerWrap_add_def)
qed

text \<open>C26: a predicate is evaluated on what every signer of the array holds at the time of the call,
  position by position: each signer with exactly the attributes that were added to that object, in
  order, through any reference, and a signer that occurs twice counts twice.\<close>

theorem satisfied_by_current_attributes:
  fixes H :: "'w rt"
  assumes "core_conversions H" and "\<forall>n \<in> set ns. st n \<noteq> None"
  shows "PredicateWrap_satisfied_by H A (add_all A calls st) p (RArr (map RObj ns)) =
    Inr (evaluate A (pw_inner p)
      (map (\<lambda>n. fold (\<lambda>(m, k, v) a. if m = n then attrs_add A k v a else a) calls (the (st n))) ns))"
proof -
  have all: "\<forall>n \<in> set ns. add_all A calls st n \<noteq> None" using assms(2) by (simp add: add_all_at)
  have eq: "map (\<lambda>n. the (add_all A calls st n)) ns =
      map (\<lambda>n. fold (\<lambda>(m, k, v) a. if m = n then attrs_add A k v a else a) calls (the (st n))) ns"
    using assms(2) by (auto simp: add_all_at)
  show ?thesis
    unfolding eq [symmetric]
    using assms(1) by (simp add: PredicateWrap_satisfied_by_def core_conversionsD borrow_objects [OF all])
qed

text \<open>An instance: attribute maps are lists of pairs, the predicate is a required number of directors.\<close>

definition director_api :: "(nat, (string \<times> string) list) attributes_api" where
  "director_api =
     \<lparr>dsl_parse = (\<lambda>e. if e = '''' then Inl ''empty'' else Inr (length e)),
      evaluate = (\<lambda>k as. k \<le> length (filter (\<lambda>a. (''role'', ''director'') \<in> set a) as)),
      attrs_new = [], attrs_add = (\<lambda>k v a. a @ [(k, v)]),
      attrs_has = (\<lambda>a k. k \<in> set (map fst a)), attrs_values = (\<lambda>a k. map snd (filter (\<lambda>(k', v). k' = k) a)),
      not_a_signer = (\<lambda>v. type_error)\<rparr>"

theorem satisfied_by_current_attributes_witness:
  "PredicateWrap_satisfied_by (core_rt id :: unit rt) director_api
     (add_all director_api [(4, ''role'', ''director'')] [4 \<mapsto> [], 5 \<mapsto> []]) \<lparr>pw_inner = 2\<rparr> (RArr (map RObj [4, 5, 4])) =
   Inr True"
  by (subst satisfied_by_current_attributes [OF core_rt_conversions]) (simp_all add: director_api_def)

end
