(* ===== verification/Deployment.thy ===== *)
theory Deployment
  imports Pki
begin

text \<open>
  \<^verbatim>\<open>ext/confium_native/src/deployment.rs\<close>: actor identities and deployment manifests. The JSON and TOML
  parsers, the validator and the formatting of times belong to serde_json, \<open>confium_deployment\<close> and
  chrono and are parameters; the public fields of the crate's structures are records.
\<close>

section \<open>Actors\<close>

datatype ActorType =
    Manufacturer | TestingLab | IssuingAuthorityOfficer | BimlDirector | QuorumCoordinator | Verifier

record ('t, 'x) ActorIdentity =
  ai_actor_id :: string
  ai_actor_type :: ActorType
  ai_quorum_id :: "string option"
  ai_registered_at :: 't
  ai_expires_at :: "'t option"
  ai_certificate_chain_der :: "bytes list"
  ai_rest :: 'x

record ('t, 'x) identity_api =
  actor_of_json :: "string \<Rightarrow> string + ('t, 'x) ActorIdentity"
  json_of_actor :: "('t, 'x) ActorIdentity \<Rightarrow> string + string"

record ('t, 'x) Actor =
  actor_inner :: "('t, 'x) ActorIdentity"

definition Actor_from_json :: "'w rt \<Rightarrow> ('t, 'x) identity_api \<Rightarrow> string \<Rightarrow> ('t, 'x) Actor res" where
  "Actor_from_json H I json =
     and_then (enforce_size H (length json)) (\<lambda>_.
     and_then (map_err (\<lambda>m. parse_error H m ''Actor.from_json'' (Some ''json'') None) (actor_of_json I json)) (\<lambda>actor.
     with_ruby H (Inr \<lparr>actor_inner = actor\<rparr>)))"

definition Actor_to_json :: "'w rt \<Rightarrow> ('t, 'x) identity_api \<Rightarrow> ('t, 'x) Actor \<Rightarrow> string res" where
  "Actor_to_json H I a = map_err (runtime H) (json_of_actor I (actor_inner a))"

definition Actor_actor_id :: "('t, 'x) Actor \<Rightarrow> string" where
  "Actor_actor_id a = ai_actor_id (actor_inner a)"

fun actor_type_str :: "ActorType \<Rightarrow> string" where
  "actor_type_str Manufacturer = ''manufacturer''"
| "actor_type_str TestingLab = ''testing_lab''"
| "actor_type_str IssuingAuthorityOfficer = ''issuing_authority_officer''"
| "actor_type_str BimlDirector = ''biml_director''"
| "actor_type_str QuorumCoordinator = ''quorum_coordinator''"
| "actor_type_str Verifier = ''verifier''"

definition Actor_actor_type :: "('t, 'x) Actor \<Rightarrow> string" where
  "Actor_actor_type a = actor_type_str (ai_actor_type (actor_inner a))"

definition Actor_quorum_id :: "('t, 'x) Actor \<Rightarrow> string option" where
  "Actor_quorum_id a = ai_quorum_id (actor_inner a)"

definition Actor_registered_at_iso8601 :: "'t clock_api \<Rightarrow> ('t, 'x) Actor \<Rightarrow> string" where
  "Actor_registered_at_iso8601 K a = to_rfc3339 K (ai_registered_at (actor_inner a))"

definition Actor_expires_at_iso8601 :: "'t clock_api \<Rightarrow> ('t, 'x) Actor \<Rightarrow> string option" where
  "Actor_expires_at_iso8601 K a = map_option (to_rfc3339 K) (ai_expires_at (actor_inner a))"

definition Actor_certificate_count :: "('t, 'x) Actor \<Rightarrow> nat" where
  "Actor_certificate_count a = length (ai_certificate_chain_der (actor_inner a))"

definition actor_types :: "string list" where
  "actor_types =
     [actor_type_str Manufacturer, actor_type_str TestingLab, actor_type_str IssuingAuthorityOfficer,
      actor_type_str BimlDirector, actor_type_str QuorumCoordinator, actor_type_str Verifier]"

section \<open>Manifests\<close>

record 'm manifest_api =
  parse_manifest :: "string \<Rightarrow> string + 'm"
  mf_deployment_name :: "'m \<Rightarrow> string"
  mf_operator :: "'m \<Rightarrow> string"
  mf_manifest_version :: "'m \<Rightarrow> u32"
  mf_tier_names :: "'m \<Rightarrow> string list"
  mf_quorum_count :: "'m \<Rightarrow> nat"
  validate_manifest :: "'m \<Rightarrow> string list"

record 'm Manifest =
  manifest_inner :: 'm

definition Manifest_from_toml :: "'w rt \<Rightarrow> 'm manifest_api \<Rightarrow> string \<Rightarrow> 'm Manifest res" where
  "Manifest_from_toml H M toml_str =
     and_then (enforce_size H (length toml_str)) (\<lambda>_.
     and_then (map_err (\<lambda>m. parse_error H m ''Manifest.from_toml'' (Some ''toml'') None) (parse_manifest M toml_str)) (\<lambda>manifest.
     with_ruby H (Inr \<lparr>manifest_inner = manifest\<rparr>)))"

definition Manifest_deployment_name :: "'m manifest_api \<Rightarrow> 'm Manifest \<Rightarrow> string" where
  "Manifest_deployment_name M m = mf_deployment_name M (manifest_inner m)"

definition Manifest_operator :: "'m manifest_api \<Rightarrow> 'm Manifest \<Rightarrow> string" where
  "Manifest_operator M m = mf_operator M (manifest_inner m)"

definition Manifest_manifest_version :: "'m manifest_api \<Rightarrow> 'm Manifest \<Rightarrow> u32" where
  "Manifest_manifest_version M m = mf_manifest_version M (manifest_inner m)"

definition Manifest_tier_count :: "'m manifest_api \<Rightarrow> 'm Manifest \<Rightarrow> nat" where
  "Manifest_tier_count M m = length (mf_tier_names M (manifest_inner m))"

definition Manifest_tier_name_at :: "'w rt \<Rightarrow> 'm manifest_api \<Rightarrow> 'm Manifest \<Rightarrow> nat \<Rightarrow> string res" where
  "Manifest_tier_name_at H M m index =
     ok_or (index_error H (''tier index '' @ show_nat index @ '' out of range'')
              ''Manifest.tier_name_at'' (Some (word_of_nat index)))
       (slice_get (mf_tier_names M (manifest_inner m)) index)"

definition Manifest_quorum_count :: "'m manifest_api \<Rightarrow> 'm Manifest \<Rightarrow> nat" where
  "Manifest_quorum_count M m = mf_quorum_count M (manifest_inner m)"

definition Manifest_validate :: "'m manifest_api \<Rightarrow> 'm Manifest \<Rightarrow> string list res" where
  "Manifest_validate M m = Inr (validate_manifest M (manifest_inner m))"

definition Manifest_is_valid :: "'m manifest_api \<Rightarrow> 'm Manifest \<Rightarrow> bool res" where
  "Manifest_is_valid M m = Inr (validate_manifest M (manifest_inner m) = [])"

section \<open>Contracts\<close>

interpretation actor_json: text_parser H "Actor_from_json H I" "actor_of_json I"
    "\<lambda>a. \<lparr>actor_inner = a\<rparr>" "''Actor.from_json''" "''json''" for H :: "'w rt" and I
  by (rule text_parserI) (simp add: Actor_from_json_def)

interpretation manifest_toml: text_parser H "Manifest_from_toml H M" "parse_manifest M"
    "\<lambda>m. \<lparr>manifest_inner = m\<rparr>" "''Manifest.from_toml''" "''toml''" for H :: "'w rt" and M
  by (rule text_parserI) (simp add: Manifest_from_toml_def)

text \<open>\<open>actor_types\<close> lists the name of every actor type once, and different types have different
  names.\<close>

lemma actor_types_complete:
  "set actor_types = range actor_type_str \<and> distinct actor_types \<and> inj actor_type_str"
proof -
  have "range actor_type_str \<subseteq> set actor_types"
  proof
    fix n
    assume "n \<in> range actor_type_str"
    then obtain t where "n = actor_type_str t" by blast
    then show "n \<in> set actor_types" by (cases t) (simp_all add: actor_types_def)
  qed
  moreover have "set actor_types \<subseteq> range actor_type_str" by (simp add: actor_types_def del: actor_type_str.simps)
  moreover have "distinct actor_types" by (simp add: actor_types_def)
  moreover have "inj actor_type_str"
  proof (rule injI)
    fix s t :: ActorType
    assume "actor_type_str s = actor_type_str t"
    then show "s = t" by (cases s; cases t) simp_all
  qed
  ultimately show ?thesis by blast
qed

end
