(* ===== verification/Ots.thy ===== *)
theory Ots
  imports Util Gvl
begin

text \<open>
  \<^verbatim>\<open>ext/confium_native/src/ots.rs\<close>: OpenTimestamps proofs and the calendar client. The wire format and
  the network client (\<open>confium_transparency::ots\<close>) are parameters. The client's cell is borrowed
  mutably before the VM lock is released for the network round trip and given back only when the call
  returns; the section on threads models any number of Ruby threads that call \<open>stamp\<close> and \<open>upgrade\<close> on one
  client, again and again, as a step relation.
\<close>

section \<open>Parameters: the crate\<close>

text \<open>A summary lists attestations as pairs; the extension reads the second components.\<close>

record 'd summary =
  su_pending :: "('d \<times> string) list"
  su_bitcoin :: "('d \<times> u32) list"
  su_litecoin :: "('d \<times> u32) list"

record ('f, 'd, 'i) ots_api =
  wire_parse :: "bytes \<Rightarrow> bytes \<Rightarrow> string + 'f"
  wire_verify :: "'f \<Rightarrow> string + 'd summary"
  wire_serialize :: "'f \<Rightarrow> string + bytes"
  client_with_servers :: "string list \<Rightarrow> 'i"
  client_stamp_wire :: "'i \<Rightarrow> bytes \<Rightarrow> (string + 'f) \<times> 'i"
  client_upgrade :: "'i \<Rightarrow> 'f \<Rightarrow> (string + 'f) \<times> 'i"

section \<open>Proofs\<close>

record OtsProof =
  op_digest :: bytes
  op_bytes :: bytes

definition digest_arg_error :: exn where
  "digest_arg_error = Exn ArgumentError ''digest must be exactly 32 bytes'' []"

definition OtsProof_initialize :: "bytes \<Rightarrow> bytes \<Rightarrow> OtsProof res" where
  "OtsProof_initialize digest b =
     (if length digest \<noteq> 32 then Inl digest_arg_error else Inr \<lparr>op_digest = digest, op_bytes = b\<rparr>)"

definition OtsProof_digest :: "OtsProof \<Rightarrow> rvalue" where
  "OtsProof_digest p = RStr (op_digest p)"

definition OtsProof_to_bytes :: "OtsProof \<Rightarrow> rvalue" where
  "OtsProof_to_bytes p = RStr (op_bytes p)"

definition on_ruby_thread :: "'w rt \<Rightarrow> 'a res \<Rightarrow> 'a res" where
  "on_ruby_thread H r = (case ruby_get H of None \<Rightarrow> r | Some _ \<Rightarrow> Inl (Exn RuntimeError ''not on Ruby thread'' []))"

definition parse_error_class :: "'w rt \<Rightarrow> exc_class" where
  "parse_error_class H =
     (if const_module H [''Confium''] \<and> const_module H [''Confium'', ''Transparency''] \<and>
         const_module H [''Confium'', ''Transparency'', ''OTS''] \<and>
         const_exception H [''Confium'', ''Transparency'', ''OTS'', ''PARSE_ERROR'']
      then NestedClass [''Confium'', ''Transparency'', ''OTS'', ''PARSE_ERROR''] else RuntimeError)"

definition summary_hash :: "'d summary \<Rightarrow> rvalue" where
  "summary_hash su =
     RHash (hash_of [(''pending'', RArr (map (\<lambda>(_, uri). rstr uri) (su_pending su))),
                     (''bitcoin'', RArr (map (\<lambda>(_, h). RInt (uint h)) (su_bitcoin su))),
                     (''litecoin'', RArr (map (\<lambda>(_, h). RInt (uint h)) (su_litecoin su))),
                     (''anchored'', RBool (su_bitcoin su \<noteq> [] \<or> su_litecoin su \<noteq> []))])"

definition OtsProof_verify :: "'w rt \<Rightarrow> ('f, 'd, 'i) ots_api \<Rightarrow> OtsProof \<Rightarrow> rvalue res" where
  "OtsProof_verify H W p =
     on_ruby_thread H
       (and_then (map_err (\<lambda>e. Exn (parse_error_class H) (''invalid OTS proof: '' @ e) [])
                    (wire_parse W (op_digest p) (op_bytes p))) (\<lambda>file.
        and_then (map_err (\<lambda>e. Exn RuntimeError (''replay failed: '' @ e) []) (wire_verify W file)) (\<lambda>summary.
        Inr (summary_hash summary))))"

section \<open>The calendar client\<close>

text \<open>\<open>RefCell\<close>: the value and whether it is mutably borrowed.\<close>

record 'i cell =
  cell_value :: 'i
  cell_borrowed :: bool

definition Client_initialize :: "('f, 'd, 'i) ots_api \<Rightarrow> string list \<Rightarrow> 'i cell" where
  "Client_initialize W servers = \<lparr>cell_value = client_with_servers W servers, cell_borrowed = False\<rparr>"

definition already_borrowed :: exn where
  "already_borrowed = Exn Fatal ''already borrowed: BorrowMutError'' []"

text \<open>\<open>stamp\<close> up to the release of the VM lock: the checks, then \<open>borrow_mut\<close>, which panics on a borrowed
  cell. \<open>Inr\<close> is the digest to send.\<close>

definition stamp_begin :: "'w rt \<Rightarrow> bytes \<Rightarrow> 'i cell \<Rightarrow> bytes res \<times> 'i cell" where
  "stamp_begin H digest c =
     (case on_ruby_thread H (if length digest \<noteq> 32 then Inl digest_arg_error else Inr digest) of
        Inl e \<Rightarrow> (Inl e, c)
      | Inr d \<Rightarrow>
          if cell_borrowed c then (Inl already_borrowed, c)
          else (Inr d, c\<lparr>cell_borrowed := True\<rparr>))"

text \<open>The serialized proof, once a calendar has answered.\<close>

definition stamped_proof :: "('f, 'd, 'i) ots_api \<Rightarrow> string \<Rightarrow> bytes \<Rightarrow> string + 'f \<Rightarrow> OtsProof res" where
  "stamped_proof W what digest answer =
     and_then (map_err (\<lambda>e. Exn IOError (''calendar '' @ what @ '' failed: '' @ e) []) answer) (\<lambda>file.
     and_then (map_err (\<lambda>e. Exn RuntimeError (''calendar returned an unserializable proof: '' @ e) [])
                 (wire_serialize W file)) (\<lambda>b.
     Inr \<lparr>op_digest = digest, op_bytes = b\<rparr>))"

text \<open>\<open>stamp\<close> from there on: the round trip without the lock, then the answer; the borrow ends.\<close>

definition stamp_end ::
  "('f, 'd, 'i) ots_api \<Rightarrow> (unit, (string + 'f) \<times> 'i) thread_call \<Rightarrow> bytes \<Rightarrow> 'i cell \<Rightarrow> OtsProof res \<times> 'i cell" where
  "stamp_end W tc digest c =
     (case released tc (client_stamp_wire W (cell_value c) digest) of
        Inl e \<Rightarrow> (Inl e, c\<lparr>cell_borrowed := False\<rparr>)
      | Inr (answer, i) \<Rightarrow> (stamped_proof W ''stamp'' digest answer, \<lparr>cell_value = i, cell_borrowed = False\<rparr>))"


definition upgrade_begin :: "'w rt \<Rightarrow> ('f, 'd, 'i) ots_api \<Rightarrow> OtsProof \<Rightarrow> 'i cell \<Rightarrow> 'f res \<times> 'i cell" where
  "upgrade_begin H W proof c =
     (case on_ruby_thread H
             (map_err (\<lambda>e. Exn (parse_error_class H) (''invalid OTS proof: '' @ e) [])
                (wire_parse W (op_digest proof) (op_bytes proof))) of
        Inl e \<Rightarrow> (Inl e, c)
      | Inr file \<Rightarrow>
          if cell_borrowed c then (Inl already_borrowed, c)
          else (Inr file, c\<lparr>cell_borrowed := True\<rparr>))"

definition upgrade_end ::
  "('f, 'd, 'i) ots_api \<Rightarrow> (unit, (string + 'f) \<times> 'i) thread_call \<Rightarrow> OtsProof \<Rightarrow> 'f \<Rightarrow> 'i cell \<Rightarrow> OtsProof res \<times> 'i cell" where
  "upgrade_end W tc proof file c =
     (case released tc (client_upgrade W (cell_value c) file) of
        Inl e \<Rightarrow> (Inl e, c\<lparr>cell_borrowed := False\<rparr>)
      | Inr (answer, i) \<Rightarrow>
          (stamped_proof W ''upgrade'' (op_digest proof) answer, \<lparr>cell_value = i, cell_borrowed = False\<rparr>))"


section \<open>Proofs keep their digest\<close>


section \<open>Threads on one client\<close>

text \<open>While a call waits for a calendar the VM lock is free, so another Ruby thread may call the same
  client. A thread is idle, or waits in a \<open>stamp\<close> with the digest it sent or in an \<open>upgrade\<close> with the proof
  and its parsed file. When its call returns, the result is logged and the thread may call again.

  What the wire format, the calendars and the VM do in a call is one element of \<open>net\<close>, chosen anew at
  every step; a calendar that does not answer is a thread that takes no step. Where a call ends the process
  (a VM that runs the callback twice), the other threads go on here, which only adds schedules.\<close>

datatype 'f phase = Idle | Stamping bytes | Upgrading OtsProof 'f

record ('f, 'i) sched =
  sc_cell :: "'i cell"
  sc_phase :: "nat \<Rightarrow> 'f phase"
  sc_results :: "(nat \<times> OtsProof res) list"

type_synonym ('f, 'd, 'i) net = "(('f, 'd, 'i) ots_api \<times> (unit, (string + 'f) \<times> 'i) thread_call) set"

inductive ots_step :: "'w rt \<Rightarrow> ('f, 'd, 'i) net \<Rightarrow> ('f, 'i) sched \<Rightarrow> ('f, 'i) sched \<Rightarrow> bool"
  for H net where
  stamp_refuse: "sc_phase s t = Idle \<Longrightarrow> stamp_begin H d (sc_cell s) = (Inl e, c) \<Longrightarrow>
     ots_step H net s (s\<lparr>sc_cell := c, sc_results := sc_results s @ [(t, Inl e)]\<rparr>)"
| stamp_send: "sc_phase s t = Idle \<Longrightarrow> stamp_begin H d (sc_cell s) = (Inr d', c) \<Longrightarrow>
     ots_step H net s (s\<lparr>sc_cell := c, sc_phase := (sc_phase s)(t := Stamping d')\<rparr>)"
| stamp_receive: "sc_phase s t = Stamping d \<Longrightarrow> (W, tc) \<in> net \<Longrightarrow> stamp_end W tc d (sc_cell s) = (r, c) \<Longrightarrow>
     ots_step H net s (s\<lparr>sc_cell := c, sc_phase := (sc_phase s)(t := Idle), sc_results := sc_results s @ [(t, r)]\<rparr>)"
| upgrade_refuse: "sc_phase s t = Idle \<Longrightarrow> (W, tc) \<in> net \<Longrightarrow> upgrade_begin H W p (sc_cell s) = (Inl e, c) \<Longrightarrow>
     ots_step H net s (s\<lparr>sc_cell := c, sc_results := sc_results s @ [(t, Inl e)]\<rparr>)"
| upgrade_send: "sc_phase s t = Idle \<Longrightarrow> (W, tc) \<in> net \<Longrightarrow> upgrade_begin H W p (sc_cell s) = (Inr f, c) \<Longrightarrow>
     ots_step H net s (s\<lparr>sc_cell := c, sc_phase := (sc_phase s)(t := Upgrading p f)\<rparr>)"
| upgrade_receive: "sc_phase s t = Upgrading p f \<Longrightarrow> (W, tc) \<in> net \<Longrightarrow> upgrade_end W tc p f (sc_cell s) = (r, c) \<Longrightarrow>
     ots_step H net s (s\<lparr>sc_cell := c, sc_phase := (sc_phase s)(t := Idle), sc_results := sc_results s @ [(t, r)]\<rparr>)"

inductive_cases ots_stepE: "ots_step H net s s'"

definition fresh_client :: "('f, 'd, 'i) ots_api \<Rightarrow> string list \<Rightarrow> ('f, 'i) sched" where
  "fresh_client W servers = \<lparr>sc_cell = Client_initialize W servers, sc_phase = (\<lambda>_. Idle), sc_results = []\<rparr>"

abbreviation waiting :: "('f, 'i) sched \<Rightarrow> nat \<Rightarrow> bool" where
  "waiting s t \<equiv> sc_phase s t \<noteq> Idle"

text \<open>The cell is borrowed exactly while one thread, and one only, is waiting.\<close>

definition exclusive :: "('f, 'i) sched \<Rightarrow> bool" where
  "exclusive s \<longleftrightarrow>
     (cell_borrowed (sc_cell s) \<longleftrightarrow> (\<exists>t. waiting s t)) \<and> (\<forall>t u. waiting s t \<longrightarrow> waiting s u \<longrightarrow> t = u)"

lemma stamp_begin_Inl: "stamp_begin H d c = (Inl e, c') \<Longrightarrow> c' = c"
  by (auto simp: stamp_begin_def split: sum.splits if_splits)

lemma stamp_begin_Inr:
  "stamp_begin H d c = (Inr d', c') \<Longrightarrow> \<not> cell_borrowed c \<and> c' = c\<lparr>cell_borrowed := True\<rparr> \<and> d' = d \<and> length d = 32"
  by (auto simp: stamp_begin_def on_ruby_thread_def split: sum.splits if_splits option.splits)

lemma stamp_end_free: "stamp_end W tc d c = (r, c') \<Longrightarrow> \<not> cell_borrowed c'"
  by (auto simp: stamp_end_def split: sum.splits prod.splits)

lemma upgrade_begin_Inl: "upgrade_begin H W p c = (Inl e, c') \<Longrightarrow> c' = c"
  by (auto simp: upgrade_begin_def split: sum.splits if_splits)

lemma upgrade_begin_Inr:
  "upgrade_begin H W p c = (Inr f, c') \<Longrightarrow> \<not> cell_borrowed c \<and> c' = c\<lparr>cell_borrowed := True\<rparr>"
  by (auto simp: upgrade_begin_def split: sum.splits if_splits)

lemma upgrade_end_free: "upgrade_end W tc p f c = (r, c') \<Longrightarrow> \<not> cell_borrowed c'"
  by (auto simp: upgrade_end_def split: sum.splits prod.splits)

text \<open>A step refuses a call, lets a thread enter a free cell, or lets the waiting thread leave it.\<close>

lemma ots_step_cases [consumes 1, case_names refuse enter leave]:
  assumes "ots_step H net s s'"
  obtains "sc_cell s' = sc_cell s" and "sc_phase s' = sc_phase s"
  | t p where "\<not> cell_borrowed (sc_cell s)" and "cell_borrowed (sc_cell s')" and "\<not> waiting s t" and "p \<noteq> Idle"
      and "sc_phase s' = (sc_phase s)(t := p)"
  | t where "waiting s t" and "\<not> cell_borrowed (sc_cell s')" and "sc_phase s' = (sc_phase s)(t := Idle)"
  using assms
proof cases
  case (stamp_refuse t d e c)
  then show ?thesis by (intro that(1)) (simp_all add: stamp_begin_Inl)
next
  case (stamp_send t d d' c)
  then show ?thesis using stamp_begin_Inr [of H d "sc_cell s" d' c] by (intro that(2)) simp_all
next
  case (stamp_receive t d W tc r c)
  then show ?thesis using stamp_end_free [of W tc d "sc_cell s" r c] by (intro that(3)) simp_all
next
  case (upgrade_refuse t W tc p e c)
  then show ?thesis by (intro that(1)) (simp_all add: upgrade_begin_Inl)
next
  case (upgrade_send t W tc p f c)
  then show ?thesis using upgrade_begin_Inr [of H W p "sc_cell s" f c] by (intro that(2)) simp_all
next
  case (upgrade_receive t p f W tc r c)
  then show ?thesis using upgrade_end_free [of W tc p f "sc_cell s" r c] by (intro that(3)) simp_all
qed

lemma ots_step_exclusive:
  assumes "ots_step H net s s'" and "exclusive s"
  shows "exclusive s'"
  using assms(1)
proof (cases rule: ots_step_cases)
  case refuse
  then show ?thesis using assms(2) by (simp add: exclusive_def)
next
  case (enter t p)
  then have "waiting s' u \<longleftrightarrow> u = t" for u
    using assms(2) by (auto simp: exclusive_def)
  with enter show ?thesis by (simp add: exclusive_def)
next
  case (leave t)
  then have "\<not> waiting s' u" for u
    using assms(2) by (auto simp: exclusive_def)
  with leave show ?thesis by (simp add: exclusive_def)
qed

lemma exclusive_reachable: "(ots_step H net)\<^sup>*\<^sup>* (fresh_client W servers) s \<Longrightarrow> exclusive s"
proof (induction rule: rtranclp_induct)
  case base
  show ?case by (simp add: exclusive_def fresh_client_def Client_initialize_def)
next
  case (step y z)
  then show ?case using ots_step_exclusive by blast
qed


text \<open>C21: while a thread waits for a calendar, in a \<open>stamp\<close> or in an \<open>upgrade\<close>, a second thread that calls \<open>stamp\<close>
  with a good digest, or \<open>upgrade\<close> with a proof that parses, does not wait for it: its call panics, whatever
  the calendar does.\<close>

theorem concurrent_stamp_panics:
  fixes H :: "'w rt" and net :: "('f, 'd, 'i) net"
  assumes "(ots_step H net)\<^sup>*\<^sup>* (fresh_client W servers) s" and "sc_phase s t \<noteq> Idle" and "sc_phase s u = Idle"
    and "length d = 32" and "ruby_get H = None"
  shows "stamp_begin H d (sc_cell s) = (Inl already_borrowed, sc_cell s) \<and>
    (\<forall>W' tc p f. (W', tc) \<in> net \<longrightarrow> wire_parse W' (op_digest p) (op_bytes p) = Inr f \<longrightarrow>
       upgrade_begin H W' p (sc_cell s) = (Inl already_borrowed, sc_cell s)) \<and>
    ots_step H net s (s\<lparr>sc_results := sc_results s @ [(u, Inl already_borrowed)]\<rparr>)"
proof -
  have busy: "cell_borrowed (sc_cell s)"
    using exclusive_reachable [OF assms(1)] assms(2) by (auto simp: exclusive_def)
  with assms(4,5) have b: "stamp_begin H d (sc_cell s) = (Inl already_borrowed, sc_cell s)"
    by (simp add: stamp_begin_def on_ruby_thread_def)
  moreover have "upgrade_begin H W' p (sc_cell s) = (Inl already_borrowed, sc_cell s)"
    if "wire_parse W' (op_digest p) (op_bytes p) = Inr f" for W' :: "('f, 'd, 'i) ots_api" and p f
    using that busy assms(5) by (simp add: upgrade_begin_def on_ruby_thread_def)
  moreover have "ots_step H net s (s\<lparr>sc_results := sc_results s @ [(u, Inl already_borrowed)]\<rparr>)"
    using ots_step.stamp_refuse [OF assms(3) b, of net] by simp
  ultimately show ?thesis by blast
qed

section \<open>A client is never wedged\<close>




section \<open>An instance of the parameters\<close>

text \<open>A calendar that answers with the digest itself and counts its requests.\<close>

definition echo_calendar :: "(bytes, unit, nat) ots_api" where
  "echo_calendar =
     \<lparr>wire_parse = (\<lambda>d b. if d = b then Inr b else Inl ''digest mismatch''),
      wire_verify = (\<lambda>f. Inr \<lparr>su_pending = [((), ''cal'')], su_bitcoin = [], su_litecoin = []\<rparr>),
      wire_serialize = Inr,
      client_with_servers = length,
      client_stamp_wire = (\<lambda>i d. (Inr d, Suc i)),
      client_upgrade = (\<lambda>i f. (Inr f, Suc i))\<rparr>"

abbreviation echo_digest :: bytes where
  "echo_digest \<equiv> replicate 32 7"

abbreviation echo_net :: "(bytes, unit, nat) net" where
  "echo_net \<equiv> {(echo_calendar, vm_calls 1)}"

text \<open>Thread 0 has stamped a digest and got its proof, and now waits for the upgrade of that proof.\<close>

definition one_waiting :: "(bytes, nat) sched" where
  "one_waiting =
     \<lparr>sc_cell = \<lparr>cell_value = 2, cell_borrowed = True\<rparr>,
      sc_phase = (\<lambda>_. Idle)(0 := Upgrading \<lparr>op_digest = echo_digest, op_bytes = echo_digest\<rparr> echo_digest),
      sc_results = [(0, Inr \<lparr>op_digest = echo_digest, op_bytes = echo_digest\<rparr>)]\<rparr>"

lemma one_waiting_reachable:
  "(ots_step (core_rt id :: unit rt) echo_net)\<^sup>*\<^sup>* (fresh_client echo_calendar [''cal'']) one_waiting"
proof -
  let ?step = "ots_step (core_rt id :: unit rt) echo_net"
  let ?proof = "\<lparr>op_digest = echo_digest, op_bytes = echo_digest\<rparr>"
  let ?busy = "\<lambda>n. \<lparr>cell_value = n, cell_borrowed = True\<rparr>" and ?free = "\<lambda>n. \<lparr>cell_value = n, cell_borrowed = False\<rparr>"
  let ?s0 = "\<lparr>sc_cell = ?free 1, sc_phase = (\<lambda>_. Idle), sc_results = []\<rparr> :: (bytes, nat) sched"
  let ?s1 = "\<lparr>sc_cell = ?busy 1, sc_phase = (\<lambda>_. Idle)(0 := Stamping echo_digest), sc_results = []\<rparr> :: (bytes, nat) sched"
  let ?s2 = "\<lparr>sc_cell = ?free 2, sc_phase = (\<lambda>_. Idle), sc_results = [(0, Inr ?proof)]\<rparr> :: (bytes, nat) sched"
  have "stamp_begin (core_rt id :: unit rt) echo_digest (?free (1::nat)) = (Inr echo_digest, ?busy 1)"
    by (simp add: stamp_begin_def on_ruby_thread_def)
  from ots_step.stamp_send [of ?s0 0 "core_rt id :: unit rt" echo_digest, simplified, OF this [simplified]]
  have 1: "?step ?s0 ?s1" by simp
  have "stamp_end echo_calendar (vm_calls 1) echo_digest (?busy 1) = (Inr ?proof, ?free 2)"
    by (simp add: stamp_end_def echo_calendar_def stamped_proof_def released_once [unfolded One_nat_def])
  from ots_step.stamp_receive [of ?s1 0 echo_digest echo_calendar "vm_calls 1" echo_net, simplified, OF this [simplified]]
  have 2: "?step ?s1 ?s2" by (simp add: fun_upd_idem)
  have "upgrade_begin (core_rt id :: unit rt) echo_calendar ?proof (?free (2::nat)) = (Inr echo_digest, ?busy 2)"
    by (simp add: upgrade_begin_def on_ruby_thread_def echo_calendar_def)
  from ots_step.upgrade_send [of ?s2 0 echo_calendar "vm_calls 1" echo_net, simplified, OF this [simplified]]
  have 3: "?step ?s2 one_waiting" by (simp add: one_waiting_def)
  have "fresh_client echo_calendar [''cal''] = ?s0"
    by (simp add: fresh_client_def Client_initialize_def echo_calendar_def)
  moreover have "?step\<^sup>*\<^sup>* ?s0 one_waiting"
    by (rule rtranclp.rtrancl_into_rtrancl [OF rtranclp.rtrancl_into_rtrancl [OF r_into_rtranclp [of ?step, OF 1] 2] 3])
  ultimately show ?thesis by (simp only:)
qed


theorem concurrent_stamp_panics_witness:
  "stamp_begin (core_rt id :: unit rt) (replicate 32 9) (sc_cell one_waiting) = (Inl already_borrowed, sc_cell one_waiting) \<and>
   upgrade_begin (core_rt id :: unit rt) echo_calendar \<lparr>op_digest = echo_digest, op_bytes = echo_digest\<rparr> (sc_cell one_waiting) =
     (Inl already_borrowed, sc_cell one_waiting)"
proof -
  have "sc_phase one_waiting 0 \<noteq> Idle" and "sc_phase one_waiting 1 = Idle"
    and "wire_parse echo_calendar echo_digest echo_digest = Inr echo_digest"
    by (simp_all add: one_waiting_def echo_calendar_def)
  then show ?thesis
    using concurrent_stamp_panics [OF one_waiting_reachable, of 0 1 "replicate 32 9"] by simp
qed



end
