(* ===== verification/Ers.thy ===== *)
theory Ers
  imports Pki
begin

text \<open>
  \<^verbatim>\<open>ext/confium_native/src/ers.rs\<close>: evidence records for long-term archival. A renewal works on a copy and
  returns a new object. The records themselves (\<open>confium_transparency::ers\<close>) are a parameter; both
  entry points take a variable number of arguments.
\<close>

section \<open>Definitions\<close>

datatype HashAlgorithm = Sha256

record 'r ers_api =
  build_initial_evidence_record :: "bytes \<Rightarrow> HashAlgorithm \<Rightarrow> string \<Rightarrow> bytes \<Rightarrow> 'r"
  renew_evidence_record :: "'r \<Rightarrow> HashAlgorithm \<Rightarrow> bytes \<Rightarrow> string \<Rightarrow> bytes \<Rightarrow> 'r"
  record_renewal_count :: "'r \<Rightarrow> u32"

record 'r ErsRecord =
  ers_inner :: 'r

text \<open>The arguments both entry points read: the hash, then optionally the authority and the token.\<close>

definition ers_args :: "'w rt \<Rightarrow> string \<Rightarrow> rvalue list \<Rightarrow> (bytes \<times> string \<times> bytes) res" where
  "ers_args H name args =
     and_then (ok_or (arg_error H (name @ '' required'')) (slice_get args 0)) (\<lambda>first.
     and_then (exact32 H (name @ '' must be 32'') first) (\<lambda>hash.
     and_then (case slice_get args 1 of Some v \<Rightarrow> conv_string H v | None \<Rightarrow> Inr '''') (\<lambda>tsa_id.
     and_then (case slice_get args 2 of Some v \<Rightarrow> bytes_from_value H v | None \<Rightarrow> Inr []) (\<lambda>token_bytes.
     Inr (hash, tsa_id, token_bytes)))))"

definition ErsRecord_build_initial :: "'w rt \<Rightarrow> 'r ers_api \<Rightarrow> rvalue list \<Rightarrow> 'r ErsRecord res" where
  "ErsRecord_build_initial H E args =
     and_then (ers_args H ''data_hash'' args) (\<lambda>(hash, tsa_id, token_bytes).
     with_ruby H (Inr \<lparr>ers_inner = build_initial_evidence_record E hash Sha256 tsa_id token_bytes\<rparr>))"

definition ErsRecord_renew :: "'w rt \<Rightarrow> 'r ers_api \<Rightarrow> 'r ErsRecord \<Rightarrow> rvalue list \<Rightarrow> 'r ErsRecord res" where
  "ErsRecord_renew H E r args =
     and_then (ers_args H ''new_hash'' args) (\<lambda>(hash, tsa_id, token_bytes).
     with_ruby H (Inr \<lparr>ers_inner = renew_evidence_record E (ers_inner r) Sha256 hash tsa_id token_bytes\<rparr>))"

definition ErsRecord_renewal_count :: "'r ers_api \<Rightarrow> 'r ErsRecord \<Rightarrow> u32" where
  "ErsRecord_renewal_count E r = record_renewal_count E (ers_inner r)"

section \<open>Renewal chains\<close>

text \<open>What the crate documents: a new record has no renewals, each renewal adds one.\<close>

definition counts_renewals :: "'r ers_api \<Rightarrow> bool" where
  "counts_renewals E \<longleftrightarrow>
     (\<forall>h a t b. record_renewal_count E (build_initial_evidence_record E h a t b) = 0) \<and>
     (\<forall>r h a t b. record_renewal_count E (renew_evidence_record E r a h t b) = record_renewal_count E r + 1)"

fun renew_all :: "'w rt \<Rightarrow> 'r ers_api \<Rightarrow> rvalue list list \<Rightarrow> 'r ErsRecord \<Rightarrow> 'r ErsRecord res" where
  "renew_all H E [] r = Inr r"
| "renew_all H E (args # rest) r = and_then (ErsRecord_renew H E r args) (renew_all H E rest)"

lemma ers_args_Inr: "ers_args H name args = Inr (h, t, b) \<Longrightarrow> args \<noteq> [] \<and> length h = 32 \<and> length b \<le> MAX_INPUT_SIZE"
  by (auto simp: ers_args_def res_iffs slice_get_def exact32_Inr split: option.splits if_splits
      dest: bytes_from_value_bounded)

lemma renew_all_count:
  assumes "counts_renewals E" "renew_all H E argss r = Inr r'"
  shows "ErsRecord_renewal_count E r' = ErsRecord_renewal_count E r + word_of_nat (length argss)"
  using assms(2)
proof (induction argss arbitrary: r)
  case Nil
  then show ?case by simp
next
  case (Cons args argss)
  then obtain r1 where r1: "ErsRecord_renew H E r args = Inr r1" "renew_all H E argss r1 = Inr r'"
    by (auto simp: res_iffs)
  then have "ErsRecord_renewal_count E r1 = ErsRecord_renewal_count E r + 1"
    using assms(1) by (auto simp: ErsRecord_renew_def ErsRecord_renewal_count_def counts_renewals_def res_iffs)
  with Cons.IH [OF r1(2)] show ?case by simp
qed

text \<open>A record built and then renewed \<open>n\<close> times reports \<open>n\<close> renewals, modulo the 32-bit counter.\<close>

lemma renewal_chain_counts:
  fixes H :: "'w rt"
  assumes "counts_renewals E" and "ErsRecord_build_initial H E args = Inr r" and "renew_all H E argss r = Inr r'"
  shows "uint (ErsRecord_renewal_count E r') = int (length argss) mod 2 ^ 32"
proof -
  have "ErsRecord_renewal_count E r = 0"
    using assms(1,2) by (auto simp: ErsRecord_build_initial_def ErsRecord_renewal_count_def counts_renewals_def res_iffs)
  then show ?thesis
    using renew_all_count [OF assms(1,3)] by (simp add: unsigned_of_nat take_bit_eq_mod)
      (simp add: uint_word_of_int take_bit_eq_mod unsigned_of_nat of_nat_mod)
qed

end
