(* ===== verification/Store.thy ===== *)
theory Store
  imports Util
begin

text \<open>
  \<^verbatim>\<open>ext/confium_native/src/store.rs\<close>: keystores by backend name and the remote signing path. The
  backends (\<open>confium_store\<close>) and \<open>scan_args\<close> are parameters; the reading of options and arguments and the
  details of the typed errors are the repository's.
\<close>

section \<open>Definitions\<close>

text \<open>The variants of the crate's error the extension tells apart, each with its text.\<close>

datatype store_failure =
    NotImplemented (failure_text: string) (failure_what: string)
  | UnknownBackend (failure_text: string) (failure_name: string)
  | OtherFailure (failure_text: string)

record 'k store_api =
  scan_keystore :: "rvalue list \<Rightarrow> string + string \<times> rhash option"
  scan_sign :: "rvalue list \<Rightarrow> string + (string \<times> string) \<times> rvalue option"
  keystore_new :: "string \<Rightarrow> (string \<rightharpoonup> string) \<Rightarrow> store_failure + 'k"
  keystore_sign :: "'k \<Rightarrow> string \<Rightarrow> string \<Rightarrow> string \<Rightarrow> string \<Rightarrow> bytes \<Rightarrow> store_failure + bytes"
  backend_names :: "string list"

definition store_error :: "'w rt \<Rightarrow> store_failure \<Rightarrow> string \<Rightarrow> exn" where
  "store_error H e operation =
     (case ruby_get H of
        Some _ \<Rightarrow> Exn RuntimeError (failure_text e) []
      | None \<Rightarrow>
          (let details = hash_aset (rstr ''operation'') (rstr operation) new_details;
               details = (case e of
                            NotImplemented _ what \<Rightarrow> hash_aset (rstr ''what'') (rstr what) details
                          | UnknownBackend _ name \<Rightarrow> hash_aset (rstr ''backend'') (rstr name) details
                          | _ \<Rightarrow> details)
           in confium_error H (failure_text e) ''Error'' details))"

record 'k Keystore =
  ks_inner :: 'k

fun read_options :: "'w rt \<Rightarrow> rhash \<Rightarrow> (string \<rightharpoonup> string) \<Rightarrow> (string \<rightharpoonup> string) res" where
  "read_options H [] options = Inr options"
| "read_options H ((k, v) # kvs) options =
     and_then (conv_string H k) (\<lambda>key.
     and_then (conv_string H v) (\<lambda>val.
     read_options H kvs (options(key \<mapsto> val))))"

definition Keystore_initialize :: "'w rt \<Rightarrow> 'k store_api \<Rightarrow> rvalue list \<Rightarrow> 'k Keystore res" where
  "Keystore_initialize H S args =
     and_then (map_err (arg_error H) (scan_keystore S args)) (\<lambda>(backend, hash).
     and_then (case hash of Some h \<Rightarrow> read_options H h Map.empty | None \<Rightarrow> Inr Map.empty) (\<lambda>options.
     and_then (map_err (\<lambda>e. store_error H e ''Keystore.new'') (keystore_new S backend options)) (\<lambda>inner.
     Inr \<lparr>ks_inner = inner\<rparr>)))"

definition Keystore_sign :: "'w rt \<Rightarrow> 'k store_api \<Rightarrow> 'k Keystore \<Rightarrow> rvalue list \<Rightarrow> rvalue res" where
  "Keystore_sign H S ks args =
     and_then (map_err (arg_error H) (scan_sign S args)) (\<lambda>((key_id, algorithm), message).
     and_then (ok_or (arg_error H ''Keystore#sign: message is required'') message) (\<lambda>message.
     and_then (bytes_from_value H message) (\<lambda>b.
     and_then (map_err (\<lambda>e. store_error H e ''Keystore#sign'')
                 (keystore_sign S (ks_inner ks) ''confium'' ''ruby'' key_id algorithm b)) (\<lambda>signature.
     with_ruby H (Inr (bytes_to_rstring signature))))))"

definition backends :: "'k store_api \<Rightarrow> string list res" where
  "backends S = Inr (backend_names S)"

section \<open>Signing\<close>

lemma store_error_typed:
  assumes "host_has H ''Error''"
  shows "\<exists>d. store_error H e operation = Exn (ConfiumClass ''Error'') (failure_text e) d \<and>
     hash_get d ''operation'' = Some (rstr operation) \<and>
     hash_get d ''what'' = (case e of NotImplemented _ w \<Rightarrow> Some (rstr w) | _ \<Rightarrow> None) \<and>
     hash_get d ''backend'' = (case e of UnknownBackend _ n \<Rightarrow> Some (rstr n) | _ \<Rightarrow> None)"
  using assms
  by (cases e) (auto simp: store_error_def host_has_def confium_error_def resolve_confium_subclass_def Let_def
      new_details_def)

text \<open>\<open>sign\<close> hands the backend the caller's message, key and algorithm unchanged under the fixed
  namespace, and a backend's refusal reaches Ruby with the backend's text, the operation and, for an
  operation the backend lacks, what is missing.\<close>

lemma keystore_sign_faithful:
  fixes H :: "'w rt"
  assumes "core_conversions H" and "host_has H ''Error''"
    and "scan_sign S args = Inr ((key_id, algorithm), Some (RStr m))" and "length m \<le> MAX_INPUT_SIZE"
  shows "case keystore_sign S (ks_inner ks) ''confium'' ''ruby'' key_id algorithm m of
      Inr sig \<Rightarrow> Keystore_sign H S ks args = Inr (RStr sig)
    | Inl e \<Rightarrow> \<exists>d. Keystore_sign H S ks args = Inl (Exn (ConfiumClass ''Error'') (failure_text e) d) \<and>
        hash_get d ''operation'' = Some (rstr ''Keystore#sign'') \<and>
        hash_get d ''what'' = (case e of NotImplemented _ w \<Rightarrow> Some (rstr w) | _ \<Rightarrow> None)"
proof (cases "keystore_sign S (ks_inner ks) ''confium'' ''ruby'' key_id algorithm m")
  case (Inl e)
  moreover have "Keystore_sign H S ks args = Inl (store_error H e ''Keystore#sign'')"
    using assms Inl by (simp add: Keystore_sign_def bytes_from_value_str)
  ultimately show ?thesis using store_error_typed [OF assms(2), of e "''Keystore#sign''"] by auto
next
  case (Inr sig)
  have "ruby_get H = None" using assms(2) by (simp add: host_has_def)
  with assms Inr show ?thesis by (simp add: Keystore_sign_def bytes_from_value_str bytes_to_rstring_def)
qed

definition local_store :: "unit store_api" where
  "local_store =
     \<lparr>scan_keystore = (\<lambda>as. Inl ''wrong number of arguments''),
      scan_sign = (\<lambda>as. case as of [RStr k, RStr a, m] \<Rightarrow> Inr ((text_of k, text_of a), Some m)
                        | _ \<Rightarrow> Inl ''wrong number of arguments''),
      keystore_new = (\<lambda>b opts. if b = ''memory'' then Inr () else Inl (UnknownBackend ''unknown backend'' b)),
      keystore_sign = (\<lambda>k ns lang key_id a m. Inl (NotImplemented ''not implemented: remote sign'' ''remote sign'')),
      backend_names = [''memory'']\<rparr>"

lemma keystore_sign_faithful_witness:
  "\<exists>d. Keystore_sign (core_rt id :: unit rt) local_store \<lparr>ks_inner = ()\<rparr> [rstr ''k'', rstr ''a'', RStr [1]] =
     Inl (Exn (ConfiumClass ''Error'') ''not implemented: remote sign'' d) \<and>
     hash_get d ''what'' = Some (rstr ''remote sign'')"
proof -
  have s: "scan_sign local_store [rstr ''k'', rstr ''a'', RStr [1]] = Inr ((''k'', ''a''), Some (RStr [1]))"
    and k: "keystore_sign local_store u n l i a m = Inl (NotImplemented ''not implemented: remote sign'' ''remote sign'')"
    for u n l i a m by (simp_all add: local_store_def)
  have "length [1 :: u8] \<le> MAX_INPUT_SIZE" by (simp add: MAX_INPUT_SIZE_def)
  from keystore_sign_faithful [OF core_rt_conversions core_rt_host_has s this] show ?thesis
    by (auto simp: k)
qed

end
