(* ===== verification/Net.thy ===== *)
theory Net
  imports Ruby_Host
begin

text \<open>
  \<^verbatim>\<open>ext/confium_native/src/net.rs\<close>: the coordinator client and server. The transport
  (\<open>confium_coordinator\<close>) and \<open>scan_args\<close> are parameters; the client is a mutable cell, so every call
  returns the new client. Byte arguments are converted by magnus, as \<open>String\<close> or \<open>Vec<u8>\<close>.
\<close>

section \<open>Definitions\<close>

record 'c net_api =
  connect_url :: "string \<Rightarrow> string + 'c"
  net_register :: "'c \<Rightarrow> string \<Rightarrow> string \<Rightarrow> (string + unit) \<times> 'c"
  net_create_session :: "'c \<Rightarrow> string \<Rightarrow> string \<Rightarrow> bytes \<Rightarrow> u32 \<Rightarrow> u32 \<Rightarrow> (string + string) \<times> 'c"
  net_submit_commitment :: "'c \<Rightarrow> string \<Rightarrow> string \<Rightarrow> bytes \<Rightarrow> (string + unit) \<times> 'c"
  net_submit_share :: "'c \<Rightarrow> string \<Rightarrow> string \<Rightarrow> bytes \<Rightarrow> (string + bytes option) \<times> 'c"
  scan_submit :: "rvalue list \<Rightarrow> string + string \<times> string \<times> bytes"
  server_start_url :: "string \<Rightarrow> string \<Rightarrow> string + string"

definition io_error :: "string \<Rightarrow> string \<Rightarrow> exn" where
  "io_error e operation = Exn IOError (operation @ '': '' @ e) []"

definition SignerClient_initialize :: "'c net_api \<Rightarrow> string \<Rightarrow> 'c res" where
  "SignerClient_initialize N url = map_err (\<lambda>e. io_error e ''SignerClient.new'') (connect_url N url)"

definition SignerClient_register :: "'c net_api \<Rightarrow> 'c \<Rightarrow> string \<Rightarrow> string \<Rightarrow> unit res \<times> 'c" where
  "SignerClient_register N c signer_id quorum_id =
     (let (r, c') = net_register N c signer_id quorum_id in
      (map_err (\<lambda>e. io_error e ''register'') r, c'))"

definition SignerClient_create_session ::
  "'c net_api \<Rightarrow> 'c \<Rightarrow> string \<Rightarrow> string \<Rightarrow> string \<Rightarrow> u32 \<Rightarrow> u32 \<Rightarrow> string res \<times> 'c" where
  "SignerClient_create_session N c quorum_id scheme message threshold num_parties =
     (let (r, c') = net_create_session N c quorum_id scheme (utf8 message) threshold num_parties in
      (map_err (\<lambda>e. io_error e ''create_session'') r, c'))"

definition SignerClient_submit_commitment :: "'c net_api \<Rightarrow> 'c \<Rightarrow> rvalue list \<Rightarrow> unit res \<times> 'c" where
  "SignerClient_submit_commitment N c args =
     (case scan_submit N args of
        Inl e \<Rightarrow> (Inl (Exn ArgumentError e []), c)
      | Inr (session_id, signer_id, commitment) \<Rightarrow>
          (let (r, c') = net_submit_commitment N c session_id signer_id commitment in
           (map_err (\<lambda>e. io_error e ''submit_commitment'') r, c')))"

definition SignerClient_submit_share :: "'c net_api \<Rightarrow> 'c \<Rightarrow> rvalue list \<Rightarrow> bytes option res \<times> 'c" where
  "SignerClient_submit_share N c args =
     (case scan_submit N args of
        Inl e \<Rightarrow> (Inl (Exn ArgumentError e []), c)
      | Inr (session_id, signer_id, share) \<Rightarrow>
          (let (r, c') = net_submit_share N c session_id signer_id share in
           (map_err (\<lambda>e. io_error e ''submit_share'') r, c')))"

record CoordinatorServer =
  server_bound :: string

definition CoordinatorServer_initialize :: "'c net_api \<Rightarrow> string \<Rightarrow> CoordinatorServer res" where
  "CoordinatorServer_initialize N url =
     and_then (map_err (\<lambda>e. io_error e ''CoordinatorServer.new'') (server_start_url N url url)) (\<lambda>bound.
     Inr \<lparr>server_bound = bound\<rparr>)"

section \<open>Failures\<close>

text \<open>Every failure of a client call is an \<open>ArgumentError\<close> of the argument scan, which leaves the client as
  it was, or an \<open>IOError\<close> whose message starts with the operation.\<close>

lemma submit_share_failure:
  assumes "SignerClient_submit_share N c args = (Inl e, c')"
  shows "exn_class e = ArgumentError \<and> c' = c \<or> exn_class e = IOError \<and> take 12 (exn_msg e) = ''submit_share''"
  using assms by (auto simp: SignerClient_submit_share_def io_error_def map_err_eq_Inl split: sum.splits prod.splits)

lemma submit_commitment_failure:
  assumes "SignerClient_submit_commitment N c args = (Inl e, c')"
  shows "exn_class e = ArgumentError \<and> c' = c \<or> exn_class e = IOError \<and> take 17 (exn_msg e) = ''submit_commitment''"
  using assms by (auto simp: SignerClient_submit_commitment_def io_error_def map_err_eq_Inl split: sum.splits prod.splits)

end
