(* ===== verification/Openpgp.thy ===== *)
theory Openpgp
  imports Util
begin

text \<open>
  \<^verbatim>\<open>ext/confium_native/src/openpgp_verify.rs\<close>: OpenPGP verification, and the stubs that replace it in
  builds without the \<open>pgp\<close> feature. librnp is the parameter \<open>rnp_api\<close>: a context is a key ring that
  importing keys extends, a result is read through the accessors the extension uses.
\<close>

section \<open>Parameters: librnp\<close>

record rnp_signature =
  sg_valid :: bool
  sg_status_debug :: string
  sg_keyid :: "string option"
  sg_times :: "(u32 \<times> u32) option"
  sg_hash :: "string option"

record rnp_result =
  rr_any_valid :: "bool option"
  rr_signature_count :: "nat option"
  rr_signatures :: "rnp_signature list"

text \<open>An error's text and whether its kind is \<open>SignatureInvalid\<close>.\<close>

record rnp_error =
  re_text :: string
  re_signature_invalid :: bool

record 'x rnp_api =
  Context_new :: "rnp_error + 'x"
  context_import_keys :: "'x \<Rightarrow> bytes \<Rightarrow> rnp_error + 'x"
  rnp_verify_detached :: "'x \<Rightarrow> bytes \<Rightarrow> bytes \<Rightarrow> rnp_error + rnp_result"
  rnp_verify :: "'x \<Rightarrow> bytes \<Rightarrow> rnp_error + rnp_result"

section \<open>Stubs\<close>

definition stub_message :: "string \<Rightarrow> string" where
  "stub_message m =
     ''Confium::OpenPGP.'' @ m @ '' requires the pgp cargo feature '' @
     [CHR 0xE2, CHR 0x80, CHR 0x94] @ '' rebuild the extension with --features pgp (platform gems build default features)''"

definition stub_verify_detached :: "'w rt \<Rightarrow> rvalue list \<Rightarrow> rvalue res" where
  "stub_verify_detached H args = Inl (runtime H (stub_message ''verify_detached''))"

definition stub_verify :: "'w rt \<Rightarrow> rvalue list \<Rightarrow> rvalue res" where
  "stub_verify H args = Inl (runtime H (stub_message ''verify''))"

section \<open>The pgp feature\<close>

definition signature_hash :: "rnp_signature \<Rightarrow> rvalue" where
  "signature_hash s =
     (let key_id = (case sg_keyid s of Some k \<Rightarrow> k | None \<Rightarrow> ''?'');
          (created, expires) = (case sg_times s of Some t \<Rightarrow> t | None \<Rightarrow> (0, 0));
          sh = hash_of [(''valid'', RBool (sg_valid s)), (''status'', rstr (sg_status_debug s)),
                        (''key_id'', rstr key_id), (''creation_time'', RInt (uint created)),
                        (''expiration_time'', RInt (uint expires))]
      in RHash (opt_aset ''hash'' (map_option rstr (sg_hash s)) sh))"

definition result_to_hash :: "rnp_result \<Rightarrow> rvalue" where
  "result_to_hash r =
     RHash (hash_of [(''any_valid'', RBool (case rr_any_valid r of Some b \<Rightarrow> b | None \<Rightarrow> False)),
                     (''signature_count'', RInt (sint (word_of_nat (case rr_signature_count r of Some n \<Rightarrow> n | None \<Rightarrow> 0) :: i64))),
                     (''signatures'', RArr (map signature_hash (rr_signatures r)))])"

definition negative_result :: rvalue where
  "negative_result =
     RHash (hash_of [(''any_valid'', RBool False), (''signature_count'', RInt 0), (''signatures'', RArr [])])"

definition ctx :: "'w rt \<Rightarrow> 'x rnp_api \<Rightarrow> 'x res" where
  "ctx H R = map_err (\<lambda>e. crypto_error H (re_text e) ''OpenPGP'' ''openpgp'') (Context_new R)"

fun import_keys :: "'w rt \<Rightarrow> 'x rnp_api \<Rightarrow> rvalue list \<Rightarrow> 'x \<Rightarrow> 'x res" where
  "import_keys H R [] context = Inr context"
| "import_keys H R (k # ks) context =
     and_then (bytes_from_value H k) (\<lambda>b.
     and_then (map_err (\<lambda>e. parse_error H (re_text e) ''OpenPGP key import'' (Some ''openpgp'') None)
                 (context_import_keys R context b)) (\<lambda>context'.
     import_keys H R ks context'))"

definition split_args ::
  "'w rt \<Rightarrow> rvalue list \<Rightarrow> nat \<Rightarrow> string \<Rightarrow> (rvalue \<times> rvalue option \<times> rvalue list) res" where
  "split_args H args n m =
     (if length args < n \<or> length args > n + 1
      then Inl (arg_error H (''Confium::OpenPGP.'' @ m @ '': wrong number of arguments (given '' @
                  show_nat (length args) @ '', expected '' @ show_nat n @ ''..'' @ show_nat (n + 1) @ '')''))
      else
        (let keys = (if length args = n + 1
                     then (case conv_array H (args ! n) of Inr arr \<Rightarrow> arr | Inl _ \<Rightarrow> [args ! n])
                     else [])
         in Inr (args ! 0, if 1 < length args then Some (args ! 1) else None, keys)))"

text \<open>The \<open>match\<close> on librnp's answer that both entry points share.\<close>

definition verdict :: "'w rt \<Rightarrow> string \<Rightarrow> rnp_error + rnp_result \<Rightarrow> rvalue res" where
  "verdict H operation r =
     (case r of
        Inr result \<Rightarrow> Inr (result_to_hash result)
      | Inl e \<Rightarrow>
          if re_signature_invalid e then Inr negative_result
          else Inl (parse_error H (re_text e) operation (Some ''openpgp'') None))"


definition verify :: "'w rt \<Rightarrow> 'x rnp_api \<Rightarrow> rvalue list \<Rightarrow> rvalue res" where
  "verify H R args =
     with_ruby H
       (and_then (split_args H args 1 ''verify'') (\<lambda>(message, signature_ignored, keys).
        and_then (bytes_from_value H message) (\<lambda>msg.
        and_then (ctx H R) (\<lambda>context.
        and_then (import_keys H R keys context) (\<lambda>context.
        verdict H ''OpenPGP.verify'' (rnp_verify R context msg))))))"

section \<open>Verdicts\<close>





end
