(* ===== verification/Build_Script.thy ===== *)
theory Build_Script
  imports Prelude
begin

text \<open>
  \<^verbatim>\<open>ext/confium_native/build.rs\<close>: the build script reads the version of \<open>confium-core\<close> out of the
  workspace's \<^verbatim>\<open>Cargo.lock\<close>. The file system is a parameter. A path is the list of its components from the
  root; a panic is \<open>Inl\<close> of its message.
\<close>

section \<open>Strings\<close>

fun split_lines :: "string \<Rightarrow> string \<Rightarrow> string list" where
  "split_lines acc [] = (if acc = [] then [] else [rev acc])"
| "split_lines acc (c # cs) =
     (if c = CHR 0x0A
      then rev (if acc \<noteq> [] \<and> hd acc = CHR 0x0D then tl acc else acc) # split_lines [] cs
      else split_lines (c # acc) cs)"

text \<open>\<open>str::lines\<close>.\<close>

definition lines_of :: "string \<Rightarrow> string list" where
  "lines_of s = split_lines [] s"

definition strip_prefix :: "string \<Rightarrow> string \<Rightarrow> string option" where
  "strip_prefix p s = (if starts_with s p then Some (drop (length p) s) else None)"

definition strip_suffix :: "char \<Rightarrow> string \<Rightarrow> string option" where
  "strip_suffix c s = (if s \<noteq> [] \<and> last s = c then Some (butlast s) else None)"

fun find_map :: "('a \<Rightarrow> 'b option) \<Rightarrow> 'a list \<Rightarrow> 'b option" where
  "find_map f [] = None"
| "find_map f (x # xs) = (case f x of Some y \<Rightarrow> Some y | None \<Rightarrow> find_map f xs)"

fun contains_text :: "string \<Rightarrow> string \<Rightarrow> bool" where
  "contains_text p [] \<longleftrightarrow> p = []"
| "contains_text p (c # cs) \<longleftrightarrow> starts_with (c # cs) p \<or> contains_text p cs"

section \<open>The lock file\<close>

text \<open>The closure of \<open>scan\<close>: the text of the current block so far, started again at each header.\<close>

definition scan_line :: "string \<Rightarrow> string \<Rightarrow> string" where
  "scan_line state line =
     (if starts_with (trim line) ''[[package]]'' then '''' else state @ line @ [CHR 0x0A])"

fun scan_blocks :: "string \<Rightarrow> string list \<Rightarrow> string list" where
  "scan_blocks state [] = []"
| "scan_blocks state (l # ls) = (let s = scan_line state l in s # scan_blocks s ls)"

definition quoted_field :: "string \<Rightarrow> string \<Rightarrow> string option" where
  "quoted_field key l =
     (case strip_prefix (key @ '' = '' @ [CHR 0x22]) (trim l) of
        None \<Rightarrow> None
      | Some r \<Rightarrow> strip_suffix (CHR 0x22) r)"

definition block_package :: "string \<Rightarrow> (string \<times> string) option" where
  "block_package block =
     (case find_map (quoted_field ''name'') (lines_of block) of
        None \<Rightarrow> None
      | Some name \<Rightarrow>
          (case find_map (quoted_field ''version'') (lines_of block) of
             None \<Rightarrow> None
           | Some version \<Rightarrow> Some (name, version)))"

definition core_version_of :: "string \<Rightarrow> string option" where
  "core_version_of lockfile =
     map_option snd (find (\<lambda>(name, _). name = ''confium-core'')
       (List.map_filter block_package (scan_blocks '''' (lines_of lockfile))))"

section \<open>The workspace root\<close>

type_synonym path = "string list"

text \<open>The two calls of the file system; \<open>Inl\<close> of \<open>read_to_string\<close> is the rendered error.\<close>

record files =
  path_exists :: "path \<Rightarrow> bool"
  read_to_string :: "path \<Rightarrow> string + string"

definition display_path :: "path \<Rightarrow> string" where
  "display_path p = (if p = [] then ''/'' else concat (map (\<lambda>c. ''/'' @ c) p))"

definition is_workspace :: "files \<Rightarrow> path \<Rightarrow> bool" where
  "is_workspace fs dir =
     (let candidate = dir @ [''Cargo.toml''] in
      if path_exists fs candidate
      then (case read_to_string fs candidate of
              Inr contents \<Rightarrow> contains_text ''[workspace]'' contents
            | Inl _ \<Rightarrow> False)
      else False)"

text \<open>The loop, from a directory to its parents; the root has no parent.\<close>

function walk_up :: "files \<Rightarrow> path \<Rightarrow> path \<Rightarrow> string + path" where
  "walk_up fs start current =
     (if is_workspace fs current then Inr current
      else if current = [] then Inl (''no workspace root found above '' @ display_path start)
      else walk_up fs start (butlast current))"
  by pat_completeness auto
termination
  by (relation "measure (\<lambda>(fs, start, current). length current)") auto

declare walk_up.simps [simp del]

definition find_workspace_root :: "files \<Rightarrow> path \<Rightarrow> string + path" where
  "find_workspace_root fs start = walk_up fs start start"

text \<open>The result is what the script prints.\<close>

definition build_main :: "files \<Rightarrow> path \<Rightarrow> string + string list" where
  "build_main fs manifest_dir =
     and_then (find_workspace_root fs manifest_dir) (\<lambda>workspace_dir.
     let lockfile_path = workspace_dir @ [''Cargo.lock''] in
     and_then (map_sum (\<lambda>e. ''could not read workspace Cargo.lock: '' @ e) id
                 (read_to_string fs lockfile_path)) (\<lambda>lockfile.
     (case core_version_of lockfile of
        Some v \<Rightarrow> Inr [''cargo:rerun-if-changed='' @ display_path lockfile_path,
                       ''cargo:rustc-env=CONFIUM_CORE_VERSION='' @ v]
      | None \<Rightarrow> Inl ''confium-core not found in Cargo.lock'')))"

section \<open>The nearest enclosing workspace\<close>

lemma enclosing_step:
  assumes "\<not> is_workspace fs dir" "dir \<noteq> []"
  shows "(\<exists>below. butlast dir = w @ below \<and> is_workspace fs w \<and>
      (\<forall>k. length w < k \<and> k \<le> length (butlast dir) \<longrightarrow> \<not> is_workspace fs (take k (butlast dir)))) \<longleftrightarrow>
    (\<exists>below. dir = w @ below \<and> is_workspace fs w \<and>
      (\<forall>k. length w < k \<and> k \<le> length dir \<longrightarrow> \<not> is_workspace fs (take k dir)))"
    (is "?L \<longleftrightarrow> ?R")
proof -
  obtain pre d where dir: "dir = pre @ [d]" using assms(2) by (cases dir rule: rev_cases) auto
  have all: "(\<forall>k. length w < k \<and> k \<le> length pre \<longrightarrow> \<not> is_workspace fs (take k pre)) \<longleftrightarrow>
      (\<forall>k. length w < k \<and> k \<le> length dir \<longrightarrow> \<not> is_workspace fs (take k dir))"
    using assms(1) by (auto simp: dir le_Suc_eq)
  have "(\<exists>below. pre = w @ below) \<longleftrightarrow> (\<exists>below. dir = w @ below)" if "is_workspace fs w"
  proof
    assume "\<exists>below. dir = w @ below"
    then obtain below where b: "dir = w @ below" ..
    with that assms(1) have "below \<noteq> []" by auto
    then have "pre = w @ butlast below" using b dir by (metis butlast_append butlast_snoc)
    then show "\<exists>below. pre = w @ below" ..
  qed (auto simp: dir)
  then show ?thesis using all by (auto simp: dir)
qed

lemma walk_up_nearest:
  "walk_up fs start dir = Inr w \<longleftrightarrow>
     (\<exists>below. dir = w @ below \<and> is_workspace fs w \<and>
        (\<forall>k. length w < k \<and> k \<le> length dir \<longrightarrow> \<not> is_workspace fs (take k dir)))"
proof (induction fs start dir rule: walk_up.induct)
  case (1 fs start dir)
  show ?case
  proof (cases "is_workspace fs dir \<or> dir = []")
    case True
    have "walk_up fs start dir = (if is_workspace fs dir then Inr dir else Inl (''no workspace root found above '' @ display_path start))"
      using True by (subst walk_up.simps) auto
    moreover have "w = dir" if "dir = w @ below" "is_workspace fs dir"
      "\<forall>k. length w < k \<and> k \<le> length dir \<longrightarrow> \<not> is_workspace fs (take k dir)" for below
      using that by (metis append_Nil2 le_refl length_append less_add_same_cancel1 length_greater_0_conv take_all)
    ultimately show ?thesis using True by auto
  next
    case False
    then have "walk_up fs start dir = walk_up fs start (butlast dir)"
      by (subst walk_up.simps) simp
    with False 1 enclosing_step [of fs dir w] show ?thesis by simp
  qed
qed

text \<open>C35: the walk ends for every directory, at the nearest enclosing directory whose manifest declares a
  workspace, and panics only when no enclosing directory, the root included, does.\<close>

theorem workspace_root_nearest:
  "find_workspace_root fs dir = Inr w \<longleftrightarrow>
     (\<exists>below. dir = w @ below \<and> is_workspace fs w \<and>
        (\<forall>k. length w < k \<and> k \<le> length dir \<longrightarrow> \<not> is_workspace fs (take k dir)))"
  unfolding find_workspace_root_def by (rule walk_up_nearest)

definition demo_files :: files where
  "demo_files = \<lparr>path_exists = (\<lambda>p. last p = ''Cargo.toml''),
     read_to_string = (\<lambda>p. if p = [''repo'', ''Cargo.toml''] then Inr ''[workspace]'' else Inr ''[package]'')\<rparr>"

theorem workspace_root_nearest_witness: "find_workspace_root demo_files [''repo'', ''ext''] = Inr [''repo'']"
proof -
  have "is_workspace demo_files [''repo'']" "\<not> is_workspace demo_files [''repo'', ''ext'']"
    by (simp_all add: is_workspace_def demo_files_def starts_with_def Let_def)
  then show ?thesis unfolding workspace_root_nearest by (auto simp: le_Suc_eq numeral_2_eq_2)
qed

section \<open>Reading back a lock file\<close>

definition unlines :: "string list \<Rightarrow> string" where
  "unlines ls = concat (map (\<lambda>l. l @ [CHR 0x0A]) ls)"

definition plain :: "string \<Rightarrow> bool" where
  "plain l \<longleftrightarrow> CHR 0x0A \<notin> set l \<and> CHR 0x0D \<notin> set l"

lemma split_lines_plain:
  "CHR 0x0A \<notin> set l \<Longrightarrow> CHR 0x0D \<notin> set l \<Longrightarrow> CHR 0x0D \<notin> set acc \<Longrightarrow>
     split_lines acc (l @ CHR 0x0A # r) = (rev acc @ l) # split_lines [] r"
proof (induction l arbitrary: acc)
  case Nil
  then show ?case by (cases acc) auto
next
  case (Cons c l)
  then have "c \<noteq> CHR 0x0A" by auto
  with Cons show ?case by simp
qed

lemma lines_of_unlines: "list_all plain ls \<Longrightarrow> lines_of (unlines ls) = ls"
  by (induction ls) (simp_all add: lines_of_def unlines_def plain_def split_lines_plain)

lemma unlines_snoc: "unlines ls @ l @ [CHR 0x0A] = unlines (ls @ [l])"
  by (simp add: unlines_def)

definition outer_safe :: "char \<Rightarrow> bool" where
  "outer_safe c \<longleftrightarrow> list_all (\<lambda>w. hd w \<noteq> c \<and> last w \<noteq> c) whitespace"

lemma strip_front_id:
  assumes "\<And>w. w \<in> set ws \<Longrightarrow> hd w \<noteq> hd s"
  shows "strip_front ws s = s"
proof -
  have "find (\<lambda>w. w \<noteq> [] \<and> starts_with s w) ws = None"
    using assms by (auto simp: find_None_iff starts_with_def) (metis hd_take length_greater_0_conv)
  then show ?thesis by (simp add: strip_front.simps)
qed

lemma trim_id:
  assumes "s \<noteq> []" "outer_safe (hd s)" "outer_safe (last s)"
  shows "trim s = s"
proof -
  have ne: "w \<noteq> []" if "w \<in> set whitespace" for w using whitespace_not_hex [OF that] by simp
  have f: "strip_front whitespace s = s"
    using assms(2) by (intro strip_front_id) (auto simp: outer_safe_def list_all_iff)
  have r: "strip_front (map rev whitespace) (rev s) = rev s"
    using assms(1,3) ne by (intro strip_front_id) (auto simp: outer_safe_def list_all_iff hd_rev)
  show ?thesis by (simp add: trim_def f r)
qed

lemma outer_safe_chars: "outer_safe (CHR ''n'')" "outer_safe (CHR ''v'')" "outer_safe (CHR 0x22)"
  "outer_safe (CHR ''['')" "outer_safe (CHR '']'')"
  by code_simp+

definition field_line :: "string \<Rightarrow> string \<Rightarrow> string" where
  "field_line key val = key @ '' = '' @ [CHR 0x22] @ val @ [CHR 0x22]"

lemma quoted_field_line:
  assumes "key \<noteq> []" "outer_safe (hd key)"
  shows "quoted_field key (field_line key val) = Some val"
    and "k \<noteq> [] \<Longrightarrow> hd k \<noteq> hd key \<Longrightarrow> quoted_field k (field_line key val) = None"
proof -
  have t: "trim (field_line key val) = field_line key val"
    using assms outer_safe_chars(3) by (intro trim_id) (simp_all add: field_line_def)
  show "quoted_field key (field_line key val) = Some val"
    by (simp add: quoted_field_def t) (simp add: field_line_def strip_prefix_def strip_suffix_def starts_with_def)
  assume "k \<noteq> []" "hd k \<noteq> hd key"
  then have "\<not> starts_with (field_line key val) (k @ '' = '' @ [CHR 0x22])"
    using assms(1) by (cases k; cases key) (auto simp: field_line_def starts_with_def)
  then show "quoted_field k (field_line key val) = None"
    by (simp add: quoted_field_def t strip_prefix_def)
qed

record package =
  pkg_name :: string
  pkg_version :: string
  pkg_rest :: "string list"

definition package_lines :: "package \<Rightarrow> string list" where
  "package_lines p =
     ''[[package]]'' # field_line ''name'' (pkg_name p) # field_line ''version'' (pkg_version p) # pkg_rest p"

definition header_line :: "string \<Rightarrow> bool" where
  "header_line l \<longleftrightarrow> starts_with (trim l) ''[[package]]''"

definition package_ok :: "package \<Rightarrow> bool" where
  "package_ok p \<longleftrightarrow> plain (pkg_name p) \<and> plain (pkg_version p) \<and>
     list_all (\<lambda>l. plain l \<and> \<not> header_line l) (pkg_rest p)"

definition preamble_ok :: "string list \<Rightarrow> bool" where
  "preamble_ok hs \<longleftrightarrow> list_all (\<lambda>l. plain l \<and> \<not> header_line l \<and> quoted_field ''name'' l = None) hs"

lemma field_line_not_header:
  assumes "outer_safe (hd key)" "key \<noteq> []" "hd key \<noteq> CHR ''[''"
  shows "\<not> header_line (field_line key val)"
proof -
  have "trim (field_line key val) = field_line key val"
    using assms outer_safe_chars(3) by (intro trim_id) (simp_all add: field_line_def)
  then show ?thesis using assms
    by (cases key) (auto simp: header_line_def field_line_def starts_with_def)
qed

lemma plain_field_line: "plain (field_line key val) \<longleftrightarrow> plain key \<and> plain val"
  by (auto simp: plain_def field_line_def)

lemma header_line_package: "header_line ''[[package]]''"
proof -
  have "trim ''[[package]]'' = ''[[package]]''"
    using outer_safe_chars by (intro trim_id) simp_all
  then show ?thesis by (simp add: header_line_def starts_with_def)
qed

lemmas name_line = quoted_field_line [of "''name''"] field_line_not_header [of "''name''"]
lemmas version_line = quoted_field_line [of "''version''"] field_line_not_header [of "''version''"]

lemma scan_line_cases:
  "header_line l \<Longrightarrow> scan_line st l = ''''"
  "\<not> header_line l \<Longrightarrow> scan_line (unlines ls) l = unlines (ls @ [l])"
  by (simp_all add: scan_line_def header_line_def unlines_snoc)

lemma scan_blocks_append:
  "scan_blocks st (xs @ ys) = scan_blocks st xs @ scan_blocks (foldl scan_line st xs) ys"
  by (induction xs arbitrary: st) (simp_all add: Let_def)

lemma block_package_unlines:
  assumes "list_all plain ls"
  shows "block_package (unlines ls) =
    (case (find_map (quoted_field ''name'') ls, find_map (quoted_field ''version'') ls) of
       (Some n, Some v) \<Rightarrow> Some (n, v) | _ \<Rightarrow> None)"
  by (simp add: block_package_def lines_of_unlines [OF assms] split: option.split)

text \<open>Once the two fields are read, every further line of the block gives the same pair again.\<close>

lemma rest_blocks:
  assumes "plain n" "plain v" "list_all plain extra" "list_all (\<lambda>l. plain l \<and> \<not> header_line l) rest"
  shows "List.map_filter block_package
      (scan_blocks (unlines (field_line ''name'' n # field_line ''version'' v # extra)) rest) =
    replicate (length rest) (n, v)"
  using assms(3,4)
proof (induction rest arbitrary: extra)
  case Nil
  then show ?case by (simp add: List.map_filter_simps)
next
  case (Cons l rest)
  let ?ls = "field_line ''name'' n # field_line ''version'' v # extra @ [l]"
  have "plain ''name''" "plain ''version''" by (simp_all add: plain_def)
  then have ok: "list_all plain ?ls" using Cons.prems assms(1,2) by (simp add: plain_field_line)
  have "block_package (unlines ?ls) = Some (n, v)"
    unfolding block_package_unlines [OF ok] using outer_safe_chars by (simp add: name_line version_line)
  then show ?case
    using Cons scan_line_cases(2) [of l "field_line ''name'' n # field_line ''version'' v # extra"]
    by (simp add: Let_def List.map_filter_simps)
qed

lemma package_blocks:
  assumes "package_ok p"
  shows "List.map_filter block_package (scan_blocks st (package_lines p)) =
    replicate (Suc (length (pkg_rest p))) (pkg_name p, pkg_version p)"
proof -
  let ?n = "field_line ''name'' (pkg_name p)" and ?v = "field_line ''version'' (pkg_version p)"
  have pl: "plain ''name''" "plain ''version''" "plain (pkg_name p)" "plain (pkg_version p)"
    using assms by (simp_all add: plain_def package_ok_def)
  have nh: "\<not> header_line ?n" "\<not> header_line ?v" using outer_safe_chars by (simp_all add: name_line version_line)
  have scan: "scan_line st ''[[package]]'' = unlines []" "scan_line (unlines []) ?n = unlines [?n]"
    "scan_line (unlines [?n]) ?v = unlines [?n, ?v]"
    using scan_line_cases(1) [OF header_line_package, of st]
      scan_line_cases(2) [OF nh(1), of "[]"] scan_line_cases(2) [OF nh(2), of "[?n]"]
    by (simp_all add: unlines_def)
  have blocks: "block_package (unlines []) = None" "block_package (unlines [?n]) = None"
    "block_package (unlines [?n, ?v]) = Some (pkg_name p, pkg_version p)"
    using pl outer_safe_chars by (simp_all add: block_package_unlines plain_field_line name_line version_line)
  have rest: "list_all (\<lambda>l. plain l \<and> \<not> header_line l) (pkg_rest p)" using assms by (simp add: package_ok_def)
  show ?thesis
    unfolding package_lines_def
    using rest_blocks [OF pl(3,4), of "[]", OF _ rest]
    by (simp add: Let_def scan List.map_filter_simps blocks)
qed

lemma map_filter_append: "List.map_filter f (xs @ ys) = List.map_filter f xs @ List.map_filter f ys"
  by (simp add: List.map_filter_def)

lemma find_replicate_append:
  "find P (replicate (Suc k) x @ ys) = (if P x then Some x else find P ys)"
  by (induction k) auto

lemma packages_blocks:
  "list_all package_ok ps \<Longrightarrow>
     map_option snd (find (\<lambda>(name, _). name = ''confium-core'')
       (List.map_filter block_package (scan_blocks st (concat (map package_lines ps))))) =
     map_option pkg_version (find (\<lambda>p. pkg_name p = ''confium-core'') ps)"
proof (induction ps arbitrary: st)
  case Nil
  then show ?case by (simp add: List.map_filter_simps)
next
  case (Cons p ps)
  then show ?case
    by (simp add: scan_blocks_append map_filter_append package_blocks find_replicate_append
        del: replicate.simps)
qed

lemma preamble_blocks:
  "list_all plain pre \<Longrightarrow> list_all (\<lambda>l. quoted_field ''name'' l = None) pre \<Longrightarrow> preamble_ok hs \<Longrightarrow>
     List.map_filter block_package (scan_blocks (unlines pre) hs) = []"
proof (induction hs arbitrary: pre)
  case Nil
  then show ?case by (simp add: List.map_filter_simps)
next
  case (Cons l hs)
  have none: "find_map (quoted_field ''name'') ls = None"
    if "list_all (\<lambda>l. quoted_field ''name'' l = None) ls" for ls using that by (induction ls) auto
  have l: "plain l" "\<not> header_line l" "quoted_field ''name'' l = None" and hs: "preamble_ok hs"
    using Cons.prems(3) by (simp_all add: preamble_ok_def)
  have "block_package (unlines (pre @ [l])) = None"
    using Cons.prems l none [of "pre @ [l]"] by (simp add: block_package_unlines)
  then show ?case
    using Cons.IH [of "pre @ [l]"] Cons.prems l hs
    by (simp add: Let_def scan_line_cases(2) List.map_filter_simps)
qed

text \<open>C34: on a lock file laid out as Cargo writes it (a preamble, then one block per package with its name and
  version first), the scan of the build script yields the version of the first package named
  \<open>confium-core\<close>, and nothing exactly when no package has that name.\<close>

theorem core_version_correct:
  assumes "preamble_ok hs" "list_all package_ok ps"
  shows "core_version_of (unlines (hs @ concat (map package_lines ps))) =
    map_option pkg_version (find (\<lambda>p. pkg_name p = ''confium-core'') ps)"
proof -
  have "plain ''name''" "plain ''version''" "plain ''[[package]]''" by (simp_all add: plain_def)
  then have "list_all plain (package_lines p)" if "package_ok p" for p
    using that by (auto simp: package_lines_def package_ok_def plain_field_line list_all_iff)
  then have "list_all plain (hs @ concat (map package_lines ps))"
    using assms by (auto simp: preamble_ok_def list_all_iff)
  moreover have "List.map_filter block_package (scan_blocks '''' hs) = []"
    using preamble_blocks [of "[]" hs] assms(1) by (simp add: unlines_def)
  ultimately show ?thesis
    unfolding core_version_of_def
    by (simp add: lines_of_unlines scan_blocks_append map_filter_append packages_blocks [OF assms(2)])
qed

definition demo_packages :: "package list" where
  "demo_packages =
     [\<lparr>pkg_name = ''magnus'', pkg_version = ''0.7.1'', pkg_rest = [''dependencies = ['', ''confium-core,'', '']'', '''']\<rparr>,
      \<lparr>pkg_name = ''confium-core'', pkg_version = ''0.3.0'', pkg_rest = ['''']\<rparr>]"

theorem core_version_correct_witness:
  "core_version_of (unlines ([''version = 4'', ''''] @ concat (map package_lines demo_packages))) = Some ''0.3.0''"
proof -
  have "preamble_ok [''version = 4'', '''']" "list_all package_ok demo_packages" by code_simp+
  from core_version_correct [OF this] show ?thesis by (simp add: demo_packages_def)
qed

end
