(* ===== verification/Sockets.thy ===== *)
theory Sockets
  imports Prelude
begin

text \<open>
  Programs that call the socket layer of Windows and the socket types of Rust's standard library, as
  \<^verbatim>\<open>ext/confium_native/src/winsock.rs\<close> does, with the threads it spawns.

  The operating system is not a function but everything it may answer: a program is a tree of calls with one
  continuation for each answer, \<open>step\<close> lets any thread make its next call and get any answer that \<open>allowed\<close>
  admits. A handle that a call opens is not one that is open already; \<open>accept\<close> only returns a connection that
  a \<open>connect\<close> to the listener's port has made, or that counts in the backlog of that port at the start, which is
  arbitrary in the theorems and stands for the connections other processes make. A blocking \<open>accept\<close> is a
  thread that takes no step; it may also fail at any time. Printing and spawning a thread do not fail here
  (in Rust they panic when the process cannot write or has no resources). Standard library objects are handles as well, and dropping one
  closes it.

  \<open>wp\<close> is the weakest precondition of a program with respect to the sockets it owns. Its soundness for every
  interleaving is proved here once: calls use open sockets only, and at the end no more than the declared
  number of sockets is left behind.
\<close>

section \<open>Calls and answers\<close>

record io_error =
  e_text :: string
  e_kind :: string
  e_raw :: string

definition INVALID :: nat where
  "INVALID = 2 ^ 64 - 1"

datatype call =
    Socket int int int
  | WSASocketW int int int u32
  | Accept nat
  | Std_tcp_bind bool
  | Std_udp_bind
  | Std_connect bool u16
  | Bind nat bytes
  | Connect nat bytes
  | Listen nat int
  | Send nat bytes
  | Recv nat nat bool
  | Setsockopt nat int int u32
  | Ioctlsocket nat int u32
  | Getsockname nat
  | Std_local_addr nat
  | Std_write_all nat bytes
  | Std_read nat
  | Std_set_read_timeout nat nat
  | Std_set_nodelay nat bool
  | Std_set_nonblocking nat bool
  | Closesocket nat
  | Drop nat
  | WSAGetLastError
  | WSAStartup u16
  | GetModuleHandle string
  | GetProcAddress string
  | Sleep nat
  | Eprintln string
  | Swap_probed
  | Set_push_port u16
  | Get_push_port

datatype answer =
    is_Code: Code (code_of: int)
  | is_Handle: Handle (handle_of: nat)
  | is_Opened: Opened (opened_of: "io_error + nat")
  | is_Outcome: Outcome (outcome_of: "io_error + string")
  | is_Name: Name (name_code: int) (name_bytes: bytes)
  | is_Started: Started (started_code: int) (started_version: u16) (started_high: u16)
  | is_Flag: Flag (flag_of: bool)
  | is_Port: Port (port_of: u16)
  | is_Done: Done

text \<open>The type of a call's answer.\<close>

fun typed :: "call \<Rightarrow> answer \<Rightarrow> bool" where
  "typed (Socket _ _ _) a \<longleftrightarrow> is_Handle a"
| "typed (WSASocketW _ _ _ _) a \<longleftrightarrow> is_Handle a"
| "typed (Accept _) a \<longleftrightarrow> is_Handle a"
| "typed (Std_tcp_bind _) a \<longleftrightarrow> is_Opened a"
| "typed Std_udp_bind a \<longleftrightarrow> is_Opened a"
| "typed (Std_connect _ _) a \<longleftrightarrow> is_Opened a"
| "typed (Getsockname _) a \<longleftrightarrow> is_Name a"
| "typed (Std_local_addr _) a \<longleftrightarrow> is_Outcome a"
| "typed (Std_write_all _ _) a \<longleftrightarrow> is_Outcome a"
| "typed (Std_read _) a \<longleftrightarrow> is_Outcome a"
| "typed (Std_set_read_timeout _ _) a \<longleftrightarrow> is_Outcome a"
| "typed (Std_set_nodelay _ _) a \<longleftrightarrow> is_Outcome a"
| "typed (Std_set_nonblocking _ _) a \<longleftrightarrow> is_Outcome a"
| "typed (WSAStartup _) a \<longleftrightarrow> is_Started a"
| "typed (GetModuleHandle _) a \<longleftrightarrow> is_Flag a"
| "typed (GetProcAddress _) a \<longleftrightarrow> is_Flag a"
| "typed Swap_probed a \<longleftrightarrow> is_Flag a"
| "typed Get_push_port a \<longleftrightarrow> is_Port a"
| "typed (Drop _) a \<longleftrightarrow> is_Done a"
| "typed (Sleep _) a \<longleftrightarrow> is_Done a"
| "typed (Eprintln _) a \<longleftrightarrow> is_Done a"
| "typed (Set_push_port _) a \<longleftrightarrow> is_Done a"
| "typed (Bind _ _) a \<longleftrightarrow> is_Code a"
| "typed (Connect _ _) a \<longleftrightarrow> is_Code a"
| "typed (Listen _ _) a \<longleftrightarrow> is_Code a"
| "typed (Send _ _) a \<longleftrightarrow> is_Code a"
| "typed (Recv _ _ _) a \<longleftrightarrow> is_Code a"
| "typed (Setsockopt _ _ _ _) a \<longleftrightarrow> is_Code a"
| "typed (Ioctlsocket _ _ _) a \<longleftrightarrow> is_Code a"
| "typed (Closesocket _) a \<longleftrightarrow> is_Code a"
| "typed WSAGetLastError a \<longleftrightarrow> is_Code a"

lemmas answer_kinds [simp] = is_Code_def is_Handle_def is_Opened_def is_Outcome_def is_Name_def is_Started_def
  is_Flag_def is_Port_def is_Done_def

text \<open>The sockets a call works on, the ones it closes, and the one its answer opens.\<close>

fun uses :: "call \<Rightarrow> nat set" where
  "uses (Accept h) = {h}"
| "uses (Bind h _) = {h}"
| "uses (Connect h _) = {h}"
| "uses (Listen h _) = {h}"
| "uses (Send h _) = {h}"
| "uses (Recv h _ _) = {h}"
| "uses (Setsockopt h _ _ _) = {h}"
| "uses (Ioctlsocket h _ _) = {h}"
| "uses (Getsockname h) = {h}"
| "uses (Std_local_addr h) = {h}"
| "uses (Std_write_all h _) = {h}"
| "uses (Std_read h) = {h}"
| "uses (Std_set_read_timeout h _) = {h}"
| "uses (Std_set_nodelay h _) = {h}"
| "uses (Std_set_nonblocking h _) = {h}"
| "uses (Closesocket h) = {h}"
| "uses (Drop h) = {h}"
| "uses _ = {}"

fun closes :: "call \<Rightarrow> nat set" where
  "closes (Closesocket h) = {h}"
| "closes (Drop h) = {h}"
| "closes _ = {}"

fun opens :: "answer \<Rightarrow> nat set" where
  "opens (Handle h) = (if h = INVALID then {} else {h})"
| "opens (Opened (Inr h)) = {h}"
| "opens _ = {}"

section \<open>Programs\<close>

text \<open>The threads the sources spawn, with the listener that moves into them.\<close>

datatype server = Push nat | Silent_std nat | Silent_ffi nat

datatype 'a prog =
    Ret 'a
  | Sys call "answer \<Rightarrow> 'a prog"
  | Spawn server "nat \<Rightarrow> 'a prog"
  | Join nat "'a prog"

primrec bindw :: "'a prog \<Rightarrow> ('a \<Rightarrow> 'b prog) \<Rightarrow> 'b prog" where
  "bindw (Ret x) f = f x"
| "bindw (Sys c k) f = Sys c (\<lambda>a. bindw (k a) f)"
| "bindw (Spawn b k) f = Spawn b (\<lambda>t. bindw (k t) f)"
| "bindw (Join t p) f = Join t (bindw p f)"

definition seqw :: "unit prog \<Rightarrow> 'a prog \<Rightarrow> 'a prog" where
  "seqw p q = bindw p (\<lambda>_. q)"

fun doall :: "unit prog list \<Rightarrow> unit prog" where
  "doall [] = Ret ()"
| "doall (p # ps) = seqw p (doall ps)"

lemma bindw_assoc: "bindw (bindw p f) g = bindw p (\<lambda>x. bindw (f x) g)"
  by (induction p) simp_all

lemma bindw_Ret: "bindw p Ret = p"
  by (induction p) simp_all

abbreviation socket :: "int \<Rightarrow> int \<Rightarrow> int \<Rightarrow> nat prog" where
  "socket af ty protocol \<equiv> Sys (Socket af ty protocol) (\<lambda>a. Ret (handle_of a))"

abbreviation wsa_socket :: "int \<Rightarrow> int \<Rightarrow> int \<Rightarrow> u32 \<Rightarrow> nat prog" where
  "wsa_socket af ty protocol flags \<equiv> Sys (WSASocketW af ty protocol flags) (\<lambda>a. Ret (handle_of a))"

abbreviation accept :: "nat \<Rightarrow> nat prog" where
  "accept s \<equiv> Sys (Accept s) (\<lambda>a. Ret (handle_of a))"

abbreviation code_call :: "call \<Rightarrow> int prog" where
  "code_call c \<equiv> Sys c (\<lambda>a. Ret (code_of a))"

abbreviation open_std :: "call \<Rightarrow> (io_error + nat) prog" where
  "open_std c \<equiv> Sys c (\<lambda>a. Ret (opened_of a))"

abbreviation std_call :: "call \<Rightarrow> (io_error + string) prog" where
  "std_call c \<equiv> Sys c (\<lambda>a. Ret (outcome_of a))"

abbreviation do_call :: "call \<Rightarrow> unit prog" where
  "do_call c \<equiv> Sys c (\<lambda>_. Ret ())"

abbreviation eprintln :: "string \<Rightarrow> unit prog" where
  "eprintln m \<equiv> do_call (Eprintln m)"

abbreviation last_error :: "int prog" where
  "last_error \<equiv> code_call WSAGetLastError"

section \<open>Execution\<close>

text \<open>\<open>so_bound\<close>: the port of each listener whose name was read; \<open>so_backlog\<close>: connections made to a port and
  not accepted yet.\<close>

record sockets =
  so_open :: "nat set"
  so_bound :: "nat \<Rightarrow> u16 option"
  so_backlog :: "u16 \<Rightarrow> nat"
  so_probed :: bool
  so_push_port :: u16
  so_log :: "string list"

definition from_be :: "u8 \<Rightarrow> u8 \<Rightarrow> u16" where
  "from_be hi lo = word_of_nat (256 * unat hi + unat lo)"

definition byte_at :: "bytes \<Rightarrow> nat \<Rightarrow> u8" where
  "byte_at bs i = (if i < length bs then bs ! i else 0)"

text \<open>The port of a \<open>sockaddr_in\<close>, in a buffer that was zero before.\<close>

definition sockaddr_port :: "bytes \<Rightarrow> u16" where
  "sockaddr_port bs = from_be (byte_at bs 2) (byte_at bs 3)"

definition allowed :: "sockets \<Rightarrow> call \<Rightarrow> answer \<Rightarrow> bool" where
  "allowed w c a \<longleftrightarrow>
     typed c a \<and> opens a \<inter> so_open w = {} \<and>
     (case c of
        Accept l \<Rightarrow> handle_of a = INVALID \<or> (case so_bound w l of Some p \<Rightarrow> 0 < so_backlog w p | None \<Rightarrow> False)
      | Swap_probed \<Rightarrow> a = Flag (so_probed w)
      | Get_push_port \<Rightarrow> a = Port (so_push_port w)
      | _ \<Rightarrow> True)"

definition add_backlog :: "u16 \<Rightarrow> sockets \<Rightarrow> sockets" where
  "add_backlog p w = w\<lparr>so_backlog := (so_backlog w)(p := Suc (so_backlog w p))\<rparr>"

definition effect :: "call \<Rightarrow> answer \<Rightarrow> sockets \<Rightarrow> sockets" where
  "effect c a w =
     (let w' = w\<lparr>so_open := so_open w - closes c \<union> opens a\<rparr> in
      case c of
        Accept l \<Rightarrow>
          (if handle_of a = INVALID then w'
           else (case so_bound w l of
                   None \<Rightarrow> w'
                 | Some p \<Rightarrow> w'\<lparr>so_backlog := (so_backlog w)(p := so_backlog w p - 1)\<rparr>))
      | Connect s addr \<Rightarrow> (if code_of a = 0 then add_backlog (sockaddr_port addr) w' else w')
      | Std_connect resolve p \<Rightarrow> (case opened_of a of Inr _ \<Rightarrow> add_backlog p w' | Inl _ \<Rightarrow> w')
      | Getsockname s \<Rightarrow>
          (if name_code a = 0 then w'\<lparr>so_bound := (so_bound w)(s \<mapsto> sockaddr_port (name_bytes a))\<rparr> else w')
      | Closesocket s \<Rightarrow> w'\<lparr>so_bound := (so_bound w)(s := None)\<rparr>
      | Swap_probed \<Rightarrow> w'\<lparr>so_probed := True\<rparr>
      | Set_push_port p \<Rightarrow> w'\<lparr>so_push_port := p\<rparr>
      | Eprintln m \<Rightarrow> w'\<lparr>so_log := so_log w @ [m]\<rparr>
      | _ \<Rightarrow> w')"

text \<open>The bodies of the spawned threads.\<close>

definition push_server :: "nat \<Rightarrow> unit prog" where
  "push_server ls =
     bindw (accept ls) (\<lambda>acc.
     seqw (if acc \<noteq> INVALID
           then doall [do_call (Send acc (utf8 ''x'')), do_call (Closesocket acc)]
           else Ret ())
     (do_call (Closesocket ls)))"

definition silent_std_server :: "nat \<Rightarrow> unit prog" where
  "silent_std_server ls =
     bindw (accept ls) (\<lambda>_. doall [do_call (Sleep 1200), do_call (Closesocket ls)])"

definition silent_ffi_server :: "nat \<Rightarrow> unit prog" where
  "silent_ffi_server ls =
     bindw (accept ls) (\<lambda>acc.
     seqw (if acc \<noteq> INVALID then doall [do_call (Sleep 1200), do_call (Closesocket acc)] else Ret ())
     (do_call (Closesocket ls)))"

fun body :: "server \<Rightarrow> unit prog" where
  "body (Push ls) = push_server ls"
| "body (Silent_std ls) = silent_std_server ls"
| "body (Silent_ffi ls) = silent_ffi_server ls"

record config =
  cf_sockets :: sockets
  cf_threads :: "nat \<Rightarrow> unit prog"
  cf_count :: nat

inductive step :: "config \<Rightarrow> config \<Rightarrow> bool" where
  sys: "i < cf_count c \<Longrightarrow> cf_threads c i = Sys cl k \<Longrightarrow> allowed (cf_sockets c) cl a \<Longrightarrow>
     step c (c\<lparr>cf_sockets := effect cl a (cf_sockets c), cf_threads := (cf_threads c)(i := k a)\<rparr>)"
| spawn: "i < cf_count c \<Longrightarrow> cf_threads c i = Spawn b k \<Longrightarrow>
     step c (c\<lparr>cf_threads := (cf_threads c)(i := k (cf_count c), cf_count c := body b),
               cf_count := Suc (cf_count c)\<rparr>)"
| join: "i < cf_count c \<Longrightarrow> cf_threads c i = Join t p \<Longrightarrow> t < cf_count c \<Longrightarrow> cf_threads c t = Ret () \<Longrightarrow>
     step c (c\<lparr>cf_threads := (cf_threads c)(i := p)\<rparr>)"

definition start :: "sockets \<Rightarrow> unit prog \<Rightarrow> config" where
  "start w p = \<lparr>cf_sockets = w, cf_threads = (\<lambda>_. p), cf_count = 1\<rparr>"

definition finished :: "config \<Rightarrow> bool" where
  "finished c \<longleftrightarrow> (\<forall>i < cf_count c. cf_threads c i = Ret ())"

text \<open>A given schedule: which thread goes next, and the answer if it makes a call.\<close>

fun run_sched :: "(nat \<times> answer) list \<Rightarrow> config \<Rightarrow> config option" where
  "run_sched [] c = Some c"
| "run_sched ((i, a) # es) c =
     (if i < cf_count c
      then (case cf_threads c i of
              Ret _ \<Rightarrow> None
            | Sys cl k \<Rightarrow>
                if allowed (cf_sockets c) cl a
                then run_sched es (c\<lparr>cf_sockets := effect cl a (cf_sockets c), cf_threads := (cf_threads c)(i := k a)\<rparr>)
                else None
            | Spawn b k \<Rightarrow>
                run_sched es (c\<lparr>cf_threads := (cf_threads c)(i := k (cf_count c), cf_count c := body b),
                                cf_count := Suc (cf_count c)\<rparr>)
            | Join t p \<Rightarrow>
                (case cf_threads c t of
                   Ret _ \<Rightarrow> if t < cf_count c then run_sched es (c\<lparr>cf_threads := (cf_threads c)(i := p)\<rparr>) else None
                 | _ \<Rightarrow> None))
      else None)"

lemma run_sched_steps: "run_sched es c = Some c' \<Longrightarrow> step\<^sup>*\<^sup>* c c'"
proof (induction es c rule: run_sched.induct)
  case (2 i a es c)
  then show ?case
    by (auto split: if_splits prog.splits intro: step.intros converse_rtranclp_into_rtranclp)
qed simp

text \<open>The sockets a thread's next call works on.\<close>

fun needs :: "'a prog \<Rightarrow> nat set" where
  "needs (Sys c k) = uses c"
| "needs _ = {}"

section \<open>Ownership\<close>

fun given :: "server \<Rightarrow> nat" where
  "given (Push ls) = ls"
| "given (Silent_std ls) = ls"
| "given (Silent_ffi ls) = ls"

text \<open>How many sockets a thread may leave open.\<close>

fun leaks :: "server \<Rightarrow> nat" where
  "leaks (Silent_std _) = 1"
| "leaks _ = 0"

primrec wp :: "'a prog \<Rightarrow> ('a \<Rightarrow> nat set \<Rightarrow> nat \<Rightarrow> bool) \<Rightarrow> nat set \<Rightarrow> nat \<Rightarrow> bool" where
  "wp (Ret x) Q own n = Q x own n"
| "wp (Sys c k) Q own n =
     (uses c \<subseteq> own \<and>
      (\<forall>a. typed c a \<and> opens a \<inter> own = {} \<longrightarrow> wp (k a) Q (own - closes c \<union> opens a) n))"
| "wp (Spawn b k) Q own n =
     (given b \<in> own \<and> leaks b \<le> n \<and> (\<forall>t. wp (k t) Q (own - {given b}) (n - leaks b)))"
| "wp (Join t p) Q own n = wp p Q own n"

lemma wp_bindw [simp]: "wp (bindw p f) Q own n = wp p (\<lambda>x. wp (f x) Q) own n"
  by (induction p arbitrary: own n) simp_all

lemma wp_seqw [simp]: "wp (seqw p q) Q own n = wp p (\<lambda>_. wp q Q) own n"
  by (simp add: seqw_def)

lemma wp_mono:
  "wp p Q own n \<Longrightarrow> (\<And>x o' m. Q x o' m \<Longrightarrow> R x o' m) \<Longrightarrow> wp p R own n"
  by (induction p arbitrary: own n) auto

subsection \<open>Soundness for every interleaving\<close>

text \<open>\<open>ow\<close> says which thread owns a socket, \<open>bud\<close> how many sockets each may still leave behind.\<close>

definition settled :: "'a \<Rightarrow> nat set \<Rightarrow> nat \<Rightarrow> bool" where
  "settled x own n \<longleftrightarrow> finite own \<and> card own \<le> n"

definition owned :: "(nat \<Rightarrow> nat option) \<Rightarrow> nat \<Rightarrow> nat set" where
  "owned ow i = {h. ow h = Some i}"

definition ownership :: "nat set \<Rightarrow> nat \<Rightarrow> config \<Rightarrow> (nat \<Rightarrow> nat option) \<Rightarrow> (nat \<Rightarrow> nat) \<Rightarrow> bool" where
  "ownership B N c ow bud \<longleftrightarrow>
     so_open (cf_sockets c) = B \<union> dom ow \<and> B \<inter> dom ow = {} \<and> ran ow \<subseteq> {..<cf_count c} \<and>
     (\<forall>i < cf_count c. wp (cf_threads c i) settled (owned ow i) (bud i)) \<and>
     (\<Sum>i < cf_count c. bud i) \<le> N"

lemma ownership_wp:
  "ownership B N c ow bud \<Longrightarrow> i < cf_count c \<Longrightarrow> wp (cf_threads c i) settled (owned ow i) (bud i)"
  by (simp add: ownership_def)

lemma closes_uses: "closes c \<subseteq> uses c"
  by (cases c) simp_all

lemma effect_open: "so_open (effect c a w) = so_open w - closes c \<union> opens a"
  by (cases c) (simp_all add: effect_def Let_def add_backlog_def split: option.split sum.split)

lemma owned_dom: "owned ow i \<subseteq> dom ow"
  by (auto simp: owned_def)

definition reown :: "nat \<Rightarrow> nat set \<Rightarrow> nat set \<Rightarrow> (nat \<Rightarrow> nat option) \<Rightarrow> nat \<Rightarrow> nat option" where
  "reown i gone new ow h = (if h \<in> new then Some i else if h \<in> gone then None else ow h)"

lemma reown_facts:
  assumes "gone \<subseteq> owned ow i" "new \<inter> dom ow = {}"
  shows "dom (reown i gone new ow) = dom ow - gone \<union> new"
    and "owned (reown i gone new ow) i = owned ow i - gone \<union> new"
    and "j \<noteq> i \<Longrightarrow> owned (reown i gone new ow) j = owned ow j"
    and "ran (reown i gone new ow) \<subseteq> insert i (ran ow)"
  using assms by (auto simp: reown_def owned_def dom_def ran_def split: if_splits)

lemma step_sys_ownership:
  assumes own: "ownership B N c ow bud" and i: "i < cf_count c" "cf_threads c i = Sys cl k"
    and a: "allowed (cf_sockets c) cl a"
  shows "ownership B N (c\<lparr>cf_sockets := effect cl a (cf_sockets c), cf_threads := (cf_threads c)(i := k a)\<rparr>)
    (reown i (closes cl) (opens a) ow) bud"
proof -
  have w: "wp (Sys cl k) settled (owned ow i) (bud i)" using ownership_wp [OF own i(1)] i(2) by simp
  then have gone: "closes cl \<subseteq> owned ow i" using closes_uses [of cl] by auto
  have new: "opens a \<inter> (B \<union> dom ow) = {}" using a own by (auto simp: allowed_def ownership_def)
  then have fresh: "opens a \<inter> dom ow = {}" by auto
  note facts = reown_facts [OF gone fresh]
  have "typed cl a" using a by (simp add: allowed_def)
  moreover have "opens a \<inter> owned ow i = {}" using fresh owned_dom [of ow i] by auto
  ultimately have next_i: "wp (k a) settled (owned ow i - closes cl \<union> opens a) (bud i)" using w by simp
  have "B \<inter> dom ow = {}" using own by (simp add: ownership_def)
  then have "B \<inter> closes cl = {}" using gone owned_dom [of ow i] by blast
  then have "so_open (effect cl a (cf_sockets c)) = B \<union> dom (reown i (closes cl) (opens a) ow)"
    using own by (auto simp: effect_open facts ownership_def)
  moreover have "B \<inter> dom (reown i (closes cl) (opens a) ow) = {}" using own new by (auto simp: facts ownership_def)
  moreover have "ran (reown i (closes cl) (opens a) ow) \<subseteq> {..<cf_count c}"
    using facts(4) own i by (auto simp: ownership_def)
  moreover have "wp (((cf_threads c)(i := k a)) j) settled (owned (reown i (closes cl) (opens a) ow) j) (bud j)"
    if "j < cf_count c" for j
    using that next_i own by (cases "j = i") (auto simp: facts ownership_def)
  ultimately show ?thesis using own by (simp add: ownership_def)
qed

text \<open>Every thread body gives back the listener it is given, up to its declared leak.\<close>

lemma body_settled: "wp (body b) settled {given b} (leaks b)"
  by (cases b) (auto simp: push_server_def silent_std_server_def silent_ffi_server_def settled_def)

lemma step_spawn_ownership:
  assumes own: "ownership B N c ow bud" and i: "i < cf_count c" "cf_threads c i = Spawn b k"
  shows "ownership B N
    (c\<lparr>cf_threads := (cf_threads c)(i := k (cf_count c), cf_count c := body b), cf_count := Suc (cf_count c)\<rparr>)
    (ow(given b \<mapsto> cf_count c)) (bud(i := bud i - leaks b, cf_count c := leaks b))"
proof -
  let ?n = "cf_count c" and ?ow = "ow(given b \<mapsto> cf_count c)"
  have w: "wp (Spawn b k) settled (owned ow i) (bud i)" using ownership_wp [OF own i(1)] i(2) by simp
  then have g: "ow (given b) = Some i" and l: "leaks b \<le> bud i" by (auto simp: owned_def)
  have none: "owned ow ?n = {}" using own by (auto simp: ownership_def owned_def ran_def)
  have ow_eq: "owned ?ow ?n = {given b}" "owned ?ow i = owned ow i - {given b}"
    "j \<noteq> i \<Longrightarrow> j \<noteq> ?n \<Longrightarrow> owned ?ow j = owned ow j" for j
    using g i none by (auto simp: owned_def)
  have dom: "dom ?ow = dom ow" using g by auto
  have "wp (((cf_threads c)(i := k ?n, ?n := body b)) j) settled (owned ?ow j) ((bud(i := bud i - leaks b, ?n := leaks b)) j)"
    if "j < Suc ?n" for j
    using that w own i body_settled [of b] by (auto simp: ow_eq ownership_def)
  moreover have "(\<Sum>j < Suc ?n. (bud(i := bud i - leaks b, ?n := leaks b)) j) \<le> N"
  proof -
    have "(\<Sum>j < ?n. (bud(i := bud i - leaks b)) j) + leaks b = (\<Sum>j < ?n. bud j)"
      using l i(1) by (simp add: sum.remove [of "{..<?n}" i] sum.remove [of _ i])
    then show ?thesis using own by (simp add: ownership_def)
  qed
  moreover have "ran ?ow \<subseteq> {..<Suc ?n}" using own by (auto simp: ownership_def ran_def)
  ultimately show ?thesis using own by (simp add: ownership_def dom del: dom_fun_upd)
qed

lemma step_ownership:
  assumes "step c c'" "ownership B N c ow bud"
  shows "\<exists>ow' bud'. ownership B N c' ow' bud'"
  using assms
proof (induction rule: step.induct)
  case (sys i c cl k a)
  then show ?case using step_sys_ownership by blast
next
  case (spawn i c b k)
  then show ?case using step_spawn_ownership by blast
next
  case (join i c t p)
  then have "wp p settled (owned ow i) (bud i)" using ownership_wp [of B N c ow bud i] by simp
  with join have "ownership B N (c\<lparr>cf_threads := (cf_threads c)(i := p)\<rparr>) ow bud" by (auto simp: ownership_def)
  then show ?case by blast
qed

lemma steps_ownership:
  assumes "step\<^sup>*\<^sup>* (start w p) c" "wp p settled {} N"
  shows "\<exists>ow bud. ownership (so_open w) N c ow bud"
  using assms(1)
proof (induction rule: rtranclp_induct)
  case base
  have "ownership (so_open w) N (start w p) (\<lambda>_. None) (\<lambda>_. N)"
    using assms(2) by (simp add: ownership_def start_def owned_def)
  then show ?case by blast
next
  case (step c c')
  then show ?case using step_ownership by blast
qed

text \<open>Two consequences: no thread's next call works on a closed socket, and at the end at most \<open>N\<close> sockets
  more are open than before.\<close>

lemma ownership_safe:
  assumes "ownership B N c ow bud" "i < cf_count c"
  shows "needs (cf_threads c i) \<subseteq> so_open (cf_sockets c) - B"
proof (cases "cf_threads c i")
  case (Sys cl k)
  then have "uses cl \<subseteq> owned ow i" using ownership_wp [OF assms] by simp
  moreover have "B \<inter> dom ow = {}" "so_open (cf_sockets c) = B \<union> dom ow"
    using assms(1) by (simp_all add: ownership_def)
  ultimately show ?thesis using Sys owned_dom [of ow i] by (simp only: needs.simps) blast
qed simp_all

lemma ownership_finished:
  assumes own: "ownership B N c ow bud" and "finished c"
  shows "B \<subseteq> so_open (cf_sockets c) \<and> finite (so_open (cf_sockets c) - B) \<and> card (so_open (cf_sockets c) - B) \<le> N"
proof -
  have each: "finite (owned ow i)" "card (owned ow i) \<le> bud i" if "i < cf_count c" for i
    using own assms(2) that by (auto simp: ownership_def finished_def settled_def)
  have split: "dom ow = (\<Union>i < cf_count c. owned ow i)"
    using own by (auto simp: ownership_def owned_def ran_def)
  then have "finite (dom ow)" using each by auto
  moreover have "card (dom ow) \<le> (\<Sum>i < cf_count c. card (owned ow i))"
    unfolding split by (rule card_UN_le) simp
  moreover have "(\<Sum>i < cf_count c. card (owned ow i)) \<le> (\<Sum>i < cf_count c. bud i)"
    using each by (intro sum_mono) auto
  moreover have "so_open (cf_sockets c) - B = dom ow" "B \<subseteq> so_open (cf_sockets c)"
    using own by (auto simp: ownership_def)
  ultimately show ?thesis using own by (auto simp: ownership_def)
qed

end
