(* ===== verification/Winsock.thy ===== *)
theory Winsock
  imports Sockets
begin

text \<open>
  \<^verbatim>\<open>ext/confium_native/src/winsock.rs\<close>: the socket diagnostics that run once when the extension is loaded on
  Windows (\<open>probe\<close>) and on demand from Ruby (\<open>probe_on_demand\<close>), as programs over the calls of \<open>Sockets\<close>.
  \<open>return\<close> out of a function is the end of a branch, and a standard library object is dropped where its
  scope ends. \<open>probe_on_demand\<close> is the sequence of the source's lettered probes.
\<close>

section \<open>Addresses and formats\<close>

definition AF_INET :: int where
  "AF_INET = 2"

definition to_be :: "u16 \<Rightarrow> bytes" where
  "to_be p = [word_of_nat (unat p div 256), word_of_nat (unat p mod 256)]"

text \<open>\<open>sockaddr_in\<close> of the loopback address; the family is little-endian on every Windows target.\<close>

definition sockaddr_in :: "u16 \<Rightarrow> bytes" where
  "sockaddr_in port = [2, 0] @ to_be port @ [127, 0, 0, 1] @ replicate 8 0"

function hex_digits :: "nat \<Rightarrow> string" where
  "hex_digits n = (if n < 16 then [hex_digit n] else hex_digits (n div 16) @ [hex_digit (n mod 16)])"
  by pat_completeness auto
termination by (relation "measure id") auto

declare hex_digits.simps [simp del]

text \<open>\<open>{:#x}\<close>.\<close>

definition show_ptr :: "nat \<Rightarrow> string" where
  "show_ptr n = ''0x'' @ hex_digits n"

definition untagged :: "string \<Rightarrow> unit prog" where
  "untagged m = eprintln (''confium-winsock: '' @ m)"

definition tagged :: "string \<Rightarrow> string \<Rightarrow> unit prog" where
  "tagged tag m = eprintln (''confium-winsock['' @ tag @ '']: '' @ m)"

text \<open>A \<open>match\<close> that prints \<open>OK\<close> or \<open>FAILED\<close> with the error.\<close>

definition report :: "string \<Rightarrow> string \<Rightarrow> string + 'a \<Rightarrow> unit prog" where
  "report tag what r =
     (case r of
        Inr _ \<Rightarrow> tagged tag (what @ '' OK'')
      | Inl e \<Rightarrow> tagged tag (what @ '' FAILED: '' @ e))"

definition report_std :: "string \<Rightarrow> string \<Rightarrow> io_error + 'a \<Rightarrow> unit prog" where
  "report_std tag what r = report tag what (map_err e_text r)"

text \<open>\<open>unwrap_or_default\<close> of \<open>local_addr\<close>.\<close>

definition addr_or_default :: "io_error + string \<Rightarrow> string" where
  "addr_or_default r = (case r of Inr a \<Rightarrow> a | Inl _ \<Rightarrow> '''')"

section \<open>The probes at load time\<close>

definition probe_raw_winsock :: "unit prog" where
  "probe_raw_winsock =
     bindw (socket AF_INET 1 6) (\<lambda>handle.
     if handle = INVALID
     then bindw last_error (\<lambda>err. untagged (''raw socket() FAILED wsagetlasterror='' @ show_int err))
     else
       seqw (untagged (''raw socket() handle='' @ show_ptr handle))
       (bindw (code_call (Bind handle (sockaddr_in 0))) (\<lambda>rc.
        seqw (if rc \<noteq> 0
              then bindw last_error (\<lambda>err.
                     untagged (''raw bind() rc='' @ show_int rc @ '' wsagetlasterror='' @ show_int err))
              else untagged ''raw bind() OK'')
        (do_call (Closesocket handle)))))"

definition variants :: "(string \<times> u32) list" where
  "variants =
     (let WSA_FLAG_OVERLAPPED = 0x01; WSA_FLAG_NO_HANDLE_INHERIT = 0x80 in
      [(''overlapped'', WSA_FLAG_OVERLAPPED),
       (''overlapped|no_handle_inherit'', or WSA_FLAG_OVERLAPPED WSA_FLAG_NO_HANDLE_INHERIT),
       (''flags=0'', 0)])"

definition probe_variant :: "string \<times> u32 \<Rightarrow> unit prog" where
  "probe_variant v =
     (let (label, flags) = v; what = ''WSASocketW['' @ label @ '']'' in
      bindw (wsa_socket AF_INET 1 6 flags) (\<lambda>s.
      if s = INVALID
      then bindw last_error (\<lambda>err. untagged (what @ '' FAILED wsagetlasterror='' @ show_int err))
      else
        bindw (code_call (Bind s (sockaddr_in 0))) (\<lambda>rc.
        seqw (if rc \<noteq> 0
              then bindw last_error (\<lambda>err.
                     untagged (what @ '' handle='' @ show_ptr s @ '' bind rc='' @ show_int rc @
                               '' wsagetlasterror='' @ show_int err))
              else untagged (what @ '' handle='' @ show_ptr s @ '' bind OK''))
        (do_call (Closesocket s)))))"

definition probe_wsa_socket_variants :: "unit prog" where
  "probe_wsa_socket_variants = doall (map probe_variant variants)"

definition probe_std_bind :: "bool \<Rightarrow> string \<Rightarrow> unit prog" where
  "probe_std_bind resolve what =
     bindw (open_std (Std_tcp_bind resolve)) (\<lambda>r.
     case r of
       Inr l \<Rightarrow>
         bindw (std_call (Std_local_addr l)) (\<lambda>a.
         seqw (untagged (what @ '' OK ('' @ addr_or_default a @ '')''))
         (do_call (Drop l)))
     | Inl e \<Rightarrow> untagged (what @ '' FAILED: '' @ e_text e))"

text \<open>The part of probe (f) after the raw listener is up.\<close>

definition probe_listener_client :: "nat \<Rightarrow> u16 \<Rightarrow> unit prog" where
  "probe_listener_client s port =
     bindw (open_std (Std_connect True port)) (\<lambda>r.
     seqw (case r of
             Inr c \<Rightarrow> seqw (untagged ''std client connect OK'') (do_call (Drop c))
           | Inl e \<Rightarrow> untagged (''std client connect FAILED: '' @ e_text e))
     (bindw (accept s) (\<lambda>acc.
      if acc \<noteq> INVALID then do_call (Closesocket acc) else Ret ())))"

definition probe_address_resolution_split :: "unit prog" where
  "probe_address_resolution_split =
     doall
       [probe_std_bind False ''std bind[SocketAddr]'',
        probe_std_bind True ''std bind[str]'',
        bindw (socket AF_INET 1 6) (\<lambda>s.
        if s = INVALID
        then bindw last_error (\<lambda>err. untagged (''probe-f socket FAILED '' @ show_int err))
        else
        bindw (code_call (Bind s (sockaddr_in 0))) (\<lambda>rc.
        if rc \<noteq> 0
        then bindw last_error (\<lambda>err.
               seqw (untagged (''probe-f bind FAILED '' @ show_int err)) (do_call (Closesocket s)))
        else
        bindw (code_call (Listen s 16)) (\<lambda>rc.
        if rc \<noteq> 0
        then bindw last_error (\<lambda>err.
               seqw (untagged (''probe-f listen FAILED '' @ show_int err)) (do_call (Closesocket s)))
        else
        bindw (Sys (Getsockname s) (\<lambda>a. Ret (name_code a, name_bytes a))) (\<lambda>(rc, got).
        let port = (if rc = 0 then sockaddr_port got else 0) in
        doall
          [if rc = 0 then untagged (''probe-f raw listener up on port '' @ show_nat (unat port)) else Ret (),
           if port \<noteq> 0 then probe_listener_client s port else Ret (),
           do_call (Closesocket s)]))))]"

definition show_version :: "u16 \<Rightarrow> string" where
  "show_version v = show_nat (unat v div 256) @ ''.'' @ show_nat (unat v mod 256)"

definition init_time_bind :: "unit prog" where
  "init_time_bind =
     bindw (open_std (Std_tcp_bind True)) (\<lambda>r.
     case r of
       Inr listener \<Rightarrow>
         bindw (std_call (Std_local_addr listener)) (\<lambda>la.
         let addr = (case la of Inr x \<Rightarrow> x | Inl e \<Rightarrow> ''<local_addr failed: '' @ e_text e @ ''>'') in
         seqw (untagged (''init-time bind OK ('' @ addr @ '')''))
         (do_call (Drop listener)))
     | Inl e \<Rightarrow> untagged (''init-time bind FAILED: '' @ e_text e))"

definition probe :: "unit prog" where
  "probe =
     bindw (Sys Swap_probed (\<lambda>a. Ret (flag_of a))) (\<lambda>probed.
     if probed then Ret ()
     else
       bindw (Sys (WSAStartup 0x0202) Ret) (\<lambda>a.
       doall
         [untagged (''WSAStartup(2.2) rc='' @ show_int (started_code a) @ '' ver='' @
                    show_version (started_version a) @ '' high='' @ show_version (started_high a)),
          probe_raw_winsock,
          probe_wsa_socket_variants,
          probe_address_resolution_split,
          init_time_bind]))"

section \<open>Helpers of the probes on demand\<close>

definition raw_listener :: "(nat \<times> u16) option prog" where
  "raw_listener =
     bindw (socket AF_INET 1 6) (\<lambda>s.
     let fail = (\<lambda>what. bindw last_error (\<lambda>err.
           untagged (''raw_listener '' @ what @ '' FAILED '' @ show_int err)));
         close_fail = (\<lambda>what. seqw (fail what) (seqw (do_call (Closesocket s)) (Ret None)))
     in
     if s = INVALID then seqw (fail ''socket'') (Ret None)
     else bindw (code_call (Bind s (sockaddr_in 0))) (\<lambda>rc.
     if rc \<noteq> 0 then close_fail ''bind''
     else bindw (code_call (Listen s 16)) (\<lambda>rc.
     if rc \<noteq> 0 then close_fail ''listen''
     else bindw (Sys (Getsockname s) (\<lambda>a. Ret (name_code a, name_bytes a))) (\<lambda>(rc, got).
     if rc \<noteq> 0 then close_fail ''getsockname''
     else Ret (Some (s, sockaddr_port got))))))"

definition drain_accepted :: "nat \<Rightarrow> unit prog" where
  "drain_accepted listener =
     bindw (accept listener) (\<lambda>acc.
     seqw (if acc \<noteq> INVALID then do_call (Closesocket acc) else Ret ())
     (do_call (Closesocket listener)))"

definition push_listener :: "nat option prog" where
  "push_listener =
     bindw raw_listener (\<lambda>r.
     case r of
       None \<Rightarrow> Ret None
     | Some (ls, port) \<Rightarrow>
         seqw (do_call (Set_push_port port)) (Spawn (Push ls) (\<lambda>t. Ret (Some t))))"

definition push_port :: "u16 prog" where
  "push_port = Sys Get_push_port (\<lambda>a. Ret (port_of a))"

definition ffi_connect :: "bool \<Rightarrow> u16 \<Rightarrow> (string + unit) prog" where
  "ffi_connect wsa port =
     bindw (if wsa then wsa_socket AF_INET 1 6 0x01 else socket AF_INET 1 6) (\<lambda>s.
     if s = INVALID then bindw last_error (\<lambda>err. Ret (Inl (''create '' @ show_int err)))
     else
       bindw (code_call (Connect s (sockaddr_in port))) (\<lambda>rc.
       bindw (if rc \<noteq> 0 then last_error else Ret 0) (\<lambda>err.
       seqw (do_call (Closesocket s))
       (Ret (if rc \<noteq> 0 then Inl (''connect wsagetlasterror='' @ show_int err) else Inr ())))))"

text \<open>How the other clients begin: create a socket and connect it, or clean up and report.\<close>

definition ffi_connected :: "u16 \<Rightarrow> (nat \<Rightarrow> (string + 'a) prog) \<Rightarrow> (string + 'a) prog" where
  "ffi_connected port k =
     bindw (socket AF_INET 1 6) (\<lambda>s.
     if s = INVALID then bindw last_error (\<lambda>err. Ret (Inl (''create '' @ show_int err)))
     else
       bindw (code_call (Connect s (sockaddr_in port))) (\<lambda>rc.
       if rc \<noteq> 0
       then bindw last_error (\<lambda>err.
              seqw (do_call (Closesocket s)) (Ret (Inl (''connect wsagetlasterror='' @ show_int err))))
       else k s))"

definition ffi_send_probe :: "u16 \<Rightarrow> (string + unit) prog" where
  "ffi_send_probe port =
     ffi_connected port (\<lambda>s.
     bindw (code_call (Send s (utf8 ''confium-probe''))) (\<lambda>sent.
     bindw (if sent < 0 then last_error else Ret 0) (\<lambda>err.
     seqw (do_call (Closesocket s))
     (Ret (if sent < 0 then Inl (''send wsagetlasterror='' @ show_int err) else Inr ())))))"

definition ffi_rcvtimeo_probe :: "u16 \<Rightarrow> (string + unit) prog" where
  "ffi_rcvtimeo_probe port =
     ffi_connected port (\<lambda>s.
     bindw (code_call (Setsockopt s 0xffff 0x1006 5000)) (\<lambda>rc.
     if rc \<noteq> 0
     then bindw last_error (\<lambda>err.
            seqw (do_call (Closesocket s)) (Ret (Inl (''setsockopt wsagetlasterror='' @ show_int err))))
     else
       bindw (code_call (Send s (utf8 ''probe-i''))) (\<lambda>sent.
       seqw (do_call (Closesocket s))
       (if sent < 0 then bindw last_error (\<lambda>err. Ret (Inl (''send wsagetlasterror='' @ show_int err)))
        else Ret (Inr ())))))"

definition FIONBIO :: int where
  "FIONBIO = - 2147195266"

definition ffi_nonblocking_idle_recv :: "u16 \<Rightarrow> (string + int) prog" where
  "ffi_nonblocking_idle_recv port =
     ffi_connected port (\<lambda>s.
     bindw (code_call (Ioctlsocket s FIONBIO 1)) (\<lambda>rc.
     if rc \<noteq> 0
     then bindw last_error (\<lambda>err.
            seqw (do_call (Closesocket s)) (Ret (Inl (''ioctlsocket wsagetlasterror='' @ show_int err))))
     else
       seqw (do_call (Sleep 200))
       (bindw (code_call (Recv s 1 False)) (\<lambda>got.
        bindw (if got < 0 then last_error else Ret 0) (\<lambda>err.
        seqw (do_call (Closesocket s))
        (Ret (if got < 0 then Inl (''recv rc='' @ show_int got @ '' wsagetlasterror='' @ show_int err)
              else Inr got)))))))"

text \<open>The resolution of \<open>recv\<close> when it is looked up at run time.\<close>

definition resolve_recv :: "bool \<Rightarrow> (string + unit) prog" where
  "resolve_recv dynamic =
     (if dynamic
      then
        bindw (Sys (GetModuleHandle ''ws2_32.dll'') (\<lambda>a. Ret (flag_of a))) (\<lambda>null.
        if null then Ret (Inl ''GetModuleHandleA(ws2_32) null'')
        else
          bindw (Sys (GetProcAddress ''recv'') (\<lambda>a. Ret (flag_of a))) (\<lambda>null.
          Ret (if null then Inl ''GetProcAddress(recv) null'' else Inr ())))
      else Ret (Inr ()))"

definition ffi_recv_probe :: "bool \<Rightarrow> (string + unit) prog" where
  "ffi_recv_probe dynamic =
     bindw (resolve_recv dynamic) (\<lambda>r.
     case r of
       Inl e \<Rightarrow> Ret (Inl e)
     | Inr _ \<Rightarrow>
         bindw push_port (\<lambda>port.
         if port = 0 then Ret (Inl ''no push listener port'')
         else
           ffi_connected port (\<lambda>s.
           bindw (code_call (Recv s 1 dynamic)) (\<lambda>n.
           bindw (if n < 0 then last_error else Ret 0) (\<lambda>err.
           seqw (do_call (Closesocket s))
           (Ret (if n < 0 then Inl (''recv wsagetlasterror='' @ show_int err) else Inr ())))))))"

section \<open>The probes on demand\<close>

text \<open>\<open>log(what, bind(..).and_then(|l| l.local_addr()))\<close>: the object is dropped inside the closure.\<close>

definition log_bind :: "string \<Rightarrow> string \<Rightarrow> call \<Rightarrow> unit prog" where
  "log_bind tag what c =
     bindw (open_std c) (\<lambda>r.
     bindw (case r of
              Inl e \<Rightarrow> Ret (Inl e)
            | Inr l \<Rightarrow> bindw (std_call (Std_local_addr l)) (\<lambda>a. seqw (do_call (Drop l)) (Ret a))) (\<lambda>r.
     case r of
       Inr s \<Rightarrow> tagged tag (what @ '' OK ('' @ s @ '')'')
     | Inl e \<Rightarrow> tagged tag (what @ '' FAILED: '' @ e_text e)))"

definition std_connect_report :: "string \<Rightarrow> string \<Rightarrow> bool \<Rightarrow> u16 \<Rightarrow> unit prog" where
  "std_connect_report tag what resolve port =
     bindw (open_std (Std_connect resolve port)) (\<lambda>r.
     seqw (report_std tag what r)
     (case r of Inr s \<Rightarrow> do_call (Drop s) | Inl _ \<Rightarrow> Ret ()))"

text \<open>\<open>match TcpStream::connect(..) { Ok(s) => .., Err(e) => FAILED }\<close>.\<close>

definition with_stream :: "string \<Rightarrow> string \<Rightarrow> bool \<Rightarrow> u16 \<Rightarrow> (nat \<Rightarrow> unit prog) \<Rightarrow> unit prog" where
  "with_stream tag what resolve port k =
     bindw (open_std (Std_connect resolve port)) (\<lambda>r.
     case r of
       Inr s \<Rightarrow> seqw (k s) (do_call (Drop s))
     | Inl e \<Rightarrow> tagged tag (what @ '' connect FAILED: '' @ e_text e))"

text \<open>\<open>if let Some((ls, port)) = raw_listener() { .. drain_accepted(ls) }\<close>.\<close>

definition with_listener :: "(u16 \<Rightarrow> unit prog) \<Rightarrow> unit prog" where
  "with_listener k =
     bindw raw_listener (\<lambda>r.
     case r of
       None \<Rightarrow> Ret ()
     | Some (ls, port) \<Rightarrow> seqw (k port) (drain_accepted ls))"

definition std_report :: "string \<Rightarrow> string \<Rightarrow> call \<Rightarrow> unit prog" where
  "std_report tag what c = bindw (std_call c) (report_std tag what)"

definition probe_connects :: "string \<Rightarrow> u16 \<Rightarrow> unit prog" where
  "probe_connects tag port =
     doall
       [bindw (ffi_connect False port) (report tag ''FFI connect[socket()]''),
        bindw (ffi_connect True port) (report tag ''FFI connect[WSASocketW]''),
        std_connect_report tag ''std connect[tuple]'' True port,
        std_connect_report tag ''std connect[SocketAddr]'' False port]"

definition probe_writes :: "string \<Rightarrow> unit prog" where
  "probe_writes tag =
     doall
       [with_listener (\<lambda>port. with_stream tag ''send-probe'' False port (\<lambda>s.
          std_report tag ''std write_all'' (Std_write_all s (utf8 ''confium-probe'')))),
        with_listener (\<lambda>port. bindw (ffi_send_probe port) (report tag ''FFI send''))]"

definition probe_timeouts :: "string \<Rightarrow> unit prog" where
  "probe_timeouts tag =
     doall
       [with_listener (\<lambda>port. with_stream tag ''probe-i'' False port (\<lambda>s.
          doall
            [std_report tag ''std set_read_timeout'' (Std_set_read_timeout s 5),
             std_report tag ''post-timeout write'' (Std_write_all s (utf8 ''probe-i'')),
             std_report tag ''post-timeout read'' (Std_read s)])),
        with_listener (\<lambda>port. bindw (ffi_rcvtimeo_probe port) (report tag ''FFI setsockopt[SO_RCVTIMEO]''))]"

definition probe_recv :: "string \<Rightarrow> bool \<Rightarrow> string \<Rightarrow> unit prog" where
  "probe_recv tag dynamic what =
     bindw push_listener (\<lambda>echo.
     bindw (ffi_recv_probe dynamic) (\<lambda>r.
     seqw (report tag what r)
     (case echo of Some h \<Rightarrow> Join h (Ret ()) | None \<Rightarrow> Ret ())))"

definition probe_read :: "string \<Rightarrow> string \<Rightarrow> (nat \<Rightarrow> unit prog) \<Rightarrow> unit prog" where
  "probe_read tag what options =
     bindw push_listener (\<lambda>echo.
     case echo of
       None \<Rightarrow> Ret ()
     | Some h \<Rightarrow>
         bindw push_port (\<lambda>port.
         seqw (with_stream tag ''probe-k'' True port (\<lambda>s.
                 seqw (options s) (std_report tag what (Std_read s))))
         (Join h (Ret ()))))"

definition probe_reads :: "string \<Rightarrow> unit prog" where
  "probe_reads tag =
     doall
       [probe_read tag ''std read[no options]'' (\<lambda>s. Ret ()),
        probe_read tag ''std read[after nodelay]'' (\<lambda>s. do_call (Std_set_nodelay s True)),
        probe_read tag ''std read[after nonblocking toggle]''
          (\<lambda>s. doall [do_call (Std_set_nonblocking s True), do_call (Std_set_nonblocking s False)])]"

definition probe_idle_std :: "string \<Rightarrow> unit prog" where
  "probe_idle_std tag =
     bindw raw_listener (\<lambda>r.
     case r of
       None \<Rightarrow> Ret ()
     | Some (ls, port) \<Rightarrow>
         Spawn (Silent_std ls) (\<lambda>silent.
         seqw (with_stream tag ''probe-l'' True port (\<lambda>s.
                 seqw (do_call (Std_set_nonblocking s True))
                 (bindw (std_call (Std_read s)) (\<lambda>r.
                  seqw (case r of
                          Inr n \<Rightarrow> tagged tag (''nonblocking idle read returned Ok('' @ n @ '')?!'')
                        | Inl e \<Rightarrow> tagged tag (''nonblocking idle read kind='' @ e_kind e @ '' raw='' @ e_raw e @
                                               '' ('' @ e_text e @ '')''))
                  (do_call (Std_set_nonblocking s False))))))
         (Join silent (Ret ()))))"

definition probe_idle_ffi :: "string \<Rightarrow> unit prog" where
  "probe_idle_ffi tag =
     bindw raw_listener (\<lambda>r.
     case r of
       None \<Rightarrow> Ret ()
     | Some (ls, port) \<Rightarrow>
         Spawn (Silent_ffi ls) (\<lambda>silent.
         bindw (ffi_nonblocking_idle_recv port) (\<lambda>r.
         seqw (case r of
                 Inr c \<Rightarrow> tagged tag (''FFI nonblocking idle recv rc='' @ show_int c @
                                      '' (0 pending, expect -1/10035)'')
               | Inl e \<Rightarrow> tagged tag (''FFI nonblocking idle recv FAILED: '' @ e))
         (Join silent (Ret ())))))"

definition probe_on_demand :: "string \<Rightarrow> unit prog" where
  "probe_on_demand tag =
     seqw (log_bind tag ''std bind[SocketAddr]'' (Std_tcp_bind False))
     (seqw (log_bind tag ''std bind[str]'' (Std_tcp_bind True))
     (seqw (log_bind tag ''std udp bind'' Std_udp_bind)
     (bindw raw_listener (\<lambda>listener.
     case listener of
       None \<Rightarrow> tagged tag ''raw listener setup FAILED''
     | Some (ls, port) \<Rightarrow>
         doall
           [probe_connects tag port,
            drain_accepted ls,
            probe_writes tag,
            probe_timeouts tag,
            probe_recv tag False ''FFI recv[static]'',
            probe_recv tag True ''FFI recv[GetProcAddress]'',
            probe_reads tag,
            probe_idle_std tag,
            probe_idle_ffi tag]))))"

section \<open>Ownership of the probes\<close>

text \<open>A program that may use the sockets \<open>H\<close> and ends owning what it owned before.\<close>

definition keeps_on :: "nat set \<Rightarrow> 'a prog \<Rightarrow> bool" where
  "keeps_on H p \<longleftrightarrow> (\<forall>own n Q. H \<subseteq> own \<and> (\<forall>x. Q x own n) \<longrightarrow> wp p Q own n)"

lemma keeps_onI [intro?]:
  "(\<And>own n Q. H \<subseteq> own \<Longrightarrow> (\<And>x. Q x own n) \<Longrightarrow> wp p Q own n) \<Longrightarrow> keeps_on H p"
  by (simp add: keeps_on_def)

lemma wp_keeps: "keeps_on H p \<Longrightarrow> H \<subseteq> own \<Longrightarrow> (\<And>x. Q x own n) \<Longrightarrow> wp p Q own n"
  by (simp add: keeps_on_def)

named_theorems keeps "programs that end owning what they owned before"

lemma keeps_weaken: "keeps_on {} p \<Longrightarrow> keeps_on H p"
  by (simp add: keeps_on_def)

lemma keeps_Ret [keeps]: "keeps_on H (Ret x)"
  by (simp add: keeps_on_def)

lemma keeps_Join [keeps]: "keeps_on H p \<Longrightarrow> keeps_on H (Join t p)"
  by (simp add: keeps_on_def)

lemma keeps_bindw [keeps]: "keeps_on H p \<Longrightarrow> (\<And>x. keeps_on H (f x)) \<Longrightarrow> keeps_on H (bindw p f)"
  by (simp add: keeps_on_def)

lemma keeps_seqw [keeps]: "keeps_on H p \<Longrightarrow> keeps_on H q \<Longrightarrow> keeps_on H (seqw p q)"
  by (simp add: keeps_on_def)

lemma keeps_doall [keeps]: "list_all (keeps_on H) ps \<Longrightarrow> keeps_on H (doall ps)"
  by (induction ps) (simp_all add: keeps)

text \<open>A call that neither opens nor closes anything.\<close>

fun quiet :: "call \<Rightarrow> bool" where
  "quiet (Socket _ _ _) = False"
| "quiet (WSASocketW _ _ _ _) = False"
| "quiet (Accept _) = False"
| "quiet (Std_tcp_bind _) = False"
| "quiet Std_udp_bind = False"
| "quiet (Std_connect _ _) = False"
| "quiet (Closesocket _) = False"
| "quiet (Drop _) = False"
| "quiet _ = True"

lemma quiet_keeps: "quiet c \<Longrightarrow> typed c a \<Longrightarrow> own - closes c \<union> opens a = own"
  by (cases c) auto

lemma keeps_Sys [keeps]: "quiet c \<Longrightarrow> uses c \<subseteq> H \<Longrightarrow> (\<And>a. keeps_on H (k a)) \<Longrightarrow> keeps_on H (Sys c k)"
  by (auto simp: keeps_on_def quiet_keeps)

lemma keeps_prints [keeps]:
  "keeps_on H (untagged m)" "keeps_on H (tagged tag m)" "keeps_on H (report tag what r)"
  "keeps_on H (report_std tag what r')"
  by (auto simp: untagged_def tagged_def report_def report_std_def intro!: keeps split: sum.split)

lemma keeps_if [keeps]: "keeps_on H p \<Longrightarrow> keeps_on H q \<Longrightarrow> keeps_on H (if b then p else q)"
  by simp

text \<open>A socket or object that is opened, used and closed.\<close>

lemma wp_opened:
  assumes "\<And>h. h \<notin> own \<Longrightarrow> wp (k (Inr h)) Q (insert h own) n" "\<And>e. wp (k (Inl e)) Q own n"
    and "c = Std_tcp_bind r \<or> c = Std_udp_bind \<or> c = Std_connect r p"
  shows "wp (bindw (open_std c) k) Q own n"
proof -
  have "wp (k x) Q (own \<union> opens (Opened x)) n" if "opens (Opened x) \<inter> own = {}" for x
    using that assms(1,2) by (cases x) auto
  then show ?thesis using assms(3) by (elim disjE) auto
qed

lemma wp_if [simp]: "wp (if b then p else q) Q own n = ((b \<longrightarrow> wp p Q own n) \<and> (\<not> b \<longrightarrow> wp q Q own n))"
  by simp

lemmas prints = untagged_def tagged_def report_def report_std_def

subsection \<open>At load time\<close>

lemma keeps_probe_raw_winsock [keeps]: "keeps_on {} probe_raw_winsock"
  unfolding probe_raw_winsock_def by (auto simp: keeps_on_def prints)

lemma keeps_probe_variant [keeps]: "keeps_on {} (probe_variant v)"
  unfolding probe_variant_def Let_def case_prod_unfold by (auto simp: keeps_on_def prints)

lemma keeps_probe_wsa_socket_variants [keeps]: "keeps_on {} probe_wsa_socket_variants"
  unfolding probe_wsa_socket_variants_def by (intro keeps_doall) (simp add: list_all_iff keeps)

lemma keeps_probe_std_bind [keeps]: "keeps_on {} (probe_std_bind r what)"
  unfolding probe_std_bind_def by (auto simp: keeps_on_def prints split: sum.split)

lemma keeps_probe_listener_client: "keeps_on {s} (probe_listener_client s port)"
  unfolding probe_listener_client_def by (auto simp: keeps_on_def prints split: sum.split)

lemma wp_probe_listener_client:
  "s \<in> own \<Longrightarrow> (\<And>x. Q x own n) \<Longrightarrow> wp (probe_listener_client s port) Q own n"
  by (rule wp_keeps [OF keeps_probe_listener_client]) simp_all

lemma keeps_probe_address_resolution_split [keeps]: "keeps_on {} probe_address_resolution_split"
  unfolding probe_address_resolution_split_def
  by (intro keeps_doall)
    (auto simp: keeps_on_def prints Let_def intro!: keeps_probe_std_bind [unfolded keeps_on_def, rule_format]
      wp_probe_listener_client)

lemma keeps_init_time_bind [keeps]: "keeps_on {} init_time_bind"
  unfolding init_time_bind_def by (auto simp: keeps_on_def prints Let_def split: sum.split)

lemma keeps_probe: "keeps_on {} probe"
  unfolding probe_def by (intro keeps) (simp_all add: keeps)

subsection \<open>On demand\<close>

lemma wp_raw_listener:
  assumes "Q None own n" "\<And>s port. s \<notin> own \<Longrightarrow> Q (Some (s, port)) (insert s own) n"
  shows "wp raw_listener Q own n"
  unfolding raw_listener_def Let_def using assms by (auto simp: prints)

lemma wp_drain_accepted: "s \<in> own \<Longrightarrow> Q () (own - {s}) n \<Longrightarrow> wp (drain_accepted s) Q own n"
  unfolding drain_accepted_def by (auto simp: insert_Diff_if)

lemma keeps_push_listener [keeps]: "keeps_on {} push_listener"
  unfolding push_listener_def by (auto simp: keeps_on_def intro!: wp_raw_listener)

lemma keeps_push_port [keeps]: "keeps_on {} push_port"
  unfolding push_port_def by (simp add: keeps)

lemma wp_ffi_connected:
  assumes "\<And>x. Q x own n" "\<And>s. s \<notin> own \<Longrightarrow> wp (k s) Q (insert s own) n"
  shows "wp (ffi_connected port k) Q own n"
  unfolding ffi_connected_def using assms by auto

lemma keeps_clients [keeps]:
  "keeps_on {} (ffi_connect wsa port)" "keeps_on {} (ffi_send_probe port)"
  "keeps_on {} (ffi_rcvtimeo_probe port)" "keeps_on {} (ffi_nonblocking_idle_recv port)"
  unfolding ffi_connect_def ffi_send_probe_def ffi_rcvtimeo_probe_def ffi_nonblocking_idle_recv_def
  by (auto simp: keeps_on_def intro!: wp_ffi_connected)

lemma keeps_resolve_recv [keeps]: "keeps_on {} (resolve_recv dynamic)"
  unfolding resolve_recv_def by (auto simp: keeps_on_def)

lemma keeps_ffi_recv_probe [keeps]: "keeps_on {} (ffi_recv_probe dynamic)"
proof -
  have "keeps_on {} (ffi_connected port (\<lambda>s.
      bindw (code_call (Recv s 1 dynamic)) (\<lambda>n.
      bindw (if n < 0 then last_error else Ret 0) (\<lambda>err.
      seqw (do_call (Closesocket s))
      (Ret (if n < 0 then Inl (''recv wsagetlasterror='' @ show_int err) else Inr ()))))))" for port
    by (auto simp: keeps_on_def intro!: wp_ffi_connected)
  then show ?thesis
    unfolding ffi_recv_probe_def by (auto simp del: bindw.simps split: sum.split intro!: keeps)
qed

lemma keeps_log_bind [keeps]: "keeps_on {} (log_bind tag what (Std_tcp_bind r))" "keeps_on {} (log_bind tag what Std_udp_bind)"
  unfolding log_bind_def by (auto simp: keeps_on_def prints split: sum.split)

lemma keeps_std_connect_report [keeps]: "keeps_on {} (std_connect_report tag what r port)"
  unfolding std_connect_report_def by (auto simp: keeps_on_def prints split: sum.split)

lemma keeps_with_stream [keeps]:
  assumes "\<And>s. keeps_on {s} (k s)"
  shows "keeps_on {} (with_stream tag what r port k)"
proof
  fix own n and Q :: "unit \<Rightarrow> nat set \<Rightarrow> nat \<Rightarrow> bool"
  assume Q: "\<And>x. Q x own n"
  have "wp (k s) (\<lambda>_. wp (do_call (Drop s)) Q) (insert s own) n" if "s \<notin> own" for s
    using that Q by (intro wp_keeps [OF assms]) auto
  then show "wp (with_stream tag what r port k) Q own n"
    unfolding with_stream_def using Q by (intro wp_opened [where r = r and p = port]) (auto simp: prints)
qed

lemma keeps_with_listener [keeps]:
  assumes "\<And>port. keeps_on {} (k port)"
  shows "keeps_on {} (with_listener k)"
proof
  fix own n and Q :: "unit \<Rightarrow> nat set \<Rightarrow> nat \<Rightarrow> bool"
  assume "\<And>x. Q x own n"
  then show "wp (with_listener k) Q own n"
    unfolding with_listener_def
    by (auto intro!: wp_raw_listener wp_keeps [OF assms] wp_drain_accepted)
qed

lemma keeps_std_report [keeps]:
  "quiet c \<Longrightarrow> uses c \<subseteq> H \<Longrightarrow> keeps_on H (std_report tag what c)"
  unfolding std_report_def by (simp add: keeps)

lemma keeps_sections [keeps]:
  "keeps_on {} (probe_connects tag port)" "keeps_on {} (probe_writes tag)" "keeps_on {} (probe_timeouts tag)"
  unfolding probe_connects_def probe_writes_def probe_timeouts_def by (intro keeps; simp add: keeps)+

lemma keeps_probe_recv [keeps]: "keeps_on {} (probe_recv tag dynamic what)"
  unfolding probe_recv_def by (intro keeps) (simp add: keeps split: option.split)

lemma keeps_probe_read:
  assumes "\<And>s. keeps_on {s} (options s)"
  shows "keeps_on {} (probe_read tag what options)"
  unfolding probe_read_def
  by (intro keeps_bindw keeps_push_listener) (auto split: option.split intro!: keeps assms)

lemma keeps_probe_reads [keeps]: "keeps_on {} (probe_reads tag)"
  unfolding probe_reads_def by (intro keeps_doall) (simp add: keeps keeps_probe_read)

lemma keeps_probe_idle_ffi [keeps]: "keeps_on {} (probe_idle_ffi tag)"
proof -
  have "keeps_on {} (bindw (ffi_nonblocking_idle_recv port) (\<lambda>r.
      seqw (case r of
              Inr c \<Rightarrow> tagged tag (''FFI nonblocking idle recv rc='' @ show_int c @ '' (0 pending, expect -1/10035)'')
            | Inl e \<Rightarrow> tagged tag (''FFI nonblocking idle recv FAILED: '' @ e))
      (Join t (Ret ()))))" for port t
    by (intro keeps) (auto simp: keeps split: sum.split)
  then show ?thesis
    unfolding probe_idle_ffi_def by (auto simp: keeps_on_def intro!: wp_raw_listener)
qed

text \<open>The probe that leaves the accepted socket of its silent server behind.\<close>

lemma wp_probe_idle_std:
  assumes "1 \<le> n" "\<And>m. n - 1 \<le> m \<Longrightarrow> m \<le> n \<Longrightarrow> Q () own m"
  shows "wp (probe_idle_std tag) Q own n"
proof -
  have stream: "keeps_on {} (with_stream tag ''probe-l'' True port (\<lambda>s.
      seqw (do_call (Std_set_nonblocking s True))
      (bindw (std_call (Std_read s)) (\<lambda>r.
       seqw (case r of
               Inr n \<Rightarrow> tagged tag (''nonblocking idle read returned Ok('' @ n @ '')?!'')
             | Inl e \<Rightarrow> tagged tag (''nonblocking idle read kind='' @ e_kind e @ '' raw='' @ e_raw e @
                                    '' ('' @ e_text e @ '')''))
       (do_call (Std_set_nonblocking s False))))))" for port
    by (intro keeps_with_stream keeps) (auto simp: keeps split: sum.split)
  show ?thesis
    unfolding probe_idle_std_def wp_bindw
    by (rule wp_raw_listener) (use assms in \<open>auto simp del: bindw.simps intro!: wp_keeps [OF stream]\<close>)
qed

lemma wp_probe_on_demand: "wp (probe_on_demand tag) settled {} 1"
proof -
  have idle: "wp (probe_idle_std tag) (\<lambda>_. wp (seqw (probe_idle_ffi tag) (Ret ())) settled) {} 1"
    by (rule wp_probe_idle_std) (auto simp: settled_def intro!: wp_keeps [OF keeps_probe_idle_ffi])
  have rest: "wp (doall [probe_connects tag port, drain_accepted ls, probe_writes tag, probe_timeouts tag,
      probe_recv tag False ''FFI recv[static]'', probe_recv tag True ''FFI recv[GetProcAddress]'', probe_reads tag,
      probe_idle_std tag, probe_idle_ffi tag]) settled {ls} 1" for ls port
    using idle
    by (simp add: wp_keeps [OF keeps_sections(1)] wp_drain_accepted wp_keeps [OF keeps_sections(2)]
        wp_keeps [OF keeps_sections(3)] wp_keeps [OF keeps_probe_recv] wp_keeps [OF keeps_probe_reads])
  have "wp raw_listener (\<lambda>listener. wp (case listener of
       None \<Rightarrow> tagged tag ''raw listener setup FAILED''
     | Some (ls, port) \<Rightarrow>
         doall [probe_connects tag port, drain_accepted ls, probe_writes tag, probe_timeouts tag,
            probe_recv tag False ''FFI recv[static]'', probe_recv tag True ''FFI recv[GetProcAddress]'',
            probe_reads tag, probe_idle_std tag, probe_idle_ffi tag]) settled) {} 1"
    by (rule wp_raw_listener) (simp_all add: rest tagged_def settled_def del: doall.simps One_nat_def)
  then show ?thesis
    unfolding probe_on_demand_def
    by (simp add: wp_keeps [OF keeps_log_bind(1)] wp_keeps [OF keeps_log_bind(2)] del: doall.simps One_nat_def)
qed

section \<open>Properties\<close>

text \<open>C12: whatever the operating system answers, the diagnostics at load time only work on sockets they have
  opened themselves and not yet closed, and when they are done exactly the sockets that were open before are
  open.\<close>

theorem load_probe_releases_sockets:
  assumes "step\<^sup>*\<^sup>* (start w probe) c"
  shows "(\<forall>i < cf_count c. needs (cf_threads c i) \<subseteq> so_open (cf_sockets c) - so_open w) \<and>
    (finished c \<longrightarrow> so_open (cf_sockets c) = so_open w)"
proof -
  have "wp probe settled {} 0" by (rule wp_keeps [OF keeps_probe]) (simp_all add: settled_def)
  then obtain ow bud where own: "ownership (so_open w) 0 c ow bud"
    using steps_ownership [OF assms] by blast
  then show ?thesis using ownership_safe [OF own] ownership_finished [OF own] by auto
qed

text \<open>C11: in every interleaving of the diagnostics on demand with the servers they spawn, and whatever the
  operating system answers, every call is on a socket that the caller opened and nobody closed, no socket of
  the host is closed, and at the end at most one more socket is open than before.\<close>

theorem demand_probe_releases_sockets:
  assumes "step\<^sup>*\<^sup>* (start w (probe_on_demand tag)) c"
  shows "(\<forall>i < cf_count c. needs (cf_threads c i) \<subseteq> so_open (cf_sockets c) - so_open w) \<and>
    (finished c \<longrightarrow> so_open w \<subseteq> so_open (cf_sockets c) \<and> finite (so_open (cf_sockets c) - so_open w) \<and>
       card (so_open (cf_sockets c) - so_open w) \<le> 1)"
proof -
  obtain ow bud where own: "ownership (so_open w) 1 c ow bud"
    using steps_ownership [OF assms wp_probe_on_demand] by blast
  then show ?thesis using ownership_safe [OF own] ownership_finished [OF own] by auto
qed

definition quiet_host :: sockets where
  "quiet_host = \<lparr>so_open = {}, so_bound = (\<lambda>_. None), so_backlog = (\<lambda>_. 0), so_probed = False,
     so_push_port = 0, so_log = []\<rparr>"

definition refused :: io_error where
  "refused = \<lparr>e_text = ''refused'', e_kind = ''ConnectionRefused'', e_raw = ''Some(10061)''\<rparr>"

text \<open>The second load finds the flag set.\<close>

definition second_load :: sockets where
  "second_load = quiet_host\<lparr>so_open := {7}, so_probed := True\<rparr>"

theorem load_probe_releases_sockets_witness:
  "\<exists>c. step\<^sup>*\<^sup>* (start second_load probe) c \<and> finished c \<and> so_open (cf_sockets c) = {7}"
proof -
  let ?c = "the (run_sched [(0, Flag True)] (start second_load probe))"
  have "run_sched [(0, Flag True)] (start second_load probe) = Some ?c \<and> finished ?c"
    by (simp add: probe_def start_def second_load_def allowed_def quiet_host_def effect_def finished_def del: answer_kinds)
  then have c: "step\<^sup>*\<^sup>* (start second_load probe) ?c" "finished ?c" using run_sched_steps by blast+
  moreover have "so_open (cf_sockets ?c) = {7}"
    using load_probe_releases_sockets [OF c(1)] c(2) by (simp add: second_load_def)
  ultimately show ?thesis by blast
qed

definition no_network :: "(nat \<times> answer) list" where
  "no_network =
     [(0, Opened (Inl refused)), (0, Done), (0, Opened (Inl refused)), (0, Done), (0, Opened (Inl refused)), (0, Done),
      (0, Handle INVALID), (0, Code 10038), (0, Done), (0, Done)]"

theorem demand_probe_releases_sockets_witness:
  "\<exists>c. step\<^sup>*\<^sup>* (start quiet_host (probe_on_demand ''t'')) c \<and> finished c \<and> card (so_open (cf_sockets c)) \<le> 1"
proof -
  let ?c = "the (run_sched no_network (start quiet_host (probe_on_demand ''t'')))"
  have "run_sched no_network (start quiet_host (probe_on_demand ''t'')) = Some ?c \<and> finished ?c"
    by (simp add: no_network_def probe_on_demand_def log_bind_def raw_listener_def Let_def seqw_def prints start_def
        quiet_host_def allowed_def effect_def finished_def del: answer_kinds)
  then have c: "step\<^sup>*\<^sup>* (start quiet_host (probe_on_demand ''t'')) ?c" "finished ?c" using run_sched_steps by blast+
  moreover have "card (so_open (cf_sockets ?c)) \<le> 1"
    using demand_probe_releases_sockets [OF c(1)] c(2) by (simp add: quiet_host_def)
  ultimately show ?thesis by blast
qed

text \<open>The port a client connects to is the port the listener's name gave.\<close>

lemma sockaddr_port_in: "sockaddr_port (sockaddr_in port) = port"
proof -
  have "unat port < 65536" by (rule order.strict_trans2 [OF unsigned_less]) simp
  then have "unat (word_of_nat (unat port div 256) :: u8) = unat port div 256"
    "unat (word_of_nat (unat port mod 256) :: u8) = unat port mod 256"
    by (simp_all add: unat_of_nat)
  then show ?thesis
    by (simp add: sockaddr_port_def sockaddr_in_def to_be_def byte_at_def from_be_def)
qed



text \<open>While the client has given up and the server waits for it, the only way on is that \<open>accept\<close> fails.\<close>

lemma waiting_push_server:
  assumes "cf_count c = 2" "cf_threads c 0 = Join 1 p" "cf_threads c 1 = push_server ls"
    and "so_bound (cf_sockets c) ls = Some port" "so_backlog (cf_sockets c) port = 0"
  shows "{c'. step c c'} = {c\<lparr>cf_threads := (cf_threads c)(1 := do_call (Closesocket ls))\<rparr>}"
proof -
  have "push_server ls = Sys (Accept ls) (\<lambda>a.
      seqw (if handle_of a \<noteq> INVALID
            then doall [do_call (Send (handle_of a) (utf8 ''x'')), do_call (Closesocket (handle_of a))] else Ret ())
      (do_call (Closesocket ls)))" (is "_ = Sys _ ?k")
    by (simp add: push_server_def)
  with assms(3) have server: "cf_threads c 1 = Sys (Accept ls) ?k" by simp
  have acc: "allowed (cf_sockets c) (Accept ls) a \<longleftrightarrow> a = Handle INVALID" for a
    using assms(4,5) by (auto simp: allowed_def)
  have none: "effect (Accept ls) (Handle INVALID) w = w" for w by (simp add: effect_def Let_def)
  have k: "?k (Handle INVALID) = do_call (Closesocket ls)" by (simp add: seqw_def)
  have "step c c' \<longleftrightarrow> c' = c\<lparr>cf_threads := (cf_threads c)(1 := do_call (Closesocket ls))\<rparr>" for c'
  proof
    assume "step c c'"
    then show "c' = c\<lparr>cf_threads := (cf_threads c)(1 := do_call (Closesocket ls))\<rparr>"
    proof cases
      case (sys i cl k a)
      then have "i = 1" using assms(1,2) by (cases i) (auto simp: less_Suc_eq numeral_2_eq_2)
      then show ?thesis using sys server acc none by (auto simp: k [simplified])
    next
      case (spawn i b k)
      then show ?thesis using assms(1,2) server by (cases i) (auto simp: less_Suc_eq numeral_2_eq_2)
    next
      case (join i t q)
      then show ?thesis using assms(1,2) server by (cases i) (auto simp: less_Suc_eq numeral_2_eq_2)
    qed
  next
    assume c': "c' = c\<lparr>cf_threads := (cf_threads c)(1 := do_call (Closesocket ls))\<rparr>"
    have "step c (c\<lparr>cf_sockets := effect (Accept ls) (Handle INVALID) (cf_sockets c),
        cf_threads := (cf_threads c)(1 := ?k (Handle INVALID))\<rparr>)"
      using assms(1) server acc by (intro step.sys [of 1]) simp_all
    then show "step c c'" unfolding c' none k by simp
  qed
  then show ?thesis by auto
qed

definition recv_not_found :: "(nat \<times> answer) list" where
  "recv_not_found =
     [(0, Handle 4), (0, Code 0), (0, Code 0), (0, Name 0 (sockaddr_in 5)), (0, Done), (0, Done), (0, Flag True), (0, Done)]"

text \<open>C17: the receive probe can hang the process: when the client gives up before it connects, the main
  thread joins a server that waits in \<open>accept\<close> for a connection nobody will make, and the only possible step
  of the whole system is that \<open>accept\<close> itself fails.\<close>

theorem recv_probe_hangs:
  "\<exists>c. step\<^sup>*\<^sup>* (start quiet_host (probe_recv tag True what)) c \<and> cf_threads c 0 = Join 1 (Ret ()) \<and>
     cf_threads c 1 = push_server 4 \<and>
     {c'. step c c'} = {c\<lparr>cf_threads := (cf_threads c)(1 := do_call (Closesocket 4))\<rparr>}"
proof -
  let ?c = "the (run_sched recv_not_found (start quiet_host (probe_recv tag True what)))"
  have inv: "4 \<noteq> INVALID" by (simp add: INVALID_def)
  have run: "run_sched recv_not_found (start quiet_host (probe_recv tag True what)) = Some ?c \<and>
      cf_count ?c = 2 \<and> cf_threads ?c 0 = Join 1 (Ret ()) \<and> cf_threads ?c 1 = push_server 4 \<and>
      so_bound (cf_sockets ?c) 4 = Some 5 \<and> so_backlog (cf_sockets ?c) 5 = 0"
    by (simp add: recv_not_found_def probe_recv_def push_listener_def raw_listener_def ffi_recv_probe_def
        resolve_recv_def Let_def seqw_def prints start_def quiet_host_def allowed_def effect_def sockaddr_port_in inv
        numeral_2_eq_2 del: answer_kinds)
  then have "step\<^sup>*\<^sup>* (start quiet_host (probe_recv tag True what)) ?c" using run_sched_steps by blast
  moreover have "{c'. step ?c c'} = {?c\<lparr>cf_threads := (cf_threads ?c)(1 := do_call (Closesocket 4))\<rparr>}"
    using run by (intro waiting_push_server) auto
  ultimately show ?thesis using run by blast
qed

end
