(* ===== verification/Registry.thy ===== *)
theory Registry
  imports Ruby_Host
begin

text \<open>
  Declaring modules, classes and methods to Ruby: the magnus calls the \<open>init\<close> functions of
  \<open>ext/confium_native/src\<close> make, and what the Ruby VM holds when a list of them has run. The
  lists themselves are in the theory \<open>Extension\<close>.

  A \<open>decl\<close> is one call of the magnus API on a module or class, named by its constant path
  (\<open>cpath\<close>; the empty path is \<open>Object\<close>). Each \<open>init\<close> function is the list of the calls it makes;
  \<open>run_decls\<close> makes them in order and stops at the first error, as the \<open>?\<close> after each call does.
  \<open>Const_set_ignored\<close> is a \<open>const_set\<close> whose result the code discards (\<open>let _ = ...\<close>).

  The VM is not part of the sources: the locale \<open>ruby_registry\<close> has the operation \<open>invoke\<close>, the
  \<open>view\<close> of the constant, method and instance-variable tables, and what Ruby documents of the
  calls (a definition reopens a module or class of the same kind and raises TypeError on
  anything else). \<open>table_invoke\<close> is a VM that has nothing but these tables; it interprets the
  locale, and the witnesses run on it.

  \<open>orderly\<close> is the assumption on the VM before loading: nothing frozen, no alias standing at a
  path the extension declares, no module at a constant it sets. \<open>run_decls_orderly\<close> then decides
  the outcome of every script that passes the static check \<open>well_scoped\<close>.
\<close>

section \<open>Declarations\<close>

type_synonym cpath = "string list"

datatype const = A_module | A_class string | A_value rvalue | A_ref cpath

datatype decl =
    Define_module cpath string
  | Define_class cpath string
  | Define_error cpath string
  | Define_method cpath string string int
  | Define_singleton_method cpath string string int
  | Define_module_function cpath string string int
  | Const_set cpath string const
  | Ivar_set cpath string rvalue
  | Const_set_ignored cpath string const

type_synonym mkey = "cpath \<times> bool \<times> string"

record tables =
  const_at :: "cpath \<rightharpoonup> const"
  method_at :: "mkey \<rightharpoonup> string \<times> int"
  ivar_at :: "cpath \<times> string \<rightharpoonup> rvalue"
  frozen_at :: "cpath \<Rightarrow> bool"

fun receiver :: "decl \<Rightarrow> cpath" where
  "receiver (Define_module p n) = p"
| "receiver (Define_class p n) = p"
| "receiver (Define_error p n) = p"
| "receiver (Define_method p n f a) = p"
| "receiver (Define_singleton_method p n f a) = p"
| "receiver (Define_module_function p n f a) = p"
| "receiver (Const_set p n c) = p"
| "receiver (Ivar_set p n v) = p"
| "receiver (Const_set_ignored p n c) = p"

text \<open>
  The path and kind of a module or class a call declares, the constants it sets, and the methods
  it binds: the flag of a method key is True for a singleton method. A module function is a
  singleton method and a private instance method.
\<close>

fun declares :: "decl \<Rightarrow> (cpath \<times> const) list" where
  "declares (Define_module p n) = [(p @ [n], A_module)]"
| "declares (Define_class p n) = [(p @ [n], A_class ''Object'')]"
| "declares (Define_error p n) = [(p @ [n], A_class ''StandardError'')]"
| "declares _ = []"

fun assigns :: "decl \<Rightarrow> (cpath \<times> const) list" where
  "assigns (Const_set p n c) = [(p @ [n], c)]"
| "assigns (Const_set_ignored p n c) = [(p @ [n], c)]"
| "assigns _ = []"

fun binds :: "decl \<Rightarrow> (mkey \<times> string \<times> int) list" where
  "binds (Define_method p n f a) = [((p, False, n), (f, a))]"
| "binds (Define_singleton_method p n f a) = [((p, True, n), (f, a))]"
| "binds (Define_module_function p n f a) = [((p, True, n), (f, a)), ((p, False, n), (f, a))]"
| "binds _ = []"

fun stores :: "decl \<Rightarrow> ((cpath \<times> string) \<times> rvalue) list" where
  "stores (Ivar_set p n v) = [((p, n), v)]"
| "stores _ = []"

definition update_tables :: "decl \<Rightarrow> tables \<Rightarrow> tables" where
  "update_tables d v =
     v\<lparr>const_at := const_at v ++ map_of (declares d @ assigns d),
       method_at := method_at v ++ map_of (binds d),
       ivar_at := ivar_at v ++ map_of (stores d)\<rparr>"

section \<open>What Ruby promises of a call\<close>

fun is_space :: "const option \<Rightarrow> bool" where
  "is_space (Some A_module) = True"
| "is_space (Some (A_class _)) = True"
| "is_space _ = False"

text \<open>
  A call is accepted when its receiver is a module or class that is not frozen, the path it
  declares is free or holds what it declares, and the constant it sets does not hold a module.
  A declaration clashes with a constant of another kind at its path.
\<close>

definition accepts :: "decl \<Rightarrow> tables \<Rightarrow> bool" where
  "accepts d v \<longleftrightarrow>
     (receiver d = [] \<or> is_space (const_at v (receiver d))) \<and> \<not> frozen_at v (receiver d) \<and>
     (\<forall>(q, k) \<in> set (declares d). const_at v q = None \<or> const_at v q = Some k) \<and>
     (\<forall>(q, c) \<in> set (assigns d). \<not> is_space (const_at v q))"

fun is_alias :: "const option \<Rightarrow> bool" where
  "is_alias (Some (A_ref _)) = True"
| "is_alias _ = False"

definition clashes :: "decl \<Rightarrow> tables \<Rightarrow> bool" where
  "clashes d v \<longleftrightarrow>
     (\<exists>(q, k) \<in> set (declares d). const_at v q \<noteq> None \<and> const_at v q \<noteq> Some k \<and> \<not> is_alias (const_at v q))"

text \<open>One statement of an \<open>init\<close> function, and all of them.\<close>

fun run_decl :: "(decl \<Rightarrow> 's \<Rightarrow> 's res) \<Rightarrow> decl \<Rightarrow> 's \<Rightarrow> 's res" where
  "run_decl invoke (Const_set_ignored p n c) s =
     (case invoke (Const_set p n c) s of Inl _ \<Rightarrow> Inr s | Inr s' \<Rightarrow> Inr s')"
| "run_decl invoke d s = invoke d s"

fun run_decls :: "(decl \<Rightarrow> 's \<Rightarrow> 's res) \<Rightarrow> decl list \<Rightarrow> 's \<Rightarrow> 's res" where
  "run_decls invoke [] s = Inr s"
| "run_decls invoke (d # ds) s =
     (case run_decl invoke d s of Inl e \<Rightarrow> Inl e | Inr s' \<Rightarrow> run_decls invoke ds s')"

section \<open>Static checks of a script\<close>

definition declared :: "decl list \<Rightarrow> (cpath \<times> const) list" where
  "declared ds = concat (map declares ds)"

definition assigned :: "decl list \<Rightarrow> (cpath \<times> const) list" where
  "assigned ds = concat (map assigns ds)"

definition bound :: "decl list \<Rightarrow> (mkey \<times> string \<times> int) list" where
  "bound ds = concat (map binds ds)"

text \<open>Every receiver is \<open>Object\<close> or a module or class an earlier statement has declared.\<close>

fun scoped :: "cpath list \<Rightarrow> decl list \<Rightarrow> bool" where
  "scoped K [] = True"
| "scoped K (d # ds) =
     ((receiver d = [] \<or> receiver d \<in> set K) \<and> scoped (map fst (declares d) @ K) ds)"

text \<open>No path is declared with two kinds, and no constant that is set is a module or declared.\<close>

definition one_kind :: "decl list \<Rightarrow> bool" where
  "one_kind ds \<longleftrightarrow>
     (\<forall>(q, k) \<in> set (declared ds). map_of (declared ds) q = Some k) \<and>
     (\<forall>(q, c) \<in> set (assigned ds). map_of (declared ds) q = None \<and> \<not> is_space (Some c))"

definition well_scoped :: "decl list \<Rightarrow> bool" where
  "well_scoped ds \<longleftrightarrow> scoped [] ds \<and> one_kind ds"

section \<open>The tables before loading\<close>

definition orderly :: "decl list \<Rightarrow> tables \<Rightarrow> bool" where
  "orderly ds v \<longleftrightarrow>
     (\<forall>d \<in> set ds. \<not> frozen_at v (receiver d)) \<and>
     (\<forall>(q, k) \<in> set (declared ds). \<not> is_alias (const_at v q)) \<and>
     (\<forall>(q, c) \<in> set (assigned ds). \<not> is_space (const_at v q))"

definition compatible :: "decl list \<Rightarrow> tables \<Rightarrow> bool" where
  "compatible ds v \<longleftrightarrow>
     (\<forall>(q, k) \<in> set (declared ds). const_at v q = None \<or> const_at v q = Some k)"

lemma update_tables_sel [simp]:
  "const_at (update_tables d v) = const_at v ++ map_of (declares d @ assigns d)"
  "method_at (update_tables d v) = method_at v ++ map_of (binds d)"
  "ivar_at (update_tables d v) = ivar_at v ++ map_of (stores d)"
  "frozen_at (update_tables d v) = frozen_at v"
  by (simp_all add: update_tables_def)

text \<open>The same predicates with the pairs taken apart, for the proofs.\<close>

lemma clashes_iff:
  "clashes d v \<longleftrightarrow>
     (\<exists>q k. (q, k) \<in> set (declares d) \<and> const_at v q \<noteq> None \<and> const_at v q \<noteq> Some k \<and> \<not> is_alias (const_at v q))"
  by (force simp: clashes_def)

lemma accepts_iff:
  "accepts d v \<longleftrightarrow>
     (receiver d = [] \<or> is_space (const_at v (receiver d))) \<and> \<not> frozen_at v (receiver d) \<and>
     (\<forall>q k. (q, k) \<in> set (declares d) \<longrightarrow> const_at v q = None \<or> const_at v q = Some k) \<and>
     (\<forall>q c. (q, c) \<in> set (assigns d) \<longrightarrow> \<not> is_space (const_at v q))"
  by (force simp: accepts_def)

lemma compatible_iff:
  "compatible ds v \<longleftrightarrow> (\<forall>q k. (q, k) \<in> set (declared ds) \<longrightarrow> const_at v q = None \<or> const_at v q = Some k)"
  by (force simp: compatible_def)

lemma declares_cases [case_names none one]:
  assumes "declares d = [] \<Longrightarrow> P"
    and "\<And>q k. declares d = [(q, k)] \<Longrightarrow> assigns d = [] \<Longrightarrow> is_space (Some k) \<Longrightarrow> P"
  shows P
  using assms by (cases d) auto

lemma declared_Cons [simp]: "declared (d # ds) = declares d @ declared ds"
  by (simp add: declared_def)

lemma assigned_Cons [simp]: "assigned (d # ds) = assigns d @ assigned ds"
  by (simp add: assigned_def)

lemma declared_Nil [simp]: "declared [] = []" "assigned [] = []"
  by (simp_all add: declared_def assigned_def)

lemma declares_in_declared: "d \<in> set ds \<Longrightarrow> x \<in> set (declares d) \<Longrightarrow> x \<in> set (declared ds)"
  by (auto simp: declared_def)

lemma declares_paths: "d \<in> set ds \<Longrightarrow> fst ` set (declares d) \<subseteq> fst ` set (declared ds)"
  using declares_in_declared by (intro image_mono) auto

lemma assigns_in_assigned: "d \<in> set ds \<Longrightarrow> x \<in> set (assigns d) \<Longrightarrow> x \<in> set (assigned ds)"
  by (auto simp: assigned_def)

lemma not_alias_space: "is_space c \<Longrightarrow> \<not> is_alias c"
  by (cases c rule: is_space.cases) auto

section \<open>One statement of a well-scoped script\<close>

definition knows :: "cpath list \<Rightarrow> tables \<Rightarrow> bool" where
  "knows K v \<longleftrightarrow> (\<forall>q \<in> set K. is_space (const_at v q))"

lemma one_kindD:
  assumes "one_kind W"
  shows "(q, k) \<in> set (declared W) \<Longrightarrow> map_of (declared W) q = Some k"
    and "(q, c) \<in> set (assigned W) \<Longrightarrow> map_of (declared W) q = None"
    and "(q, c) \<in> set (assigned W) \<Longrightarrow> \<not> is_space (Some c)"
  using assms by (auto simp: one_kind_def)

lemma orderlyD:
  assumes "orderly W v"
  shows "d \<in> set W \<Longrightarrow> \<not> frozen_at v (receiver d)"
    and "(q, k) \<in> set (declared W) \<Longrightarrow> \<not> is_alias (const_at v q)"
    and "(q, c) \<in> set (assigned W) \<Longrightarrow> \<not> is_space (const_at v q)"
  using assms by (auto simp: orderly_def)

lemma one_kind_declares:
  assumes "one_kind W" and "d \<in> set W" and "(q, k) \<in> set (declares d)"
  shows "map_of (declared W) q = Some k"
  using one_kindD(1) [OF assms(1) declares_in_declared [OF assms(2,3)]] .

lemma one_kind_assigns:
  assumes "one_kind W" and "d \<in> set W" and "(q, c) \<in> set (assigns d)"
  shows "map_of (declared W) q = None \<and> \<not> is_space (Some c)"
  using one_kindD(2,3) [OF assms(1) assigns_in_assigned [OF assms(2,3)]] by simp

lemma update_const_declared:
  assumes W: "one_kind W" and d: "d \<in> set W" and q: "map_of (declared W) q = Some k"
  shows "const_at (update_tables d v) q = (if q \<in> fst ` set (declares d) then Some k else const_at v q)"
proof -
  have "map_of (assigns d) q = None"
    using one_kind_assigns [OF W d] q by (metis map_of_SomeD not_Some_eq)
  then show ?thesis
    using one_kind_declares [OF W d] q
    by (cases d rule: declares_cases) (auto simp: map_add_def split: option.splits)
qed

lemma update_const_assigned:
  assumes W: "one_kind W" and d: "d \<in> set W" and q: "map_of (declared W) q = None"
    and v: "\<not> is_space (const_at v q)"
  shows "\<not> is_space (const_at (update_tables d v) q)"
proof -
  have "map_of (declares d) q = None"
    using one_kind_declares [OF W d] q by (metis map_of_SomeD not_Some_eq)
  moreover have "\<not> is_space (Some c)" if "map_of (assigns d) q = Some c" for c
    using one_kind_assigns [OF W d map_of_SomeD [OF that]] by simp
  ultimately show ?thesis
    using v by (auto simp: map_add_def split: option.splits)
qed

lemma orderly_step:
  assumes W: "one_kind W" and d: "d \<in> set W" and v: "orderly W v"
  shows "orderly W (update_tables d v)"
  unfolding orderly_def
proof (intro conjI ballI; clarify?)
  fix q k assume q: "(q, k) \<in> set (declared W)" and a: "is_alias (const_at (update_tables d v) q)"
  have k: "map_of (declared W) q = Some k"
    using W q by (auto simp: one_kind_def)
  then have "is_space (Some k)" if "q \<in> fst ` set (declares d)"
    using that one_kind_declares [OF W d] by (cases d rule: declares_cases) auto
  then show False
    using a update_const_declared [OF W d k, of v] v q not_alias_space
    by (auto simp: orderly_def split: if_splits)
next
  fix q c assume q: "(q, c) \<in> set (assigned W)" and "is_space (const_at (update_tables d v) q)"
  then show False
    using update_const_assigned [OF W d one_kindD(2) [OF W q] orderlyD(3) [OF v q]] by simp
qed (use v in \<open>simp add: orderly_def\<close>)

lemma declares_space: "(q, k) \<in> set (declares d) \<Longrightarrow> is_space (Some k)"
  by (cases d) auto

lemma knows_step:
  assumes W: "one_kind W" and d: "d \<in> set W" and v: "knows K v" and K: "set K \<subseteq> fst ` set (declared W)"
  shows "knows (map fst (declares d) @ K) (update_tables d v)"
  unfolding knows_def
proof
  fix q assume q: "q \<in> set (map fst (declares d) @ K)"
  then have "q \<in> fst ` set (declared W)"
    using K declares_paths [OF d] by auto
  then obtain k where k: "map_of (declared W) q = Some k"
    by (metis map_of_eq_None_iff not_Some_eq)
  show "is_space (const_at (update_tables d v) q)"
  proof (cases "q \<in> fst ` set (declares d)")
    case True
    then obtain k' where "(q, k') \<in> set (declares d)" by auto
    then show ?thesis
      using declares_space one_kind_declares [OF W d] k True
      by (auto simp: update_const_declared [OF W d k] simp del: update_tables_sel)
  next
    case False
    then show ?thesis
      using q v by (simp add: update_const_declared [OF W d k] knows_def del: update_tables_sel)
  qed
qed

lemma accepts_or_clashes:
  assumes "orderly W v" and "d \<in> set W" and "knows K v"
    and "receiver d = [] \<or> receiver d \<in> set K"
  shows "accepts d v \<longleftrightarrow> \<not> clashes d v"
proof -
  have "receiver d = [] \<or> is_space (const_at v (receiver d))"
    using assms(3,4) by (auto simp: knows_def)
  then show ?thesis
    using orderlyD(1) [OF assms(1,2)] orderlyD(2) [OF assms(1) declares_in_declared [OF assms(2)]]
      orderlyD(3) [OF assms(1) assigns_in_assigned [OF assms(2)]]
    unfolding accepts_iff clashes_iff by metis
qed

lemma compatible_step:
  assumes W: "one_kind W" and d: "d \<in> set W" and ds: "set ds \<subseteq> set W" and ok: "\<not> clashes d v"
    and v: "orderly W v"
  shows "compatible (d # ds) v \<longleftrightarrow> compatible ds (update_tables d v)"
proof -
  have fits: "const_at v q = None \<or> const_at v q = Some k" if "(q, k) \<in> set (declares d)" for q k
    using ok that orderlyD(2) [OF v declares_in_declared [OF d that]] by (auto simp: clashes_iff)
  have "const_at v q = None \<or> const_at v q = Some k
    \<longleftrightarrow> const_at (update_tables d v) q = None \<or> const_at (update_tables d v) q = Some k"
    if qk: "(q, k) \<in> set (declared ds)" for q k
  proof -
    have k: "map_of (declared W) q = Some k"
      using one_kindD(1) [OF W, of q k] qk ds by (auto simp: declared_def)
    show ?thesis
    proof (cases "q \<in> fst ` set (declares d)")
      case True
      then obtain k' where "(q, k') \<in> set (declares d)" by auto
      then show ?thesis
        using fits [of q k'] one_kind_declares [OF W d, of q k'] update_const_declared [OF W d k, of v] k True
        by simp
    qed (simp add: update_const_declared [OF W d k] del: update_tables_sel)
  qed
  then show ?thesis
    using fits by (auto simp: compatible_iff simp del: update_tables_sel)
qed

section \<open>Parts of a script\<close>

lemma scoped_cong: "set K = set L \<Longrightarrow> scoped K ds = scoped L ds"
proof (induction ds arbitrary: K L)
  case (Cons d ds)
  from Cons.prems have "set (map fst (declares d) @ K) = set (map fst (declares d) @ L)" by simp
  from Cons.IH [OF this] show ?case
    using Cons.prems by simp
qed simp

lemma scoped_append: "scoped K (xs @ ys) \<longleftrightarrow> scoped K xs \<and> scoped (map fst (declared xs) @ K) ys"
proof (induction xs arbitrary: K)
  case (Cons d xs)
  have "scoped (map fst (declared xs) @ map fst (declares d) @ K) ys
    = scoped (map fst (declared (d # xs)) @ K) ys"
    by (rule scoped_cong) auto
  then show ?case using Cons by simp
qed simp

lemma declared_append [simp]: "declared (xs @ ys) = declared xs @ declared ys"
  by (simp add: declared_def)

lemma scoped_drop:
  assumes "scoped K (xs @ ys @ zs)" and "fst ` set (declared ys) \<subseteq> fst ` set (declared xs)"
  shows "scoped K (xs @ zs)"
proof -
  have "scoped (map fst (declared ys) @ map fst (declared xs) @ K) zs = scoped (map fst (declared xs) @ K) zs"
    using assms(2) by (intro scoped_cong) auto
  then show ?thesis
    using assms(1) by (simp add: scoped_append)
qed

lemma one_kind_mono:
  assumes W: "one_kind W" and "set ds \<subseteq> set W"
  shows "one_kind ds"
proof -
  have d: "set (declared ds) \<subseteq> set (declared W)" and a: "set (assigned ds) \<subseteq> set (assigned W)"
    using assms(2) by (auto simp: declared_def assigned_def)
  have "map_of (declared ds) q = Some k" if qk: "(q, k) \<in> set (declared ds)" for q k
  proof -
    from weak_map_of_SomeI [OF qk] obtain k' where k': "map_of (declared ds) q = Some k'" by blast
    then have "(q, k') \<in> set (declared W)" and "(q, k) \<in> set (declared W)"
      using qk d by (auto dest: map_of_SomeD)
    from one_kindD(1) [OF W this(1)] one_kindD(1) [OF W this(2)] show ?thesis
      using k' by simp
  qed
  moreover have "map_of (declared ds) q = None" if "(q, c) \<in> set (assigned ds)" for q c
  proof -
    have "q \<notin> fst ` set (declared W)"
      using one_kindD(2) [OF W, of q c] a that by (auto simp: map_of_eq_None_iff)
    then show ?thesis
      using d by (auto simp: map_of_eq_None_iff)
  qed
  ultimately show ?thesis
    using one_kindD(3) [OF W] a by (auto simp: one_kind_def)
qed

section \<open>Running a script on the VM\<close>

locale ruby_registry =
  fixes invoke :: "decl \<Rightarrow> 's \<Rightarrow> 's res"
    and view :: "'s \<Rightarrow> tables"
  assumes invoke_accepted: "accepts d (view s) \<Longrightarrow> \<exists>s'. invoke d s = Inr s' \<and> view s' = update_tables d (view s)"
    and invoke_clash: "clashes d (view s) \<Longrightarrow> \<exists>e. invoke d s = Inl e \<and> exn_class e = TypeError"
begin

lemma run_decl_accepted:
  assumes "accepts d (view s)"
  shows "\<exists>s'. run_decl invoke d s = Inr s' \<and> view s' = update_tables d (view s)"
proof (cases "\<exists>p n c. d = Const_set_ignored p n c")
  case True
  then obtain p n c where d: "d = Const_set_ignored p n c" by blast
  then have "accepts (Const_set p n c) (view s)"
    using assms by (simp add: accepts_def)
  from invoke_accepted [OF this] show ?thesis
    by (auto simp: d update_tables_def)
next
  case False
  then have "run_decl invoke d s = invoke d s" by (cases d) auto
  then show ?thesis using invoke_accepted [OF assms] by simp
qed

lemma run_decl_clash:
  assumes "clashes d (view s)"
  shows "\<exists>e. run_decl invoke d s = Inl e \<and> exn_class e = TypeError"
proof -
  have "run_decl invoke d s = invoke d s"
    using assms by (cases d) (auto simp: clashes_def)
  then show ?thesis using invoke_clash [OF assms] by simp
qed

lemma run_decls_suffix:
  assumes "one_kind W" and "set ds \<subseteq> set W" and "scoped K ds" and "set K \<subseteq> fst ` set (declared W)"
    and "knows K (view s)" and "orderly W (view s)"
  shows "if compatible ds (view s)
         then \<exists>s'. run_decls invoke ds s = Inr s' \<and> view s' = fold update_tables ds (view s)
         else \<exists>e. run_decls invoke ds s = Inl e \<and> exn_class e = TypeError"
  using assms
proof (induction ds arbitrary: K s)
  case Nil
  then show ?case by (simp add: compatible_def)
next
  case (Cons d ds)
  then have d: "d \<in> set W" and ds: "set ds \<subseteq> set W" by auto
  show ?case
  proof (cases "clashes d (view s)")
    case True
    then have "\<not> compatible (d # ds) (view s)"
      by (auto simp: clashes_iff compatible_iff)
    then show ?thesis using run_decl_clash [OF True] by auto
  next
    case False
    then have "accepts d (view s)"
      using accepts_or_clashes [OF Cons.prems(6) d Cons.prems(5)] Cons.prems(3) by simp
    from run_decl_accepted [OF this] obtain s' where
      s': "run_decl invoke d s = Inr s'" "view s' = update_tables d (view s)" by blast
    have "if compatible ds (view s')
         then \<exists>s''. run_decls invoke ds s' = Inr s'' \<and> view s'' = fold update_tables ds (view s')
         else \<exists>e. run_decls invoke ds s' = Inl e \<and> exn_class e = TypeError"
    proof (rule Cons.IH [OF Cons.prems(1) ds])
      show "scoped (map fst (declares d) @ K) ds" using Cons.prems(3) by simp
      show "set (map fst (declares d) @ K) \<subseteq> fst ` set (declared W)"
        using Cons.prems(4) declares_paths [OF d] by auto
      show "knows (map fst (declares d) @ K) (view s')"
        using knows_step [OF Cons.prems(1) d Cons.prems(5,4)] s'(2) by simp
      show "orderly W (view s')"
        using orderly_step [OF Cons.prems(1) d Cons.prems(6)] s'(2) by simp
    qed
    then show ?thesis
      using compatible_step [OF Cons.prems(1) d ds False Cons.prems(6)] s' by (simp split: if_splits)
  qed
qed

lemma run_decls_orderly:
  assumes "well_scoped ds" and "orderly ds (view s)"
  shows "if compatible ds (view s)
         then \<exists>s'. run_decls invoke ds s = Inr s' \<and> view s' = fold update_tables ds (view s)
         else \<exists>e. run_decls invoke ds s = Inl e \<and> exn_class e = TypeError"
  using assms by (intro run_decls_suffix [where W = ds and K = "[]"]) (auto simp: well_scoped_def knows_def)

lemma run_decls_succeeded:
  assumes "well_scoped ds" and "orderly ds (view s)" and "run_decls invoke ds s = Inr s'"
  shows "compatible ds (view s)" and "view s' = fold update_tables ds (view s)"
  using run_decls_orderly [OF assms(1,2)] assms(3) by (auto split: if_splits)

end

text \<open>A VM that consists of these tables.\<close>

definition table_invoke :: "decl \<Rightarrow> tables \<Rightarrow> tables res" where
  "table_invoke d v =
     (if clashes d v then Inl (Exn TypeError ''not of the declared kind'' [])
      else if accepts d v then Inr (update_tables d v)
      else Inl (Exn RuntimeError ''can't modify'' []))"

interpretation table: ruby_registry table_invoke "\<lambda>v. v"
proof
  fix d v
  show "\<exists>v'. table_invoke d v = Inr v' \<and> v' = update_tables d v" if "accepts d v"
  proof -
    have "\<not> clashes d v"
      using that unfolding accepts_iff clashes_iff by metis
    then show ?thesis using that by (simp add: table_invoke_def)
  qed
qed (simp add: table_invoke_def)

section \<open>The tables after loading\<close>

lemma fold_update_method_at:
  "method_at (fold update_tables ds v) = method_at v ++ map_of (rev (bound ds))"
proof (induction ds arbitrary: v)
  case (Cons d ds)
  have "map_of (rev (binds d)) = map_of (binds d)"
    by (cases d) (auto simp: fun_upd_twist)
  then show ?case
    using Cons by (simp add: bound_def)
qed (simp add: bound_def)

lemma fold_update_const_at:
  "const_at (fold update_tables ds v) = const_at v ++ map_of (rev (concat (map (\<lambda>d. declares d @ assigns d) ds)))"
proof (induction ds arbitrary: v)
  case (Cons d ds)
  have "map_of (rev (declares d @ assigns d)) = map_of (declares d @ assigns d)"
    by (cases d) auto
  then show ?case
    using Cons [of "update_tables d v"] by (simp del: map_of_append) (simp add: map_add_assoc)
qed simp

end
