(* ===== verification/Extension.thy ===== *)
theory Extension
  imports Registry Winsock
begin

text \<open>
  The entry point of the extension (\<open>lib.rs\<close>) and the \<open>init\<close> function of every module it calls,
  each as the list of its declarations in the order of its statements (\<open>extension_decls\<close> is all
  of them), with the class path of each wrapped Rust type and the functions \<open>lib.rs\<close> registers.

  The static facts of the script (every receiver declared before it is used, no path declared
  with two kinds, no method bound twice) are evaluated in the kernel; with them the lemmas of
  the locale \<open>ruby_registry\<close> decide the outcome of loading for every VM and every state of it,
  and say which Rust function each Ruby method is bound to afterwards.
\<close>

section \<open>The Ruby classes of the wrapped Rust types\<close>

text \<open>The class path of each \<open>#[magnus(class = ...)]\<close> attribute: the class an object of the type gets.\<close>

definition PredicateWrap_class :: cpath where
  "PredicateWrap_class = [''Confium'', ''Attributes'', ''Predicate'']"

definition SignerWrap_class :: cpath where
  "SignerWrap_class = [''Confium'', ''Attributes'', ''Signer'']"

definition CompositeSig_class :: cpath where
  "CompositeSig_class = [''Confium'', ''Composite'', ''Signature'']"

definition VerificationResultWrap_class :: cpath where
  "VerificationResultWrap_class = [''Confium'', ''Composite'', ''VerificationResult'']"

definition Actor_class :: cpath where
  "Actor_class = [''Confium'', ''Identity'', ''Actor'']"

definition Manifest_class :: cpath where
  "Manifest_class = [''Confium'', ''Config'', ''Manifest'']"

definition ErsRecord_class :: cpath where
  "ErsRecord_class = [''Confium'', ''ERS'', ''EvidenceRecord'']"

definition SignerClient_class :: cpath where
  "SignerClient_class = [''Confium'', ''Transport'', ''SignerClient'']"

definition CoordinatorServer_class :: cpath where
  "CoordinatorServer_class = [''Confium'', ''Transport'', ''CoordinatorServer'']"

definition OtsProof_class :: cpath where
  "OtsProof_class = [''Confium'', ''Transparency'', ''OTS'', ''Proof'']"

definition Client_class :: cpath where
  "Client_class = [''Confium'', ''Transparency'', ''OTS'', ''Client'']"

definition PathResult_class :: cpath where
  "PathResult_class = [''Confium'', ''PKI'', ''PathValidationResult'']"

definition Certificate_class :: cpath where
  "Certificate_class = [''Confium'', ''PKI'', ''Certificate'']"

definition Csr_class :: cpath where
  "Csr_class = [''Confium'', ''PKI'', ''CSR'']"

definition SignedData_class :: cpath where
  "SignedData_class = [''Confium'', ''PKI'', ''CMS'', ''SignedData'']"

definition CmsVerificationResult_class :: cpath where
  "CmsVerificationResult_class = [''Confium'', ''PKI'', ''CMS'', ''VerificationResult'']"

definition CertWrapper_class :: cpath where
  "CertWrapper_class = [''Confium'', ''PKI'', ''CMS'', ''Content'']"

definition Keystore_class :: cpath where
  "Keystore_class = [''Confium'', ''Store'', ''Keystore'']"

definition ShareWrap_class :: cpath where
  "ShareWrap_class = [''Confium'', ''TC'', ''FrostP256'', ''Share'']"

definition Session_class :: cpath where
  "Session_class = [''Confium'', ''TC'', ''Session'']"

definition MerkleTree_class :: cpath where
  "MerkleTree_class = [''Confium'', ''Transparency'', ''MerkleTree'']"

definition InclusionProofWrap_class :: cpath where
  "InclusionProofWrap_class = [''Confium'', ''Transparency'', ''InclusionProof'']"

definition typed_data :: "(string \<times> cpath) list" where
  "typed_data =
     [(''PredicateWrap'', PredicateWrap_class),
      (''SignerWrap'', SignerWrap_class),
      (''CompositeSig'', CompositeSig_class),
      (''VerificationResultWrap'', VerificationResultWrap_class),
      (''Actor'', Actor_class),
      (''Manifest'', Manifest_class),
      (''ErsRecord'', ErsRecord_class),
      (''SignerClient'', SignerClient_class),
      (''CoordinatorServer'', CoordinatorServer_class),
      (''OtsProof'', OtsProof_class),
      (''Client'', Client_class),
      (''PathResult'', PathResult_class),
      (''Certificate'', Certificate_class),
      (''Csr'', Csr_class),
      (''SignedData'', SignedData_class),
      (''CmsVerificationResult'', CmsVerificationResult_class),
      (''CertWrapper'', CertWrapper_class),
      (''Keystore'', Keystore_class),
      (''ShareWrap'', ShareWrap_class),
      (''Session'', Session_class),
      (''MerkleTree'', MerkleTree_class),
      (''InclusionProofWrap'', InclusionProofWrap_class)]"

lemmas class_path_defs =
  PredicateWrap_class_def SignerWrap_class_def CompositeSig_class_def
  VerificationResultWrap_class_def Actor_class_def Manifest_class_def
  ErsRecord_class_def SignerClient_class_def CoordinatorServer_class_def
  OtsProof_class_def Client_class_def PathResult_class_def
  Certificate_class_def Csr_class_def SignedData_class_def
  CmsVerificationResult_class_def CertWrapper_class_def Keystore_class_def
  ShareWrap_class_def Session_class_def MerkleTree_class_def
  InclusionProofWrap_class_def

section \<open>The \<open>init\<close> functions\<close>

definition transparency_init :: "cpath \<Rightarrow> decl list" where
  "transparency_init parent =
     (let transparency = parent @ [''Transparency''];
          tree_class = transparency @ [''MerkleTree''];
          proof_class = transparency @ [''InclusionProof''] in
      [Define_module parent ''Transparency'',
       Define_class transparency ''MerkleTree'',
       Define_singleton_method tree_class ''new'' ''MerkleTree::new'' 0,
       Define_method tree_class ''append'' ''MerkleTree::append'' 1,
       Define_method tree_class ''length'' ''MerkleTree::len'' 0,
       Define_method tree_class ''size'' ''MerkleTree::len'' 0,
       Define_method tree_class ''empty?'' ''MerkleTree::is_empty'' 0,
       Define_method tree_class ''root'' ''MerkleTree::root'' 0,
       Define_method tree_class ''inclusion_proof'' ''MerkleTree::inclusion_proof'' 1,
       Define_method tree_class ''entries'' ''MerkleTree::entries'' 0,
       Define_method tree_class ''to_a'' ''MerkleTree::entries'' 0,
       Define_method tree_class ''consistency_proof'' ''MerkleTree::consistency_proof'' 1,
       Define_method tree_class ''verify_consistency'' ''MerkleTree::verify_consistency'' 5,
       Define_class transparency ''InclusionProof'',
       Define_method proof_class ''sequence'' ''InclusionProofWrap::sequence'' 0,
       Define_method proof_class ''steps'' ''InclusionProofWrap::steps'' 0,
       Define_method proof_class ''verify'' ''InclusionProofWrap::verify'' 1,
       Define_method proof_class ''verify_with_leaf'' ''InclusionProofWrap::verify_with_leaf'' 2])"

definition ots_init :: "cpath \<Rightarrow> decl list" where
  "ots_init parent =
     (let ots = parent @ [''OTS''];
          parse_error = ots @ [''ParseError''];
          proof = ots @ [''Proof''];
          client = ots @ [''Client''] in
      [Define_module parent ''OTS'',
       Define_error ots ''ParseError'',
       Const_set ots ''PARSE_ERROR'' (A_ref parse_error),
       Define_class ots ''Proof'',
       Define_singleton_method proof ''new'' ''OtsProof::initialize'' 2,
       Define_method proof ''digest'' ''OtsProof::digest'' 0,
       Define_method proof ''to_bytes'' ''OtsProof::to_bytes'' 0,
       Define_method proof ''verify'' ''OtsProof::verify'' 0,
       Define_class ots ''Client'',
       Define_singleton_method client ''new'' ''Client::initialize'' 1,
       Define_method client ''stamp'' ''Client::stamp'' 1,
       Define_method client ''upgrade'' ''Client::upgrade'' 1])"

definition openpgp_init :: "cpath \<Rightarrow> decl list" where
  "openpgp_init parent =
     (let openpgp = parent @ [''OpenPGP''] in
      [Define_module parent ''OpenPGP'',
       Const_set_ignored openpgp ''PGP_AVAILABLE'' (A_value (RBool False)),
       Define_singleton_method openpgp ''verify_detached'' ''stub_verify_detached'' (- 1),
       Define_singleton_method openpgp ''verify'' ''stub_verify'' (- 1)])"

definition openpgp_init_pgp :: "cpath \<Rightarrow> decl list" where
  "openpgp_init_pgp parent =
     (let openpgp = parent @ [''OpenPGP''] in
      [Define_module parent ''OpenPGP'',
       Const_set_ignored openpgp ''PGP_AVAILABLE'' (A_value (RBool True)),
       Define_singleton_method openpgp ''verify_detached'' ''pgp_impl::verify_detached'' (- 1),
       Define_singleton_method openpgp ''verify'' ''pgp_impl::verify'' (- 1)])"

definition composite_init :: "cpath \<Rightarrow> decl list" where
  "composite_init parent =
     (let composite = parent @ [''Composite''];
          sig_class = composite @ [''Signature''];
          result_class = composite @ [''VerificationResult''] in
      [Define_module parent ''Composite'',
       Define_module_function composite ''sign_ed25519'' ''sign_ed25519'' 2,
       Define_module_function composite ''sign_p256'' ''sign_p256'' 2,
       Define_module_function composite ''generate_ed25519_keypair'' ''generate_ed25519_keypair'' 0,
       Define_class composite ''Signature'',
       Define_singleton_method sig_class ''new'' ''CompositeSig::new'' 1,
       Define_method sig_class ''component_count'' ''CompositeSig::component_count'' 0,
       Define_method sig_class ''algorithms'' ''CompositeSig::algorithms'' 0,
       Define_method sig_class ''verify'' ''CompositeSig::verify'' (- 1),
       Define_class composite ''VerificationResult'',
       Define_method result_class ''all_verified?'' ''VerificationResultWrap::all_verified'' 0,
       Define_method result_class ''per_component'' ''VerificationResultWrap::per_component'' 0])"

definition attributes_init :: "cpath \<Rightarrow> decl list" where
  "attributes_init parent =
     (let attributes = parent @ [''Attributes''];
          pred_class = attributes @ [''Predicate''];
          signer_class = attributes @ [''Signer''] in
      [Define_module parent ''Attributes'',
       Define_module_function attributes ''parse'' ''parse'' 1,
       Define_class attributes ''Predicate'',
       Define_method pred_class ''satisfied_by?'' ''PredicateWrap::satisfied_by'' 1,
       Define_class attributes ''Signer'',
       Define_singleton_method signer_class ''new'' ''SignerWrap::new'' 0,
       Define_method signer_class ''add'' ''SignerWrap::add'' 2,
       Define_method signer_class ''has?'' ''SignerWrap::has'' 1,
       Define_method signer_class ''values'' ''SignerWrap::values'' 1])"

definition pki_init :: "cpath \<Rightarrow> decl list" where
  "pki_init parent =
     (let pki = parent @ [''PKI''];
          cert_class = pki @ [''Certificate''];
          csr_class = pki @ [''CSR''];
          cms = pki @ [''CMS''];
          sd_class = cms @ [''SignedData''];
          verify_class = cms @ [''VerificationResult''];
          content_class = cms @ [''Content''];
          xmldsig = pki @ [''XMLDSig''] in
      [Define_module parent ''PKI'',
       Define_class pki ''Certificate'',
       Define_singleton_method cert_class ''from_der'' ''Certificate::from_der'' 1,
       Define_singleton_method cert_class ''from_pem'' ''Certificate::from_pem'' 1,
       Define_method cert_class ''to_der'' ''Certificate::to_der'' 0,
       Define_method cert_class ''to_pem'' ''Certificate::to_pem'' 0,
       Define_method cert_class ''fingerprint_sha256'' ''Certificate::fingerprint_sha256'' 0,
       Define_method cert_class ''serial_hex'' ''Certificate::serial_hex'' 0,
       Define_method cert_class ''not_before'' ''Certificate::not_before_iso8601'' 0,
       Define_method cert_class ''not_after'' ''Certificate::not_after_iso8601'' 0,
       Define_method cert_class ''valid_at?'' ''Certificate::valid_at'' 1,
       Define_method cert_class ''public_key_bytes'' ''Certificate::public_key_bytes'' 0,
       Define_class pki ''CSR'',
       Define_singleton_method csr_class ''from_der'' ''Csr::from_der'' 1,
       Define_singleton_method csr_class ''from_pem'' ''Csr::from_pem'' 1,
       Define_method csr_class ''to_der'' ''Csr::to_der'' 0,
       Define_method csr_class ''to_pem'' ''Csr::to_pem'' 0,
       Define_module pki ''CMS'',
       Define_class cms ''SignedData'',
       Define_singleton_method sd_class ''from_json'' ''SignedData::from_json'' 1,
       Define_singleton_method sd_class ''build_detached'' ''SignedData::build_detached'' 3,
       Define_method sd_class ''to_json'' ''SignedData::to_json'' 0,
       Define_method sd_class ''to_der'' ''SignedData::to_der'' 0,
       Define_method sd_class ''signer_count'' ''SignedData::signer_count'' 0,
       Define_method sd_class ''signing_time'' ''SignedData::signing_time_iso8601'' 0,
       Define_method sd_class ''content_type'' ''SignedData::content_type'' 0,
       Define_method sd_class ''content'' ''SignedData::content'' 0,
       Define_method sd_class ''certificate_count'' ''SignedData::certificate_count'' 0,
       Define_method sd_class ''certificate_at'' ''SignedData::certificate_at'' 1,
       Define_method sd_class ''verify_signatures'' ''SignedData::verify_signatures'' 1,
       Define_class cms ''VerificationResult'',
       Define_method verify_class ''all_verified?'' ''CmsVerificationResult::all_verified'' 0,
       Define_method verify_class ''signer_count'' ''CmsVerificationResult::signer_count'' 0,
       Define_method verify_class ''per_signer_json'' ''CmsVerificationResult::per_signer_json'' 0,
       Define_class cms ''Content'',
       Define_method content_class ''bytes'' ''CertWrapper::bytes'' 0,
       Define_method content_class ''length'' ''CertWrapper::length'' 0,
       Define_method content_class ''size'' ''CertWrapper::length'' 0,
       Define_module pki ''XMLDSig'',
       Define_module_function xmldsig ''canonicalize'' ''xmldsig_canonicalize'' 1,
       Define_module_function xmldsig ''canonicalize_exclusive'' ''xmldsig_canonicalize_exclusive'' 1])"

definition store_init :: "cpath \<Rightarrow> decl list" where
  "store_init parent =
     (let store = parent @ [''Store''];
          class = store @ [''Keystore''] in
      [Define_module parent ''Store'',
       Define_class store ''Keystore'',
       Define_singleton_method class ''new'' ''Keystore::initialize'' (- 1),
       Define_method class ''sign'' ''Keystore::sign'' (- 1),
       Define_module_function store ''backends'' ''backends'' 0])"

definition path_init :: "cpath \<Rightarrow> decl list" where
  "path_init parent =
     (let pki = parent @ [''PKI''];
          validator = pki @ [''PathValidator''];
          result_class = pki @ [''PathValidationResult''] in
      [Define_module parent ''PKI'',
       Define_module pki ''PathValidator'',
       Define_module_function validator ''validate'' ''validate'' (- 1),
       Define_class pki ''PathValidationResult'',
       Define_method result_class ''valid?'' ''PathResult::valid'' 0,
       Define_method result_class ''check_count'' ''PathResult::check_count'' 0,
       Define_method result_class ''checks_json'' ''PathResult::checks_json'' 0])"

definition deployment_init :: "cpath \<Rightarrow> decl list" where
  "deployment_init parent =
     (let identity = parent @ [''Identity''];
          actor_class = identity @ [''Actor''];
          config = parent @ [''Config''];
          manifest_class = config @ [''Manifest''] in
      [Define_module parent ''Identity'',
       Define_module_function identity ''actor_types'' ''actor_types'' 0,
       Define_class identity ''Actor'',
       Define_singleton_method actor_class ''from_json'' ''Actor::from_json'' 1,
       Define_method actor_class ''to_json'' ''Actor::to_json'' 0,
       Define_method actor_class ''actor_id'' ''Actor::actor_id'' 0,
       Define_method actor_class ''actor_type'' ''Actor::actor_type'' 0,
       Define_method actor_class ''quorum_id'' ''Actor::quorum_id'' 0,
       Define_method actor_class ''registered_at'' ''Actor::registered_at_iso8601'' 0,
       Define_method actor_class ''expires_at'' ''Actor::expires_at_iso8601'' 0,
       Define_method actor_class ''certificate_count'' ''Actor::certificate_count'' 0,
       Define_module parent ''Config'',
       Define_class config ''Manifest'',
       Define_singleton_method manifest_class ''from_toml'' ''Manifest::from_toml'' 1,
       Define_method manifest_class ''deployment_name'' ''Manifest::deployment_name'' 0,
       Define_method manifest_class ''operator'' ''Manifest::operator'' 0,
       Define_method manifest_class ''manifest_version'' ''Manifest::manifest_version'' 0,
       Define_method manifest_class ''tier_count'' ''Manifest::tier_count'' 0,
       Define_method manifest_class ''tier_name_at'' ''Manifest::tier_name_at'' 1,
       Define_method manifest_class ''quorum_count'' ''Manifest::quorum_count'' 0,
       Define_method manifest_class ''validate'' ''Manifest::validate'' 0,
       Define_method manifest_class ''valid?'' ''Manifest::is_valid'' 0])"

definition tc_mta_init :: "string \<Rightarrow> cpath \<Rightarrow> decl list" where
  "tc_mta_init order cmp20 =
     (let mta = cmp20 @ [''Mta''];
          error = cmp20 @ [''MtaError''] in
      [Define_module cmp20 ''Mta'',
       Define_error cmp20 ''MtaError'',
       Const_set cmp20 ''MTA_ERROR'' (A_ref error),
       Const_set mta ''P256_ORDER'' (A_value (rstr order)),
       Define_module_function mta ''generate_keypair'' ''mta_generate_keypair'' 1,
       Define_module_function mta ''generate_commitment_key'' ''mta_generate_commitment_key'' 1,
       Define_module_function mta ''party_i_init'' ''mta_party_i_init'' 4,
       Define_module_function mta ''party_j_respond'' ''mta_party_j_respond'' 6,
       Define_module_function mta ''party_i_finish'' ''mta_party_i_finish'' 6,
       Define_module_function mta ''full'' ''mta_full'' 7])"

definition tc_init :: "string \<Rightarrow> cpath \<Rightarrow> decl list" where
  "tc_init order parent =
     (let tc = parent @ [''TC''];
          frost = tc @ [''FrostP256''];
          share_class = frost @ [''Share''];
          elgamal = tc @ [''ElGamalP256''];
          cmp20 = tc @ [''Cmp20''];
          gg18 = tc @ [''Gg18''] in
      [Define_module parent ''TC'',
       Define_module tc ''FrostP256'',
       Define_module_function frost ''split_secret'' ''split_secret_into_shares'' 3,
       Define_module_function frost ''recover_secret'' ''recover'' 1,
       Define_module_function frost ''generate_keypair'' ''keypair'' 0,
       Define_module_function frost ''sign'' ''sign'' 2,
       Define_class frost ''Share'',
       Define_method share_class ''x'' ''ShareWrap::x'' 0,
       Define_method share_class ''y_bytes'' ''ShareWrap::y_bytes'' 0,
       Define_module tc ''ElGamalP256'',
       Define_module_function elgamal ''encapsulate'' ''elgamal_encapsulate'' 1,
       Define_module_function elgamal ''partial_decrypt'' ''elgamal_partial_decrypt'' 3,
       Define_module_function elgamal ''aggregate_partials'' ''elgamal_aggregate'' 3,
       Define_module tc ''Cmp20'',
       Define_module_function cmp20 ''keygen'' ''cmp20_keygen'' 2,
       Define_module_function cmp20 ''sign'' ''cmp20_sign'' 3] @
      tc_mta_init order cmp20 @
      [Define_module tc ''Gg18'',
       Define_module_function gg18 ''keygen'' ''gg18_keygen'' 2,
       Define_module_function gg18 ''sign'' ''gg18_sign'' 3])"

definition tc_session_init :: "cpath \<Rightarrow> decl list" where
  "tc_session_init parent =
     (let tc = parent @ [''TC''];
          class = tc @ [''Session''] in
      [Define_module parent ''TC'',
       Define_class tc ''Session'',
       Define_singleton_method class ''new'' ''Session::initialize'' (- 1),
       Define_method class ''scheme_name'' ''Session::scheme_name'' 0,
       Define_method class ''threshold'' ''Session::threshold'' 0,
       Define_method class ''party_count'' ''Session::party_count'' 0,
       Define_method class ''this_party_idx'' ''Session::this_party_idx'' 0,
       Define_method class ''round'' ''Session::round'' 0,
       Define_method class ''complete?'' ''Session::complete'' 0,
       Define_method class ''round_step'' ''Session::round_step'' (- 1),
       Define_method class ''result'' ''Session::result'' 0])"

definition net_init :: "cpath \<Rightarrow> decl list" where
  "net_init parent =
     (let net = parent @ [''Transport''];
          client = net @ [''SignerClient''];
          server = net @ [''CoordinatorServer''] in
      [Define_module parent ''Transport'',
       Define_class net ''SignerClient'',
       Define_singleton_method client ''new'' ''SignerClient::initialize'' 1,
       Define_method client ''register'' ''SignerClient::register'' 2,
       Define_method client ''create_session'' ''SignerClient::create_session'' 5,
       Define_method client ''submit_commitment'' ''SignerClient::submit_commitment'' (- 1),
       Define_method client ''submit_share'' ''SignerClient::submit_share'' (- 1),
       Define_class net ''CoordinatorServer'',
       Define_singleton_method server ''new'' ''CoordinatorServer::initialize'' 1])"

definition audit_register :: "cpath \<Rightarrow> decl list" where
  "audit_register parent =
     (let audit = parent @ [''Audit''] in
      [Define_module parent ''Audit'',
       Ivar_set audit ''@sink'' RNil,
       Define_module_function audit ''sink='' ''set_sink'' 1,
       Define_module_function audit ''sink'' ''get_sink'' 0,
       Define_module_function audit ''enabled?'' ''audit_enabled'' 0,
       Define_module_function audit ''record'' ''record'' 6])"

definition ers_init :: "cpath \<Rightarrow> decl list" where
  "ers_init parent =
     (let ers = parent @ [''ERS''];
          cls = ers @ [''EvidenceRecord''] in
      [Define_module parent ''ERS'',
       Define_class ers ''EvidenceRecord'',
       Define_singleton_method cls ''build_initial'' ''ErsRecord::build_initial'' (- 1),
       Define_method cls ''renew'' ''ErsRecord::renew'' (- 1),
       Define_method cls ''renewal_count'' ''ErsRecord::renewal_count'' 0])"

text \<open>
  \<open>lib.rs::init\<close> after the load-time probe: the statements before and after the one that is
  compiled in only with the cargo feature \<open>pgp\<close>, and all of them.
\<close>

definition decls_before_pgp :: "decl list" where
  "decls_before_pgp =
     (let confium = [''Confium'']; native = confium @ [''Native'']; transparency = confium @ [''Transparency''] in
      [Define_module [] ''Confium'',
       Define_module confium ''Native'',
       Define_module_function native ''version'' ''native_version'' 0,
       Define_module_function native ''loaded?'' ''native_loaded'' 0,
       Define_module_function confium ''core_version'' ''core_version'' 0,
       Define_module_function native ''winsock_probe'' ''winsock_probe_fn'' 1] @
      transparency_init confium @
      [Define_module confium ''Transparency''] @
      ots_init transparency @
      openpgp_init confium)"

definition decls_after_pgp :: "string \<Rightarrow> decl list" where
  "decls_after_pgp order =
     (let confium = [''Confium''] in
      composite_init confium @
      attributes_init confium @
      pki_init confium @
      store_init confium @
      path_init confium @
      deployment_init confium @
      tc_init order confium @
      tc_session_init confium @
      net_init confium @
      audit_register confium @
      ers_init confium)"

definition extension_decls :: "bool \<Rightarrow> string \<Rightarrow> decl list" where
  "extension_decls pgp order =
     decls_before_pgp @ (if pgp then openpgp_init_pgp [''Confium''] else []) @ decls_after_pgp order"

section \<open>The functions of \<open>lib.rs\<close>\<close>

text \<open>
  \<open>env\<close> is the environment the crate is compiled in (\<open>env!\<close>), \<open>windows\<close> the target, \<open>pgp\<close> the
  cargo feature of that name.
\<close>

definition native_version :: "(string \<Rightarrow> string) \<Rightarrow> string" where
  "native_version env = env ''CARGO_PKG_VERSION''"

definition native_loaded :: bool where
  "native_loaded = True"

definition core_version :: "(string \<Rightarrow> string) \<Rightarrow> string" where
  "core_version env = env ''CONFIUM_CORE_VERSION''"

definition winsock_probe_fn :: "bool \<Rightarrow> string \<Rightarrow> unit res prog" where
  "winsock_probe_fn windows tag =
     seqw (if windows then probe_on_demand tag else Ret ()) (Ret (Inr ()))"

definition extension_init ::
    "bool \<Rightarrow> bool \<Rightarrow> string \<Rightarrow> (decl \<Rightarrow> 's \<Rightarrow> 's res) \<Rightarrow> 's \<Rightarrow> 's res prog" where
  "extension_init windows pgp order invoke s =
     seqw (if windows then probe else Ret ()) (Ret (run_decls invoke (extension_decls pgp order) s))"

section \<open>Static facts of the script\<close>

text \<open>
  The script with \<open>pgp\<close> has the script without it as a subsequence; what it adds declares nothing
  new. So the checks run once, on the longer one.
\<close>

lemma extension_scoped_pgp: "scoped [] (extension_decls True order)"
  by code_simp

lemma extension_one_kind_pgp: "one_kind (extension_decls True order)"
  by code_simp

lemma openpgp_declared_before:
  "fst ` set (declared (openpgp_init_pgp [''Confium''])) \<subseteq> fst ` set (declared decls_before_pgp)"
  by (simp add: openpgp_init_pgp_def openpgp_init_def decls_before_pgp_def declared_def Let_def)

lemma extension_well_scoped: "well_scoped (extension_decls pgp order)"
proof (cases pgp)
  case True
  then show ?thesis
    using extension_scoped_pgp extension_one_kind_pgp by (simp add: well_scoped_def)
next
  case False
  have "scoped [] (extension_decls False order)"
    using scoped_drop [OF _ openpgp_declared_before, of "[]"] extension_scoped_pgp [of order]
    by (simp add: extension_decls_def)
  moreover have "one_kind (extension_decls False order)"
    by (rule one_kind_mono [OF extension_one_kind_pgp [of order]]) (auto simp: extension_decls_def)
  ultimately show ?thesis
    using False by (simp add: well_scoped_def)
qed

text \<open>Every wrapped type has its class, and every instance method the type its function takes.\<close>

fun instance_method :: "decl \<Rightarrow> (cpath \<times> string \<times> string \<times> int) list" where
  "instance_method (Define_method p n f a) = [(p, n, f, a)]"
| "instance_method _ = []"

definition instance_methods :: "decl list \<Rightarrow> (cpath \<times> string \<times> string \<times> int) list" where
  "instance_methods ds = concat (map instance_method ds)"

definition rust_type :: "string \<Rightarrow> string" where
  "rust_type f = takeWhile (\<lambda>c. c \<noteq> CHR '':'') f"

fun methods_typed :: "(cpath \<times> string \<times> string \<times> int) list \<Rightarrow> bool" where
  "methods_typed [] = True"
| "methods_typed ((p, n, f, a) # ms) = (map_of typed_data (rust_type f) = Some p \<and> methods_typed ms)"

fun classes_declared :: "(string \<times> cpath) list \<Rightarrow> (cpath \<times> const) list \<Rightarrow> bool" where
  "classes_declared [] D = True"
| "classes_declared ((ty, c) # T) D = (List.member D (c, A_class ''Object'') \<and> classes_declared T D)"

lemma typed_data_declared: "classes_declared typed_data (declared (extension_decls False order))"
  by code_simp

lemma instance_methods_typed: "methods_typed (instance_methods (extension_decls False order))"
  by code_simp

text \<open>
  No method key is bound twice without \<open>pgp\<close>. The keys are compared by the number their text
  spells.
\<close>

definition char_code :: "char \<Rightarrow> int" where
  "char_code c = (of_bool (digit0 c) + 2 * (of_bool (digit1 c) + 2 * (of_bool (digit2 c) +
     2 * (of_bool (digit3 c) + 2 * (of_bool (digit4 c) + 2 * (of_bool (digit5 c) + 2 * of_bool (digit6 c)))))))"

definition key_code :: "mkey \<Rightarrow> int" where
  "key_code k = (case k of (p, b, n) \<Rightarrow>
     foldl (\<lambda>h c. 3 * h + char_code c) (of_bool b) (concat p @ n))"

lemma key_codes_distinct: "distinct (map (\<lambda>x. key_code (fst x)) (bound (extension_decls False order)))"
  by code_simp


lemma bound_append [simp]: "bound (xs @ ys) = bound xs @ bound ys"
  by (simp add: bound_def)

lemma extension_bound_distinct: "distinct (map fst (bound (extension_decls False order)))"
proof -
  have "map (\<lambda>x. key_code (fst x)) (bound (extension_decls False order)) =
      map key_code (map fst (bound (extension_decls False order)))" by simp
  then show ?thesis
    using key_codes_distinct [of order] by (metis distinct_map)
qed

lemma openpgp_bound_before:
  "fst ` set (bound (openpgp_init_pgp [''Confium''])) \<subseteq> fst ` set (bound decls_before_pgp)"
  by (simp add: openpgp_init_pgp_def openpgp_init_def decls_before_pgp_def bound_def Let_def)

section \<open>What loading leaves in the tables\<close>

definition pgp_bound :: "bool \<Rightarrow> (mkey \<times> string \<times> int) list" where
  "pgp_bound pgp = (if pgp then bound (openpgp_init_pgp [''Confium'']) else [])"

lemma pgp_bound_distinct: "distinct (map fst (pgp_bound pgp))"
  by (simp add: pgp_bound_def openpgp_init_pgp_def bound_def Let_def)

lemma map_of_rev_distinct: "distinct (map fst xs) \<Longrightarrow> map_of (rev xs) = map_of xs"
  by (rule map_of_inject_set [THEN iffD2]) (simp_all add: rev_map [symmetric])

lemma map_add_overlay:
  assumes "dom g \<subseteq> dom f" and "dom f \<inter> dom h = {}"
  shows "f ++ g ++ h = f ++ h ++ g"
  by (rule map_add_comm [of h g, THEN arg_cong, of "\<lambda>m. f ++ m", unfolded map_add_assoc, symmetric])
     (use assms in blast)

lemma extension_bound:
  "map_of (rev (bound (extension_decls pgp order))) = map_of (bound (extension_decls False order)) ++ map_of (pgp_bound pgp)"
proof -
  let ?X = "bound decls_before_pgp" and ?Y = "bound (decls_after_pgp order)" and ?P = "pgp_bound pgp"
  have B: "bound (extension_decls False order) = ?X @ ?Y" and
    bnd: "bound (extension_decls pgp order) = ?X @ ?P @ ?Y"
    by (simp_all add: extension_decls_def pgp_bound_def bound_def)
  have d: "distinct (map fst (?X @ ?Y))"
    using extension_bound_distinct [of order] unfolding B .
  then have "dom (map_of ?X) \<inter> dom (map_of ?Y) = {}" and rev: "map_of (rev ?X) = map_of ?X" "map_of (rev ?Y) = map_of ?Y"
    by (simp_all add: dom_map_of_conv_image_fst map_of_rev_distinct)
  moreover have "dom (map_of ?P) \<subseteq> dom (map_of ?X)"
    using openpgp_bound_before by (cases pgp) (simp_all add: pgp_bound_def dom_map_of_conv_image_fst)
  ultimately show ?thesis
    using map_of_rev_distinct [OF pgp_bound_distinct [of pgp]]
      map_add_overlay [of "map_of ?P" "map_of ?X" "map_of ?Y"] map_add_comm [of "map_of ?X" "map_of ?Y"]
    by (simp add: B bnd)
qed

lemma classes_declared_mem:
  "classes_declared T D \<Longrightarrow> (ty, c) \<in> set T \<Longrightarrow> (c, A_class ''Object'') \<in> set D"
  by (induction T D rule: classes_declared.induct) (auto simp: List.member_iff)

lemma methods_typed_mem:
  "methods_typed ms \<Longrightarrow> (p, n, f, a) \<in> set ms \<Longrightarrow> map_of typed_data (rust_type f) = Some p"
  by (induction ms rule: methods_typed.induct) auto

lemma instance_methods_pgp: "instance_methods (extension_decls pgp order) = instance_methods (extension_decls False order)"
  by (cases pgp) (simp_all add: extension_decls_def instance_methods_def openpgp_init_pgp_def Let_def)

lemma declared_pgp: "set (declared (extension_decls False order)) \<subseteq> set (declared (extension_decls pgp order))"
  by (auto simp: extension_decls_def declared_def)

lemma instance_methods_bound:
  "(p, n, f, a) \<in> set (instance_methods ds) \<Longrightarrow> ((p, False, n), (f, a)) \<in> set (bound ds)"
proof (induction ds)
  case (Cons d ds)
  then show ?case
    by (cases d) (auto simp: instance_methods_def bound_def)
qed (simp add: instance_methods_def)

lemma fold_update_declared:
  assumes "one_kind W" and "set ds \<subseteq> set W" and "(q, k) \<in> set (declared W)"
    and "(q, k) \<in> set (declared ds) \<or> const_at v q = Some k"
  shows "const_at (fold update_tables ds v) q = Some k"
  using assms(2,4)
proof (induction ds arbitrary: v)
  case (Cons d ds)
  have k: "map_of (declared W) q = Some k"
    by (rule one_kindD(1) [OF assms(1,3)])
  have d: "d \<in> set W" using Cons.prems by simp
  have "(q, k) \<in> set (declared ds) \<or> const_at (update_tables d v) q = Some k"
    using Cons.prems(2) update_const_declared [OF assms(1) d k, of v]
    by (auto simp del: update_tables_sel) (force simp del: update_tables_sel)
  then show ?case
    using Cons.IH [of "update_tables d v"] Cons.prems(1) by simp
qed simp

lemma extension_one_kind: "one_kind (extension_decls pgp order)"
  using extension_well_scoped by (simp add: well_scoped_def)

lemma pgp_bound_map:
  "map_of (pgp_bound pgp) =
     (if pgp then [([''Confium'', ''OpenPGP''], True, ''verify'') \<mapsto> (''pgp_impl::verify'', - 1),
                   ([''Confium'', ''OpenPGP''], True, ''verify_detached'') \<mapsto> (''pgp_impl::verify_detached'', - 1)]
      else Map.empty)"
  by (simp add: pgp_bound_def openpgp_init_pgp_def bound_def Let_def)

lemma loaded_view:
  assumes "ruby_registry invoke view" and "orderly (extension_decls pgp order) (view s)"
    and "run_decls invoke (extension_decls pgp order) s = Inr s'"
  shows "view s' = fold update_tables (extension_decls pgp order) (view s)"
  using ruby_registry.run_decls_succeeded(2) [OF assms(1) extension_well_scoped assms(2,3)] .

lemma loaded_methods_view:
  assumes "ruby_registry invoke view" and "orderly (extension_decls pgp order) (view s)"
    and "run_decls invoke (extension_decls pgp order) s = Inr s'"
  shows "method_at (view s') =
    method_at (view s) ++ map_of (bound (extension_decls False order)) ++ map_of (pgp_bound pgp)"
  by (simp add: loaded_view [OF assms] fold_update_method_at extension_bound)

text \<open>
  The state of the VM when the gem loads the extension: \<open>lib/confium/version.rb\<close> has defined
  \<open>Confium\<close> and \<open>lib/confium/native_windows.rb\<close> a module in it.
\<close>

definition gem_tables :: tables where
  "gem_tables =
     \<lparr>const_at = [[''Confium''] \<mapsto> A_module, [''Confium'', ''VERSION''] \<mapsto> A_value (rstr ''0.1''),
                  [''Confium'', ''NativeWindows''] \<mapsto> A_module],
      method_at = Map.empty, ivar_at = Map.empty, frozen_at = (\<lambda>_. False)\<rparr>"

lemma extension_assigned:
  "set (assigned (extension_decls pgp order)) \<subseteq>
     {([''Confium'', ''Transparency'', ''OTS'', ''PARSE_ERROR''], A_ref [''Confium'', ''Transparency'', ''OTS'', ''ParseError'']),
      ([''Confium'', ''OpenPGP'', ''PGP_AVAILABLE''], A_value (RBool False)),
      ([''Confium'', ''OpenPGP'', ''PGP_AVAILABLE''], A_value (RBool True)),
      ([''Confium'', ''TC'', ''Cmp20'', ''MTA_ERROR''], A_ref [''Confium'', ''TC'', ''Cmp20'', ''MtaError'']),
      ([''Confium'', ''TC'', ''Cmp20'', ''Mta'', ''P256_ORDER''], A_value (rstr order))}"
  by (cases pgp) (simp_all add: assigned_def extension_decls_def decls_before_pgp_def decls_after_pgp_def
      transparency_init_def ots_init_def openpgp_init_def openpgp_init_pgp_def composite_init_def
      attributes_init_def pki_init_def store_init_def path_init_def deployment_init_def tc_init_def
      tc_mta_init_def tc_session_init_def net_init_def audit_register_def ers_init_def Let_def)

lemma gem_tables_orderly: "orderly (extension_decls pgp order) gem_tables"
  using extension_assigned [of pgp order] by (auto simp: orderly_def gem_tables_def split: if_splits)

fun module_paths :: "(cpath \<times> const) list \<Rightarrow> bool" where
  "module_paths [] = True"
| "module_paths ((q, k) # D) =
     ((q = [''Confium''] \<longrightarrow> k = A_module) \<and> q \<noteq> [''Confium'', ''VERSION''] \<and>
      q \<noteq> [''Confium'', ''NativeWindows''] \<and> module_paths D)"

lemma extension_module_paths: "module_paths (declared (extension_decls True order))"
  by code_simp

lemma module_paths_compatible: "module_paths (declared ds) \<Longrightarrow> compatible ds gem_tables"
proof -
  have "module_paths D \<Longrightarrow> (q, k) \<in> set D \<Longrightarrow>
      (q = [''Confium''] \<longrightarrow> k = A_module) \<and> q \<noteq> [''Confium'', ''VERSION''] \<and> q \<noteq> [''Confium'', ''NativeWindows'']" for D q k
    by (induction D rule: module_paths.induct) auto
  then show "module_paths (declared ds) \<Longrightarrow> compatible ds gem_tables"
    by (auto simp: compatible_iff gem_tables_def)
qed

lemma gem_tables_load:
  "\<exists>s'. run_decls table_invoke (extension_decls True order) gem_tables = Inr s'"
  using table.run_decls_orderly [OF extension_well_scoped gem_tables_orderly, of True order]
    module_paths_compatible [OF extension_module_paths, of order] by (auto split: if_splits)

section \<open>Properties of loading\<close>

text \<open>C14: Loading the extension into a Ruby VM that has nothing frozen, no alias at a path the
  extension declares and no module at a constant it sets succeeds exactly when every path it
  declares is free or already holds a module or class of the declared kind (so loading it twice,
  or reopening \<open>Confium\<close> first, is fine). Otherwise it raises TypeError. The statement is for a
  target without the load-time probe, which on Windows runs before and returns nothing.
\<close>

theorem loading_outcome:
  assumes "ruby_registry invoke view" and "orderly (extension_decls pgp order) (view s)"
  shows "if compatible (extension_decls pgp order) (view s)
         then \<exists>s'. extension_init False pgp order invoke s = Ret (Inr s')
         else \<exists>e. extension_init False pgp order invoke s = Ret (Inl e) \<and> exn_class e = TypeError"
  using ruby_registry.run_decls_orderly [OF assms(1) extension_well_scoped assms(2)]
  by (auto simp: extension_init_def seqw_def split: if_splits)

theorem loading_outcome_witness:
  "(\<exists>s'. extension_init False True ''ff'' table_invoke gem_tables = Ret (Inr s')) \<and>
   (\<exists>e. extension_init False True ''ff'' table_invoke
          (gem_tables\<lparr>const_at := [[''Confium''] \<mapsto> A_class ''Object'']\<rparr>) = Ret (Inl e) \<and> exn_class e = TypeError)"
proof
  show "\<exists>s'. extension_init False True ''ff'' table_invoke gem_tables = Ret (Inr s')"
    using loading_outcome [OF table.ruby_registry_axioms gem_tables_orderly, of True "''ff''"]
      module_paths_compatible [OF extension_module_paths, of "''ff''"] by simp
next
  let ?v = "gem_tables\<lparr>const_at := [[''Confium''] \<mapsto> A_class ''Object'']\<rparr>"
  have "orderly (extension_decls True ''ff'') ?v"
    using extension_assigned [of True "''ff''"] by (auto simp: orderly_def gem_tables_def split: if_splits)
  moreover have "\<not> compatible (extension_decls True ''ff'') ?v"
    by (simp add: compatible_def extension_decls_def decls_before_pgp_def declared_def Let_def)
  ultimately show "\<exists>e. extension_init False True ''ff'' table_invoke ?v = Ret (Inl e) \<and> exn_class e = TypeError"
    using loading_outcome [OF table.ruby_registry_axioms, of True "''ff''" ?v] by simp
qed

text \<open>C13: After a successful load every wrapped Rust type has the Ruby class its \<open>#[magnus(class)]\<close>
  attribute names, and every Ruby instance method the extension registers is bound, in the class
  of the very type whose method implements it, to that Rust method: no receiver conversion of a
  registered instance method can meet an object of another wrapped type.
\<close>

theorem loaded_types:
  assumes "ruby_registry invoke view" and "orderly (extension_decls pgp order) (view s)"
    and "run_decls invoke (extension_decls pgp order) s = Inr s'"
  shows "(\<forall>(ty, c) \<in> set typed_data. const_at (view s') c = Some (A_class ''Object'')) \<and>
    (\<forall>(p, n, f, a) \<in> set (instance_methods (extension_decls pgp order)).
       map_of typed_data (rust_type f) = Some p \<and> method_at (view s') (p, False, n) = Some (f, a))"
proof (intro conjI ballI; clarify)
  fix ty c assume "(ty, c) \<in> set typed_data"
  then have c: "(c, A_class ''Object'') \<in> set (declared (extension_decls pgp order))"
    using classes_declared_mem [OF typed_data_declared] declared_pgp by blast
  show "const_at (view s') c = Some (A_class ''Object'')"
    unfolding loaded_view [OF assms]
    by (rule fold_update_declared [OF extension_one_kind subset_refl c disjI1 [OF c]])
next
  fix p n f a assume "(p, n, f, a) \<in> set (instance_methods (extension_decls pgp order))"
  then have m: "(p, n, f, a) \<in> set (instance_methods (extension_decls False order))"
    using instance_methods_pgp [of pgp order] by simp
  have "map_of (bound (extension_decls False order)) (p, False, n) = Some (f, a)"
    by (rule map_of_is_SomeI [OF extension_bound_distinct instance_methods_bound [OF m]])
  moreover have "map_of (pgp_bound pgp) (p, False, n) = None"
    by (simp add: pgp_bound_map)
  ultimately show "map_of typed_data (rust_type f) = Some p \<and> method_at (view s') (p, False, n) = Some (f, a)"
    using methods_typed_mem [OF instance_methods_typed m] by (simp add: loaded_methods_view [OF assms] map_add_def)
qed

theorem loaded_types_witness:
  "\<exists>s'. run_decls table_invoke (extension_decls True ''ff'') gem_tables = Inr s' \<and>
     const_at s' MerkleTree_class = Some (A_class ''Object'')"
proof -
  obtain s' where s': "run_decls table_invoke (extension_decls True ''ff'') gem_tables = Inr s'"
    using gem_tables_load by blast
  have "(''MerkleTree'', MerkleTree_class) \<in> set typed_data"
    by (simp add: typed_data_def)
  then show ?thesis
    using loaded_types [OF table.ruby_registry_axioms gem_tables_orderly s'] s' by blast
qed

text \<open>C15: A successful load binds no method twice but the two OpenPGP entry points, which the
  \<open>pgp\<close> feature rebinds: afterwards each method of the extension is the Rust function its only
  registration names, \<open>OpenPGP.verify\<close> and \<open>OpenPGP.verify_detached\<close> are the real ones exactly in a
  build with \<open>pgp\<close> (the stubs otherwise), and every other method of the VM is untouched.
\<close>

theorem loaded_methods:
  assumes "ruby_registry invoke view" and "orderly (extension_decls pgp order) (view s)"
    and "run_decls invoke (extension_decls pgp order) s = Inr s'"
  shows "distinct (map fst (bound (extension_decls False order))) \<and>
    method_at (view s') =
      method_at (view s) ++ map_of (bound (extension_decls False order)) ++
      (if pgp then [([''Confium'', ''OpenPGP''], True, ''verify'') \<mapsto> (''pgp_impl::verify'', - 1),
                    ([''Confium'', ''OpenPGP''], True, ''verify_detached'') \<mapsto> (''pgp_impl::verify_detached'', - 1)]
       else Map.empty)"
  by (simp only: extension_bound_distinct loaded_methods_view [OF assms] pgp_bound_map simp_thms)

theorem loaded_methods_witness:
  "\<exists>s'. run_decls table_invoke (extension_decls True ''ff'') gem_tables = Inr s' \<and>
     method_at s' ([''Confium'', ''OpenPGP''], True, ''verify'') = Some (''pgp_impl::verify'', - 1)"
proof -
  obtain s' where s': "run_decls table_invoke (extension_decls True ''ff'') gem_tables = Inr s'"
    using gem_tables_load by blast
  then show ?thesis
    using loaded_methods [OF table.ruby_registry_axioms gem_tables_orderly s'] by simp
qed

end
