(* ===== verification/Spec2Isabelle.thy ===== *)
theory Spec2Isabelle
  imports Transparency Tc Tc_Mta Tc_Session Composite Path Attributes Deployment Ots Ers Store Net Openpgp
    Gvl Build_Script Winsock Extension
begin

text \<open>
  Verification of the native extension of confium-ruby (\<^verbatim>\<open>ext/confium_native\<close>), the Rust crate that gives Ruby
  the Confium cryptographic libraries. The extension's own logic is what happens between Ruby and those
  libraries: which inputs are accepted, how structures travel as Ruby Hashes, in which order checks and effects
  happen, which verifier decides, what a failure becomes, and what the audit trail and the GVL have to do with it.

  \<^bold>\<open>Conventions.\<close> Ruby values, exceptions, Hashes and the runtime are in \<open>Ruby_Host\<close>. A function that may raise
  returns \<open>exn + 'a\<close>; one that may run Ruby code takes and returns the state \<open>vm\<close>. A Rust panic, which magnus turns
  into a fatal exception, is \<open>Exn Fatal\<close>; one that may not unwind ends the process, \<open>Exn ProcessAbort\<close>. Texts are lists of the bytes of their UTF-8 encoding as characters, so
  \<open>length\<close> is Rust's \<open>len\<close>. Machine integers keep their width (\<open>u8\<close>, \<open>u32\<close>, \<open>i64\<close>, \<open>u64\<close>); \<open>usize\<close> is a natural number
  where it only counts. Code outside the repository (magnus and the Ruby VM, the confium crates, librnp, hex, sha2,
  p256, the network, the file system) is a field of a parameter record (\<open>rt\<close> and one \<open>_api\<close> record per crate). What a
  theorem needs of such code is a named predicate over the record (\<open>core_conversions\<close>, \<open>shamir_threshold\<close>,
  \<open>composite_laws\<close>, \<open>session_laws\<close>, ...), and a witness instantiates it with a concrete record. A crate function that
  draws random numbers is modelled for one fixed choice of them: it is a function of its arguments.

  \<^bold>\<open>Theories\<close>, each for the file of \<^verbatim>\<open>src/ext/confium_native/src\<close> named with it:
  \<^item> \<open>Prelude\<close>: result combinators for \<open>?\<close> and \<open>map_err\<close>, \<open>collect\<close>, number formats, hexadecimal, \<open>str::trim\<close>.
  \<^item> \<open>Ruby_Host\<close>: the host side; \<open>core_conversions\<close> says what magnus documents of its conversions, and \<open>core_rt\<close> has it.
  \<^item> \<open>Util\<close> (\<^verbatim>\<open>util.rs\<close>): the byte boundary and the typed errors. Locales \<open>byte_input\<close>, \<open>error_builder\<close>, \<open>hash_codec\<close>
    and \<open>text_parser\<close> are the interfaces the other components use; each is interpreted where it is provided.
  \<^item> \<open>Audit_Trail\<close> (\<^verbatim>\<open>audit.rs\<close>): the sink and \<open>fire_event\<close>. Locale \<open>audited_op\<close> is what an audited operation owes its
    caller; \<open>Tc\<close> and \<open>Composite\<close> interpret it on their seven operations.
  \<^item> \<open>Gvl\<close> (\<^verbatim>\<open>gvl.rs\<close>): \<open>without_gvl\<close> runs its closure exactly once, with the lock released.
  \<^item> \<open>Transparency\<close> (\<^verbatim>\<open>transparency.rs\<close>): the Merkle log. Accepted proofs bind position, leaf and path up to a collision
    that the model computes; audit paths are accepted; leaves and nodes are separated; exports lose nothing.
  \<^item> \<open>Tc\<close> (\<^verbatim>\<open>tc.rs\<close>): Shamir shares, FROST, ElGamal and the CMP20 and GG18 drivers, with their Hash codecs.
  \<^item> \<open>Tc_Mta\<close> (\<^verbatim>\<open>tc_mta.rs\<close>): the share-conversion exchange: seven codecs, three rounds equal to the one-call exchange.
  \<^item> \<open>Tc_Session\<close> (\<^verbatim>\<open>tc_session.rs\<close>): sessions driven through Hashes refine the crate's sessions, for every schedule, but
    for messages above 1 MiB, which are refused on delivery.
  \<^item> \<open>Composite\<close> (\<^verbatim>\<open>composite.rs\<close>): verifier dispatch; built-in verifiers cannot be overridden, verdicts are sound.
  \<^item> \<open>Pki\<close> (\<^verbatim>\<open>pki.rs\<close>): certificates, CSRs, CMS signed data, XML canonicalisation; reported signers were checked.
  \<^item> \<open>Path\<close> (\<^verbatim>\<open>path.rs\<close>), \<open>Attributes\<close> (\<^verbatim>\<open>attributes.rs\<close>), \<open>Deployment\<close> (\<^verbatim>\<open>deployment.rs\<close>): wrapped objects reach the
    crates as they are; signers are shared mutable objects with an explicit store.
  \<^item> \<open>Ots\<close> (\<^verbatim>\<open>ots.rs\<close>): the timestamp client. Each call is split where the GVL is released, threads that stamp
    and upgrade interleave by the step relation \<open>ots_step\<close>, and the client's \<open>RefCell\<close> is part of the state: round trips
    exclude each other, a second caller panics, and no history wedges the client.
  \<^item> \<open>Ers\<close> (\<^verbatim>\<open>ers.rs\<close>), \<open>Store\<close> (\<^verbatim>\<open>store.rs\<close>), \<open>Net\<close> (\<^verbatim>\<open>net.rs\<close>), \<open>Openpgp\<close> (\<^verbatim>\<open>openpgp_verify.rs\<close>): evidence records, keystores,
    the coordinator's client, OpenPGP verification.
  \<^item> \<open>Build_Script\<close> (\<^verbatim>\<open>build.rs\<close>): the walk to the workspace root, which always ends, and the scan of \<^verbatim>\<open>Cargo.lock\<close>.

  \<^item> \<open>Registry\<close>: the magnus calls that declare modules, classes and methods, and what the Ruby VM promises of them
    (locale \<open>ruby_registry\<close>); a script that passes a static check has a decided outcome on every VM.
  \<^item> \<open>Extension\<close> (\<^verbatim>\<open>lib.rs\<close> and every \<open>init\<close> function): the script of the whole extension. Loading fails exactly on a
    clash of kinds; afterwards each wrapped type has its class, and each Ruby method is the Rust function meant for it.
  \<^item> \<open>Sockets\<close>: system calls on sockets as programs, threads and their interleaving as the step relation \<open>step\<close>, and the
    ownership invariant with its weakest preconditions.
  \<^item> \<open>Winsock\<close> (\<^verbatim>\<open>winsock.rs\<close>): the Windows diagnostics. They touch only sockets they opened, leave at most one behind, and
    can wait for ever for a connection nobody makes.

  This theory holds the properties that span components: the byte boundary, the typed errors, the text entry points,
  the indexed accessors and the audit trail.

  \<^bold>\<open>Termination and bounds.\<close> No definition uses fuel: loops are structural recursions or have a measure. The only size
  limit is the code's own \<open>MAX_INPUT_SIZE\<close>. \<open>run_sched\<close> of \<open>Sockets\<close> follows a given schedule, to exhibit runs.

  \<^bold>\<open>Assumptions on the host.\<close> The operating system may answer every system call as it likes, within the type of the call
  (\<open>typed\<close>); a call on a socket it did not hand out is what the ownership theorems exclude. Connections from other
  processes are in the initial backlog. Texts the crates hand over are Rust strings (\<open>rust_string\<close>), by their type. The Ruby VM before loading is
  \<open>orderly\<close>: nothing frozen, no alias at a declared path, no module at a constant that is set.

  \<^bold>\<open>Not modelled.\<close> The insides of the crates, of librnp and of the Ruby VM; the sleeps of the diagnostics; the socket smoke
  test, a separate crate for continuous integration; the Ruby library, which is not the extension's language.
\<close>

section \<open>The byte boundary\<close>

text \<open>C22: the byte boundary accepts exactly the strings of at most 1 MiB, as they are, and exactly the arrays
  of at most 1 MiB elements that all lie in \<open>0..255\<close>, as the bytes of those values; the array of a string's
  bytes is an input of the same meaning as the string.\<close>

theorem byte_boundary_exact:
  fixes H :: "'w rt" and ws :: "i64 list"
  assumes "core_conversions H"
  shows "(bytes_from_value H (RStr b) = Inr bs \<longleftrightarrow> length b \<le> MAX_INPUT_SIZE \<and> bs = b) \<and>
    (bytes_from_value H (RArr (map (\<lambda>i. RInt (sint i)) ws)) = Inr bs \<longleftrightarrow>
       length ws \<le> MAX_INPUT_SIZE \<and> list_all2 (\<lambda>w b. sint w = uint b) ws bs) \<and>
    bytes_from_value H (RArr (map (\<lambda>b. RInt (uint b)) b)) = bytes_from_value H (RStr b)"
proof (intro conjI)
  show "bytes_from_value H (RStr b) = Inr bs \<longleftrightarrow> length b \<le> MAX_INPUT_SIZE \<and> bs = b"
    using assms by (auto simp: bytes_from_value_def core_conversionsD res_iffs)
  have "0 \<le> sint w \<and> sint w \<le> 255 \<and> uint b = sint w \<longleftrightarrow> sint w = uint b" for w :: i64 and b :: u8
    using uint_lt2p [of b] by auto
  then show "bytes_from_value H (RArr (map (\<lambda>i. RInt (sint i)) ws)) = Inr bs \<longleftrightarrow>
      length ws \<le> MAX_INPUT_SIZE \<and> list_all2 (\<lambda>w b. sint w = uint b) ws bs"
    unfolding bytes_from_value_array [OF assms] by (simp add: res_iffs collect_Inr_iff byte_of_i64_Inr)
  show "bytes_from_value H (RArr (map (\<lambda>b. RInt (uint b)) b)) = bytes_from_value H (RStr b)"
    by (rule bytes_from_value_byte_array [OF assms])
qed

theorem byte_boundary_exact_witness:
  "bytes_from_value (core_rt id :: unit rt) (RArr [RInt 0, RInt 255]) = Inr [0, 255] \<and>
   bytes_from_value (core_rt id :: unit rt) (RArr [RInt 0, RInt 256]) \<noteq> Inr [0, 0]"
  using byte_boundary_exact [OF core_rt_conversions [of id, where 'a = unit], of "[]" "[0, 255]" "[0, 255]"]
    byte_boundary_exact [OF core_rt_conversions [of id, where 'a = unit], of "[]" "[0, 0]" "[0, 256]"]
  by (simp add: MAX_INPUT_SIZE_def)

text \<open>Every typed error carries the message of its raise site, whatever of the exception hierarchy the
  host could resolve, and its class is the typed one, \<open>Confium::Error\<close> or \<open>RuntimeError\<close>.\<close>

lemma typed_errors_keep_message:
  "exn_msg (parse_error H m oper fmt off) = m \<and>
   exn_class (parse_error H m oper fmt off) \<in> {ConfiumClass ''ParseError'', ConfiumClass ''Error'', RuntimeError} \<and>
   exn_msg (index_error H m oper ix) = m \<and>
   exn_class (index_error H m oper ix) \<in> {ConfiumClass ''IndexError'', ConfiumClass ''Error'', RuntimeError} \<and>
   exn_msg (validation_error H m oper par ex act) = m \<and>
   exn_class (validation_error H m oper par ex act) \<in>
     {ConfiumClass ''ValidationError'', ConfiumClass ''Error'', RuntimeError} \<and>
   exn_msg (verification_error H m oper si alg) = m \<and>
   exn_class (verification_error H m oper si alg) \<in>
     {ConfiumClass ''VerificationError'', ConfiumClass ''Error'', RuntimeError} \<and>
   exn_msg (crypto_error H m oper prim) = m \<and>
   exn_class (crypto_error H m oper prim) \<in> {ConfiumClass ''CryptoError'', ConfiumClass ''Error'', RuntimeError} \<and>
   exn_msg (threshold_error H m oper hv nd) = m \<and>
   exn_class (threshold_error H m oper hv nd) \<in> {ConfiumClass ''ThresholdError'', ConfiumClass ''Error'', RuntimeError}"
  using parse_err.class_fallback [of H m oper fmt off] index_err.class_fallback [of H m oper ix]
    validation_err.class_fallback [of H m oper par ex act] verification_err.class_fallback [of H m oper si alg]
    crypto_err.class_fallback [of H m oper prim] threshold_err.class_fallback [of H m oper hv nd]
  by (auto simp: parse_err.message index_err.message validation_err.message verification_err.message
      crypto_err.message threshold_err.message)

section \<open>The text entry points\<close>

text \<open>A wrapper with one field is determined by it.\<close>

lemma wrapped_iff:
  "(\<exists>x. r = Inr x \<and> c = \<lparr>cert_inner = x\<rparr>) \<longleftrightarrow> r = Inr (cert_inner c)"
  "(\<exists>x. r2 = Inr x \<and> q = \<lparr>csr_inner = x\<rparr>) \<longleftrightarrow> r2 = Inr (csr_inner q)"
  "(\<exists>x. r3 = Inr x \<and> d = \<lparr>sd_inner = x\<rparr>) \<longleftrightarrow> r3 = Inr (sd_inner d)"
  "(\<exists>x. r4 = Inr x \<and> a = \<lparr>actor_inner = x\<rparr>) \<longleftrightarrow> r4 = Inr (actor_inner a)"
  "(\<exists>x. r5 = Inr x \<and> m = \<lparr>manifest_inner = x\<rparr>) \<longleftrightarrow> r5 = Inr (manifest_inner m)"
proof -
  show "(\<exists>x. r = Inr x \<and> c = \<lparr>cert_inner = x\<rparr>) \<longleftrightarrow> r = Inr (cert_inner c)" by (cases c) auto
  show "(\<exists>x. r2 = Inr x \<and> q = \<lparr>csr_inner = x\<rparr>) \<longleftrightarrow> r2 = Inr (csr_inner q)" by (cases q) auto
  show "(\<exists>x. r3 = Inr x \<and> d = \<lparr>sd_inner = x\<rparr>) \<longleftrightarrow> r3 = Inr (sd_inner d)" by (cases d) auto
  show "(\<exists>x. r4 = Inr x \<and> a = \<lparr>actor_inner = x\<rparr>) \<longleftrightarrow> r4 = Inr (actor_inner a)" by (cases a) auto
  show "(\<exists>x. r5 = Inr x \<and> m = \<lparr>manifest_inner = x\<rparr>) \<longleftrightarrow> r5 = Inr (manifest_inner m)" by (cases m) auto
qed

text \<open>C23: every entry point that takes a text refuses one above 1 MiB with an \<open>ArgumentError\<close>, whatever
  the crate's parser would say of it, and on the others accepts exactly what the parser accepts.\<close>

theorem text_entry_points_bounded:
  fixes H :: "'w rt"
  assumes "ruby_get H = None"
  shows "(Certificate_from_pem H P s = Inr c \<longleftrightarrow> length s \<le> MAX_INPUT_SIZE \<and> cert_from_pem P s = Inr (cert_inner c)) \<and>
    (Csr_from_pem H Q s = Inr r \<longleftrightarrow> length s \<le> MAX_INPUT_SIZE \<and> csr_from_pem Q s = Inr (csr_inner r)) \<and>
    (SignedData_from_json H C s = Inr d \<longleftrightarrow> length s \<le> MAX_INPUT_SIZE \<and> sd_of_json C s = Inr (sd_inner d)) \<and>
    (xmldsig_canonicalize H X s = Inr t \<longleftrightarrow> length s \<le> MAX_INPUT_SIZE \<and> canonicalize X s = Inr t) \<and>
    (xmldsig_canonicalize_exclusive H X s = Inr t \<longleftrightarrow> length s \<le> MAX_INPUT_SIZE \<and> canonicalize_exclusive X s = Inr t) \<and>
    (Actor_from_json H I s = Inr a \<longleftrightarrow> length s \<le> MAX_INPUT_SIZE \<and> actor_of_json I s = Inr (actor_inner a)) \<and>
    (Manifest_from_toml H M s = Inr m \<longleftrightarrow> length s \<le> MAX_INPUT_SIZE \<and> parse_manifest M s = Inr (manifest_inner m)) \<and>
    (MAX_INPUT_SIZE < length s \<longrightarrow>
       (let e = Exn ArgumentError (''input size '' @ show_nat (length s) @ '' exceeds max '' @ show_nat MAX_INPUT_SIZE) []
        in Certificate_from_pem H P s = Inl e \<and> Csr_from_pem H Q s = Inl e \<and> SignedData_from_json H C s = Inl e \<and>
           xmldsig_canonicalize H X s = Inl e \<and> xmldsig_canonicalize_exclusive H X s = Inl e \<and>
           Actor_from_json H I s = Inl e \<and> Manifest_from_toml H M s = Inl e))"
  using assms
  by (simp add: cert_pem.parsed_iff csr_pem.parsed_iff sd_json.parsed_iff c14n.parsed_iff exc14n.parsed_iff
        actor_json.parsed_iff manifest_toml.parsed_iff wrapped_iff Let_def cert_pem.oversize csr_pem.oversize
        sd_json.oversize c14n.oversize exc14n.oversize actor_json.oversize manifest_toml.oversize)

definition echo_csr :: "string csr_api" where
  "echo_csr = \<lparr>csr_from_der = (\<lambda>b. Inr (text_of b)), csr_from_pem = Inr, csr_to_der = utf8, csr_to_pem = id\<rparr>"

definition echo_xmldsig :: xmldsig_api where
  "echo_xmldsig = \<lparr>canonicalize = Inr, canonicalize_exclusive = Inr\<rparr>"

definition no_identity :: "(unit, unit) identity_api" where
  "no_identity = \<lparr>actor_of_json = (\<lambda>s. Inl ''no actor''), json_of_actor = (\<lambda>a. Inl ''no actor'')\<rparr>"

definition tier_manifest :: "string list manifest_api" where
  "tier_manifest =
     \<lparr>parse_manifest = (\<lambda>s. Inr [s]), mf_deployment_name = (\<lambda>m. ''demo''), mf_operator = (\<lambda>m. ''demo''),
      mf_manifest_version = (\<lambda>m. 1), mf_tier_names = id, mf_quorum_count = length, validate_manifest = (\<lambda>m. [])\<rparr>"

theorem text_entry_points_bounded_witness:
  "Csr_from_pem (core_rt id :: unit rt) echo_csr ''abc'' = Inr \<lparr>csr_inner = ''abc''\<rparr> \<and>
   xmldsig_canonicalize (core_rt id :: unit rt) echo_xmldsig ''abc'' = Inr ''abc'' \<and>
   Manifest_from_toml (core_rt id :: unit rt) tier_manifest ''abc'' = Inr \<lparr>manifest_inner = [''abc'']\<rparr> \<and>
   (\<exists>e. Certificate_from_pem (core_rt id :: unit rt) der_certs (replicate (Suc MAX_INPUT_SIZE) (CHR ''a'')) = Inl e \<and>
      exn_class e = ArgumentError)"
proof (intro conjI)
  let ?H = "core_rt id :: unit rt"
  note small = text_entry_points_bounded [of ?H der_certs "''abc''" _ echo_csr "\<lparr>csr_inner = ''abc''\<rparr>" toy_cms _
      echo_xmldsig "''abc''" no_identity _ tier_manifest "\<lparr>manifest_inner = [''abc'']\<rparr>"]
  show "Csr_from_pem ?H echo_csr ''abc'' = Inr \<lparr>csr_inner = ''abc''\<rparr>"
    using small by (simp add: echo_csr_def MAX_INPUT_SIZE_def)
  show "xmldsig_canonicalize ?H echo_xmldsig ''abc'' = Inr ''abc''"
    using small by (simp add: echo_xmldsig_def MAX_INPUT_SIZE_def)
  show "Manifest_from_toml ?H tier_manifest ''abc'' = Inr \<lparr>manifest_inner = [''abc'']\<rparr>"
    using small by (simp add: tier_manifest_def MAX_INPUT_SIZE_def)
  show "\<exists>e. Certificate_from_pem ?H der_certs (replicate (Suc MAX_INPUT_SIZE) (CHR ''a'')) = Inl e \<and>
      exn_class e = ArgumentError"
    using text_entry_points_bounded [of ?H der_certs "replicate (Suc MAX_INPUT_SIZE) (CHR ''a'')" _ echo_csr _ toy_cms _
        echo_xmldsig _ no_identity _ tier_manifest]
    by (simp add: Let_def)
qed

text \<open>C37: the indexed accessors return the element at every index below the count they report, and raise
  \<open>IndexError\<close> with that index at every other, without a panic.\<close>

theorem indexed_access_checked:
  fixes H :: "'w rt"
  assumes "host_has H ''IndexError''" and "i < 2 ^ 64"
  shows "(if i < SignedData_certificate_count d
      then SignedData_certificate_at H d i = Inr (RStr (sd_certificates (sd_inner d) ! i))
      else \<exists>e. SignedData_certificate_at H d i = Inl e \<and> exn_class e = ConfiumClass ''IndexError'' \<and>
             hash_get (exn_details e) ''index'' = Some (RInt (int i))) \<and>
    (if i < Manifest_tier_count M m
      then Manifest_tier_name_at H M m i = Inr (mf_tier_names M (manifest_inner m) ! i)
      else \<exists>e. Manifest_tier_name_at H M m i = Inl e \<and> exn_class e = ConfiumClass ''IndexError'' \<and>
             hash_get (exn_details e) ''index'' = Some (RInt (int i)))"
proof -
  have "uint (word_of_nat i :: u64) = int i"
    using assms(2) by (simp add: unsigned_of_nat take_bit_nat_eq_self of_nat_take_bit take_bit_int_eq_self)
  moreover have "ruby_get H = None" using assms(1) by (simp add: host_has_def)
  ultimately show ?thesis
    by (simp add: SignedData_certificate_at_def Manifest_tier_name_at_def SignedData_certificate_count_def
        Manifest_tier_count_def slice_get_def index_err.typed [OF assms(1)] bytes_to_rstring_def)
qed

theorem indexed_access_checked_witness:
  "Manifest_tier_name_at (core_rt id :: unit rt) tier_manifest \<lparr>manifest_inner = [''root'', ''leaf'']\<rparr> 1 = Inr ''leaf'' \<and>
   (\<exists>e. Manifest_tier_name_at (core_rt id :: unit rt) tier_manifest \<lparr>manifest_inner = [''root'', ''leaf'']\<rparr> 2 = Inl e \<and>
      hash_get (exn_details e) ''index'' = Some (RInt 2))"
proof -
  let ?H = "core_rt id :: unit rt" and ?m = "\<lparr>manifest_inner = [''root'', ''leaf'']\<rparr>"
  have c: "Manifest_tier_count tier_manifest ?m = 2" by (simp add: Manifest_tier_count_def tier_manifest_def)
  show ?thesis
    using indexed_access_checked [OF core_rt_host_has [of id, where 'a = unit], of 1 _ tier_manifest ?m]
      indexed_access_checked [OF core_rt_host_has [of id, where 'a = unit], of 2 _ tier_manifest ?m]
    unfolding c by (auto simp: tier_manifest_def)
qed

section \<open>The audit trail\<close>

text \<open>The argument decoding and the error builders do not call Ruby code.\<close>

lemma funcall_frame:
  fixes H :: "'w rt"
  shows "bytes_from_value (H\<lparr>funcall := g\<rparr>) = bytes_from_value H"
    "check32 (H\<lparr>funcall := g\<rparr>) = check32 H"
    "arg_error (H\<lparr>funcall := g\<rparr>) = arg_error H"
    "confium_error (H\<lparr>funcall := g\<rparr>) = confium_error H"
    "crypto_error (H\<lparr>funcall := g\<rparr>) = crypto_error H"
    "threshold_error (H\<lparr>funcall := g\<rparr>) = threshold_error H"
proof -
  have plain: "arg_error (H\<lparr>funcall := g\<rparr>) = arg_error H" by (simp add: fun_eq_iff)
  have size: "enforce_size (H\<lparr>funcall := g\<rparr>) = enforce_size H" "byte_of_i64 (H\<lparr>funcall := g\<rparr>) = byte_of_i64 H"
    by (simp_all add: fun_eq_iff enforce_size_def byte_of_i64_def)
  have err: "resolve_confium_subclass (H\<lparr>funcall := g\<rparr>) = resolve_confium_subclass H"
    by (simp add: fun_eq_iff resolve_confium_subclass_def)
  then have conf: "confium_error (H\<lparr>funcall := g\<rparr>) = confium_error H"
    by (simp add: fun_eq_iff confium_error_def Let_def split: option.split)
  show "bytes_from_value (H\<lparr>funcall := g\<rparr>) = bytes_from_value H"
    by (simp add: fun_eq_iff bytes_from_value_def size split: sum.split)
  show "check32 (H\<lparr>funcall := g\<rparr>) = check32 H" by (simp add: fun_eq_iff check32_def)
  show "arg_error (H\<lparr>funcall := g\<rparr>) = arg_error H" by (rule plain)
  show "confium_error (H\<lparr>funcall := g\<rparr>) = confium_error H" by (rule conf)
  show "crypto_error (H\<lparr>funcall := g\<rparr>) = crypto_error H" by (simp add: fun_eq_iff crypto_error_def conf split: option.split)
  show "threshold_error (H\<lparr>funcall := g\<rparr>) = threshold_error H" by (simp add: fun_eq_iff threshold_error_def conf split: option.split)
qed

lemma args_frame:
  fixes H :: "'w rt"
  shows "frost_sign_args (H\<lparr>funcall := g\<rparr>) = (frost_sign_args H :: ('s, 'p) frost_api \<Rightarrow> _)"
    "signed_hash (H\<lparr>funcall := g\<rparr>) = signed_hash H"
    "sign_args (H\<lparr>funcall := g\<rparr>) = sign_args H"
    "key_and_message (H\<lparr>funcall := g\<rparr>) = key_and_message H"
    "p256_sign_args (H\<lparr>funcall := g\<rparr>) = (p256_sign_args H :: ('w, 'k, 'c) composite_api \<Rightarrow> _)"
  by (simp_all add: fun_eq_iff frost_sign_args_def signed_hash_def sign_args_def key_and_message_def p256_sign_args_def with_ruby_def
      funcall_frame del: arg_error_eq)

text \<open>C18: the audit trail never changes an answer. Whatever the sink does (raise, change the state, be absent)
  and in whatever state the virtual machine is, each of the seven audited operations returns the same result.\<close>

theorem audit_never_changes_answers:
  fixes H :: "'w rt" and F :: "('s, 'p) frost_api" and C :: "('w, 'k, 'c) composite_api"
  shows "fst (frost_sign (H\<lparr>funcall := g\<rparr>) F pk mv s') = fst (frost_sign H F pk mv s) \<and>
    fst (cmp20_keygen (H\<lparr>funcall := g\<rparr>) D t n s') = fst (cmp20_keygen H D t n s) \<and>
    fst (gg18_keygen (H\<lparr>funcall := g\<rparr>) D t n s') = fst (gg18_keygen H D t n s) \<and>
    fst (cmp20_sign (H\<lparr>funcall := g\<rparr>) D sv t mv s') = fst (cmp20_sign H D sv t mv s) \<and>
    fst (gg18_sign (H\<lparr>funcall := g\<rparr>) D sv t mv s') = fst (gg18_sign H D sv t mv s) \<and>
    fst (sign_ed25519 (H\<lparr>funcall := g\<rparr>) C pk mv s') = fst (sign_ed25519 H C pk mv s) \<and>
    fst (sign_p256 (H\<lparr>funcall := g\<rparr>) C pk mv s') = fst (sign_p256 H C pk mv s)"
  by (simp only: frost.answer cmp20_kg.answer gg18_kg.answer cmp20_sg.answer gg18_sg.answer ed.answer p2.answer
      funcall_frame args_frame simp_thms)

text \<open>What one event says of an attempted operation: the trail of the sinks grew by one Hash with the
  operation, its algorithm, the outcome of the crate's call and the digest of the message.\<close>

definition reports ::
  "rvalue list rt \<Rightarrow> string \<Rightarrow> string \<Rightarrow> bytes option \<Rightarrow> string + 'a \<Rightarrow> rvalue list vm \<Rightarrow> rvalue list vm \<Rightarrow> bool" where
  "reports H slug alg pl r s s' \<longleftrightarrow>
     (\<exists>ev. world s' = world s @ [RHash ev] \<and>
        hash_get ev ''operation'' = Some (rstr slug) \<and>
        hash_get ev ''algorithm'' = Some (rstr alg) \<and>
        hash_get ev ''result'' = Some (rstr (case r of Inl _ \<Rightarrow> ''failure'' | Inr _ \<Rightarrow> ''success'')) \<and>
        hash_get ev ''error'' = (case r of Inl m \<Rightarrow> Some (rstr m) | Inr _ \<Rightarrow> None) \<and>
        hash_get ev ''payload_hash'' =
          Some (rstr (case pl of None \<Rightarrow> '''' | Some b \<Rightarrow> hex_encode H (sha256 H b))))"

lemma fire_reports:
  assumes "audit_ready (memory_rt H)" "sink_ivar s \<noteq> RNil"
  shows "reports (memory_rt H) slug alg pl r s
    (fire_event (memory_rt H) slug (outcome_slug (outcome te fin r)) (Some alg) pl
       (case outcome te fin r of Inl (m, e) \<Rightarrow> Some m | Inr _ \<Rightarrow> None) s)"
  unfolding reports_def
  by (rule exI [of _ "event_hash (memory_rt H) s slug (outcome_slug (outcome te fin r)) (Some alg) pl
        (case outcome te fin r of Inl (m, e) \<Rightarrow> Some m | Inr _ \<Rightarrow> None)"])
    (simp add: memory_rt_fire [OF assms] event_hash_get outcome_slug_def outcome_def split: sum.split)

text \<open>C19: with a sink that listens, an operation whose arguments are accepted fires exactly one event, which
  says whether the crate succeeded and carries its error's text; an operation whose arguments are refused
  fires none and changes nothing.\<close>

theorem audited_operations_report_once:
  fixes H0 :: "rvalue list rt" and F :: "('s, 'p) frost_api" and C :: "(rvalue list, 'k, 'c) composite_api"
  defines "H \<equiv> memory_rt H0"
  assumes "audit_ready H" and "sink_ivar s \<noteq> RNil"
  shows "(case frost_sign_args H F pk mv of
       Inl e \<Rightarrow> frost_sign H F pk mv s = (Inl e, s)
     | Inr (pl, r) \<Rightarrow> reports H ''tc_frost_p256_sign'' ''FROST-P256'' pl r s (snd (frost_sign H F pk mv s))) \<and>
    (case sign_args H sv mv of
       Inl e \<Rightarrow> cmp20_sign H D sv t mv s = (Inl e, s) \<and> gg18_sign H D sv t mv s = (Inl e, s)
     | Inr (shares, msg) \<Rightarrow>
         reports H ''tc_cmp20_sign'' ''CMP20-ECDSA-P256'' (Some msg) (inprocess_sign D shares t msg) s
           (snd (cmp20_sign H D sv t mv s)) \<and>
         reports H ''tc_gg18_sign'' ''GG18-ECDSA-P256'' (Some msg) (inprocess_sign D shares t msg) s
           (snd (gg18_sign H D sv t mv s))) \<and>
    reports H ''tc_cmp20_keygen'' ''CMP20-ECDSA-P256'' None (inprocess_keygen D t (unat n)) s
      (snd (cmp20_keygen H D t n s)) \<and>
    reports H ''tc_gg18_keygen'' ''GG18-ECDSA-P256'' None (inprocess_keygen D t (unat n)) s
      (snd (gg18_keygen H D t n s)) \<and>
    (case key_and_message H ''Ed25519 private key must be 32'' pk mv of
       Inl e \<Rightarrow> sign_ed25519 H C pk mv s = (Inl e, s)
     | Inr (k, msg) \<Rightarrow> reports H ''composite_sign_ed25519'' ''Ed25519'' (Some msg) (build_ed25519_component C k msg) s
         (snd (sign_ed25519 H C pk mv s))) \<and>
    (case p256_sign_args H C pk mv of
       Inl e \<Rightarrow> sign_p256 H C pk mv s = (Inl e, s)
     | Inr (k, msg) \<Rightarrow> reports H ''composite_sign_p256'' ''ECDSA-P256'' (Some msg)
         (map_err (\<lambda>e. ''sign error: '' @ e) (p256_sign C k msg)) s (snd (sign_p256 H C pk mv s)))"
proof -
  note fire = fire_reports [OF assms(2,3) [unfolded H_def], folded H_def]
  show ?thesis
  proof (intro conjI)
    show "case frost_sign_args H F pk mv of
       Inl e \<Rightarrow> frost_sign H F pk mv s = (Inl e, s)
     | Inr (pl, r) \<Rightarrow> reports H ''tc_frost_p256_sign'' ''FROST-P256'' pl r s (snd (frost_sign H F pk mv s))"
      by (auto simp: frost.no_event frost.one_event fire split: sum.split)
  qed (auto simp: cmp20_sg.no_event cmp20_sg.one_event gg18_sg.no_event gg18_sg.one_event cmp20_kg.one_event
      gg18_kg.one_event ed.no_event ed.one_event p2.no_event p2.one_event fire split: sum.split)
qed

theorem audited_operations_report_once_witness:
  "reports (memory_rt (core_rt id)) ''tc_cmp20_keygen'' ''CMP20-ECDSA-P256'' None (inprocess_keygen concat_driver 2 3)
     \<lparr>sink_ivar = RObj 1, stderr_log = [], world = []\<rparr>
     (snd (cmp20_keygen (memory_rt (core_rt id)) concat_driver 2 3 \<lparr>sink_ivar = RObj 1, stderr_log = [], world = []\<rparr>))"
proof -
  have "audit_ready (memory_rt (core_rt id))"
    by (simp add: audit_ready_def audit_mod_def memory_rt_def core_rt_def)
  from audited_operations_report_once [OF this, where s = "\<lparr>sink_ivar = RObj 1, stderr_log = [], world = []\<rparr>"
      and F = copy_frost and pk = RNil and mv = RNil and sv = RNil and D = concat_driver and t = 2 and n = 3
      and C = toy_composite]
  show ?thesis by simp
qed


end
